theory Spec2Isabelle
  imports Main
begin

section \<open>Python strings\<close>

text \<open>
  A Python \<open>str\<close> is modelled as a list of code points in the range 0..255; the character
  classification below follows Python's Unicode tables on that range.
\<close>

definition ord :: "char \<Rightarrow> nat" where
  "ord c = of_char c"

definition py_isspace :: "char \<Rightarrow> bool" where
  "py_isspace c = (let n = ord c in
     (9 \<le> n \<and> n \<le> 13) \<or> (28 \<le> n \<and> n \<le> 32) \<or> n = 133 \<or> n = 160)"

definition py_isupper_char :: "char \<Rightarrow> bool" where
  "py_isupper_char c = (let n = ord c in
     (65 \<le> n \<and> n \<le> 90) \<or> (192 \<le> n \<and> n \<le> 222 \<and> n \<noteq> 215))"

definition py_islower_char :: "char \<Rightarrow> bool" where
  "py_islower_char c = (let n = ord c in
     (97 \<le> n \<and> n \<le> 122) \<or> n = 170 \<or> n = 181 \<or> n = 186 \<or> (223 \<le> n \<and> n \<noteq> 247))"

definition py_isdigit_char :: "char \<Rightarrow> bool" where
  "py_isdigit_char c = (let n = ord c in 48 \<le> n \<and> n \<le> 57)"

definition py_isalpha_char :: "char \<Rightarrow> bool" where
  "py_isalpha_char c = (py_isupper_char c \<or> py_islower_char c)"

text \<open>The class \<open>\w\<close> of \<open>re\<close> on \<open>str\<close>: alphanumeric code points and the underscore.\<close>

definition is_word_char :: "char \<Rightarrow> bool" where
  "is_word_char c = (let n = ord c in
     py_isalpha_char c \<or> py_isdigit_char c \<or> n = 95 \<or>
     n = 178 \<or> n = 179 \<or> n = 185 \<or> (188 \<le> n \<and> n \<le> 190))"

definition lower_char :: "char \<Rightarrow> char" where
  "lower_char c = (if py_isupper_char c then char_of (ord c + 32) else c)"

definition py_lower :: "string \<Rightarrow> string" where
  "py_lower s = map lower_char s"

definition py_lstrip :: "string \<Rightarrow> string" where
  "py_lstrip s = dropWhile py_isspace s"

definition py_strip :: "string \<Rightarrow> string" where
  "py_strip s = rev (dropWhile py_isspace (rev (dropWhile py_isspace s)))"

text \<open>The truth value of a string or a list: not empty.\<close>

definition truthy :: "'a list \<Rightarrow> bool" where
  "truthy xs = (xs \<noteq> [])"

fun startswith :: "string \<Rightarrow> string \<Rightarrow> bool" where
  "startswith s [] = True"
| "startswith [] (p # ps) = False"
| "startswith (c # cs) (p # ps) = (c = p \<and> startswith cs ps)"

definition endswith :: "string \<Rightarrow> string \<Rightarrow> bool" where
  "endswith s p = startswith (rev s) (rev p)"

text \<open>\<open>sub in s\<close> on strings.\<close>

fun py_in :: "string \<Rightarrow> string \<Rightarrow> bool" where
  "py_in sub [] = (sub = [])"
| "py_in sub (c # cs) = (startswith (c # cs) sub \<or> py_in sub cs)"

text \<open>\<open>s.split(sep)\<close> for a one-character separator: n separators give n + 1 pieces.\<close>

fun py_split :: "char \<Rightarrow> string \<Rightarrow> string list" where
  "py_split sep [] = [[]]"
| "py_split sep (c # cs) =
     (if c = sep then [] # py_split sep cs
      else (case py_split sep cs of
              [] \<Rightarrow> [[c]]
            | p # ps \<Rightarrow> (c # p) # ps))"

text \<open>\<open>s.replace(old, new)\<close> for a non-empty \<open>old\<close>: left to right, without overlap.\<close>

fun skip_replace :: "string \<Rightarrow> string \<Rightarrow> nat \<Rightarrow> string \<Rightarrow> string" where
  "skip_replace old new k [] = []"
| "skip_replace old new k (c # cs) =
     (if 0 < k then skip_replace old new (k - 1) cs
      else if startswith (c # cs) old then new @ skip_replace old new (length old - 1) cs
      else c # skip_replace old new 0 cs)"

definition py_replace :: "string \<Rightarrow> string \<Rightarrow> string \<Rightarrow> string" where
  "py_replace old new s = skip_replace old new 0 s"

fun py_join :: "string \<Rightarrow> string list \<Rightarrow> string" where
  "py_join sep [] = []"
| "py_join sep [x] = x"
| "py_join sep (x # y # ys) = x @ sep @ py_join sep (y # ys)"

text \<open>\<open>s.count('\n')\<close>.\<close>

definition count_nl :: "string \<Rightarrow> nat" where
  "count_nl s = length (filter (\<lambda>c. c = CHR 0x0A) s)"

definition digit_char :: "nat \<Rightarrow> char" where
  "digit_char d = char_of (48 + d)"

text \<open>\<open>str(n)\<close> for a non-negative integer.\<close>

function str_nat :: "nat \<Rightarrow> string" where
  "str_nat n = (if n < 10 then [digit_char n] else str_nat (n div 10) @ [digit_char (n mod 10)])"
  by pat_completeness auto
termination
  by (relation "measure id") auto

declare str_nat.simps [simp del]

text \<open>\<open>repr\<close> of a list of plain strings, as an f-string prints it.\<close>

definition str_list :: "string list \<Rightarrow> string" where
  "str_list xs = ''['' @ py_join '', '' (map (\<lambda>x. [CHR 0x27] @ x @ [CHR 0x27]) xs) @ '']''"

text \<open>\<open>s.title()\<close>: the first letter of every run of letters in upper case, the rest in lower case.\<close>

definition upper_char :: "char \<Rightarrow> char" where
  "upper_char c = (let n = ord c in
     if (97 \<le> n \<and> n \<le> 122) \<or> (224 \<le> n \<and> n \<le> 254 \<and> n \<noteq> 247) then char_of (n - 32) else c)"

fun title_from :: "bool \<Rightarrow> string \<Rightarrow> string" where
  "title_from prev_cased [] = []"
| "title_from prev_cased (c # cs) =
     (if py_isalpha_char c
      then (if prev_cased then lower_char c else upper_char c) # title_from True cs
      else c # title_from False cs)"

definition py_title :: "string \<Rightarrow> string" where
  "py_title s = title_from False s"

section \<open>Regular expressions\<close>

text \<open>
  The patterns of the pattern tables are values of \<open>regex\<close>; every quantifier of the
  source's patterns stands on a single character class. \<open>ends\<close> lists the states a match
  can end in, in the order a backtracking matcher tries them (greedy quantifiers, left
  alternative first), so its head is the match that \<open>re\<close> reports.
\<close>

datatype cclass =
    Ch char
  | OneOf string
  | NoneOf string
  | Range char char
  | Space
  | Word
  | Digit
  | Any
  | Either cclass cclass

datatype regex =
    Lit string
  | Atom cclass
  | Star cclass
  | Plus cclass
  | Opt cclass
  | Seq regex regex
  | Alt regex regex
  | Grp nat regex
  | Bol
  | WordB

text \<open>Membership of a character in a class; \<open>.\<close> excludes the newline.\<close>

fun in_class :: "cclass \<Rightarrow> char \<Rightarrow> bool" where
  "in_class (Ch d) c = (c = d)"
| "in_class (OneOf ds) c = (c \<in> set ds)"
| "in_class (NoneOf ds) c = (c \<notin> set ds)"
| "in_class (Range lo hi) c = (ord lo \<le> ord c \<and> ord c \<le> ord hi)"
| "in_class Space c = py_isspace c"
| "in_class Word c = is_word_char c"
| "in_class Digit c = py_isdigit_char c"
| "in_class Any c = (c \<noteq> CHR 0x0A)"
| "in_class (Either a b) c = (in_class a c \<or> in_class b c)"

text \<open>
  With \<open>re.IGNORECASE\<close> a character is in a set when one of its cases is, and in a negated
  set when none is.
\<close>

definition cmatch :: "bool \<Rightarrow> cclass \<Rightarrow> char \<Rightarrow> bool" where
  "cmatch ic cl c =
     (if ic then
        (case cl of
           NoneOf ds \<Rightarrow> c \<notin> set ds \<and> lower_char c \<notin> set ds \<and> upper_char c \<notin> set ds
         | _ \<Rightarrow> in_class cl c \<or> in_class cl (lower_char c) \<or> in_class cl (upper_char c))
      else in_class cl c)"

fun lit_prefix :: "bool \<Rightarrow> string \<Rightarrow> string \<Rightarrow> bool" where
  "lit_prefix ic [] s = True"
| "lit_prefix ic (p # ps) [] = False"
| "lit_prefix ic (p # ps) (c # cs) =
     ((if ic then lower_char c = lower_char p else c = p) \<and> lit_prefix ic ps cs)"

text \<open>
  A matcher state: the character before the position (\<open>None\<close> at the start of the
  string), the rest of the string, and the groups captured so far (latest first).
\<close>

type_synonym mstate = "char option \<times> string \<times> (nat \<times> string) list"

definition consume :: "nat \<Rightarrow> mstate \<Rightarrow> mstate" where
  "consume k st = (case st of (prev, s, caps) \<Rightarrow>
     (if k = 0 then prev else Some (s ! (k - 1)), drop k s, caps))"

definition run_length :: "bool \<Rightarrow> cclass \<Rightarrow> string \<Rightarrow> nat" where
  "run_length ic cl s = length (takeWhile (cmatch ic cl) s)"

definition word_before :: "char option \<Rightarrow> bool" where
  "word_before prev = (case prev of None \<Rightarrow> False | Some c \<Rightarrow> is_word_char c)"

definition word_after :: "string \<Rightarrow> bool" where
  "word_after s = (case s of [] \<Rightarrow> False | c # _ \<Rightarrow> is_word_char c)"

primrec ends :: "bool \<Rightarrow> regex \<Rightarrow> mstate \<Rightarrow> mstate list" where
  "ends ic (Lit ps) st =
     (if lit_prefix ic ps (fst (snd st)) then [consume (length ps) st] else [])"
| "ends ic (Atom cl) st =
     (case fst (snd st) of
        [] \<Rightarrow> []
      | c # cs \<Rightarrow> if cmatch ic cl c then [consume 1 st] else [])"
| "ends ic (Star cl) st =
     map (\<lambda>k. consume k st) (rev [0 ..< Suc (run_length ic cl (fst (snd st)))])"
| "ends ic (Plus cl) st =
     map (\<lambda>k. consume k st) (rev [1 ..< Suc (run_length ic cl (fst (snd st)))])"
| "ends ic (Opt cl) st =
     (case fst (snd st) of
        [] \<Rightarrow> [st]
      | c # cs \<Rightarrow> if cmatch ic cl c then [consume 1 st, st] else [st])"
| "ends ic (Seq a b) st = concat (map (ends ic b) (ends ic a st))"
| "ends ic (Alt a b) st = ends ic a st @ ends ic b st"
| "ends ic (Grp n r) st =
     map (\<lambda>e. (fst e, fst (snd e),
                (n, take (length (fst (snd st)) - length (fst (snd e))) (fst (snd st))) # snd (snd e)))
         (ends ic r st)"
| "ends ic Bol st = (if fst st = None then [st] else [])"
| "ends ic WordB st =
     (if word_before (fst st) \<noteq> word_after (fst (snd st)) then [st] else [])"

text \<open>A sequence of patterns, written as a list.\<close>

fun seqs :: "regex list \<Rightarrow> regex" where
  "seqs [] = Lit []"
| "seqs [r] = r"
| "seqs (r # rs) = Seq r (seqs rs)"

fun alts :: "regex list \<Rightarrow> regex" where
  "alts [] = Lit []"
| "alts [r] = r"
| "alts (r # rs) = Alt r (alts rs)"

text \<open>A match object: \<open>start()\<close>, \<open>group()\<close> and the numbered groups.\<close>

record re_match =
  m_start :: nat
  m_text :: string
  m_groups :: "(nat \<times> string) list"

definition match_at :: "bool \<Rightarrow> regex \<Rightarrow> nat \<Rightarrow> char option \<Rightarrow> string \<Rightarrow> re_match option" where
  "match_at ic r pos prev s =
     (case ends ic r (prev, s, []) of
        [] \<Rightarrow> None
      | e # _ \<Rightarrow> Some \<lparr>m_start = pos,
                       m_text = take (length s - length (fst (snd e))) s,
                       m_groups = snd (snd e)\<rparr>)"

text \<open>\<open>match.group(n)\<close>: \<open>None\<close> for a group that took no part in the match.\<close>

definition group :: "re_match \<Rightarrow> nat \<Rightarrow> string option" where
  "group m n = map_of (m_groups m) n"

text \<open>\<open>re.match\<close>: a match at the start of the string only.\<close>

definition re_match_start :: "bool \<Rightarrow> regex \<Rightarrow> string \<Rightarrow> re_match option" where
  "re_match_start ic r s = match_at ic r 0 None s"

text \<open>\<open>re.search\<close>: the match at the leftmost position that has one.\<close>

fun search_from :: "bool \<Rightarrow> regex \<Rightarrow> nat \<Rightarrow> char option \<Rightarrow> string \<Rightarrow> re_match option" where
  "search_from ic r pos prev [] = match_at ic r pos prev []"
| "search_from ic r pos prev (c # cs) =
     (case match_at ic r pos prev (c # cs) of
        Some m \<Rightarrow> Some m
      | None \<Rightarrow> search_from ic r (Suc pos) (Some c) cs)"

definition re_search :: "bool \<Rightarrow> regex \<Rightarrow> string \<Rightarrow> re_match option" where
  "re_search ic r s = search_from ic r 0 None s"

definition re_found :: "bool \<Rightarrow> regex \<Rightarrow> string \<Rightarrow> bool" where
  "re_found ic r s = (re_search ic r s \<noteq> None)"

text \<open>
  \<open>re.finditer\<close>: the successive matches without overlap. \<open>skip\<close> counts the characters
  still covered by the last match. None of the patterns iterated over matches the empty string.
\<close>

fun scan :: "bool \<Rightarrow> regex \<Rightarrow> nat \<Rightarrow> nat \<Rightarrow> char option \<Rightarrow> string \<Rightarrow> re_match list" where
  "scan ic r pos skip prev [] =
     (if 0 < skip then []
      else (case match_at ic r pos prev [] of None \<Rightarrow> [] | Some m \<Rightarrow> [m]))"
| "scan ic r pos skip prev (c # cs) =
     (if 0 < skip then scan ic r (Suc pos) (skip - 1) (Some c) cs
      else (case match_at ic r pos prev (c # cs) of
              None \<Rightarrow> scan ic r (Suc pos) 0 (Some c) cs
            | Some m \<Rightarrow> m # scan ic r (Suc pos) (length (m_text m) - 1) (Some c) cs))"

definition re_finditer :: "bool \<Rightarrow> regex \<Rightarrow> string \<Rightarrow> re_match list" where
  "re_finditer ic r s = scan ic r 0 0 None s"

section \<open>Paths, dictionaries, enumeration\<close>

text \<open>
  The components of \<open>Path(p).parts\<close> on a POSIX path, without the root: empty and \<open>.\<close>
  components are dropped. The source only asks whether a directory name is among them.
\<close>

definition path_parts :: "string \<Rightarrow> string list" where
  "path_parts p = filter (\<lambda>c. c \<noteq> [] \<and> c \<noteq> ''.'') (py_split (CHR ''/'') p)"

text \<open>\<open>os.path.basename\<close>: what follows the last slash.\<close>

definition basename :: "string \<Rightarrow> string" where
  "basename p = last (py_split (CHR ''/'') p)"

text \<open>\<open>Path(p).name\<close>, \<open>Path(p).parent.name\<close> and \<open>str(Path(p).parent)\<close>.\<close>

definition path_root :: "string \<Rightarrow> string" where
  "path_root p = (let n = length (takeWhile (\<lambda>c. c = CHR ''/'') p) in
     if n = 0 then [] else if n = 2 then ''//'' else ''/'')"

definition path_name :: "string \<Rightarrow> string" where
  "path_name p = (case path_parts p of [] \<Rightarrow> [] | _ # _ \<Rightarrow> last (path_parts p))"

definition path_parent_name :: "string \<Rightarrow> string" where
  "path_parent_name p = (case butlast (path_parts p) of [] \<Rightarrow> [] | _ # _ \<Rightarrow> last (butlast (path_parts p)))"

definition path_parent_str :: "string \<Rightarrow> string" where
  "path_parent_str p =
     (if path_root p = [] then
        (case butlast (path_parts p) of [] \<Rightarrow> ''.'' | _ # _ \<Rightarrow> py_join ''/'' (butlast (path_parts p)))
      else path_root p @ py_join ''/'' (butlast (path_parts p)))"

text \<open>
  A \<open>dict\<close> is its list of items in insertion order. \<open>dict_set\<close> is \<open>d[k] = v\<close>: an existing
  key keeps its place.
\<close>

fun dict_set :: "'k \<Rightarrow> 'v \<Rightarrow> ('k \<times> 'v) list \<Rightarrow> ('k \<times> 'v) list" where
  "dict_set k v [] = [(k, v)]"
| "dict_set k v ((k', v') # rest) =
     (if k' = k then (k, v) # rest else (k', v') # dict_set k v rest)"

text \<open>
  The loop shared by the validators that answer with a dictionary: the findings of each file,
  for the files that have some.
\<close>

definition results_by_file ::
  "(string \<Rightarrow> string \<Rightarrow> 'f list) \<Rightarrow> (string \<times> string) list \<Rightarrow> (string \<times> 'f list) list" where
  "results_by_file validate_file changed_files =
     foldl (\<lambda>results (file_path, content).
              let findings = validate_file file_path content
              in if truthy findings then dict_set file_path findings results else results)
           [] changed_files"

text \<open>\<open>s.add(x)\<close> on a set kept as a list without repetition.\<close>

definition set_add :: "'a \<Rightarrow> 'a list \<Rightarrow> 'a list" where
  "set_add x xs = (if x \<in> set xs then xs else xs @ [x])"

text \<open>\<open>enumerate(xs, 1)\<close>.\<close>

primrec enum_from :: "int \<Rightarrow> 'a list \<Rightarrow> (int \<times> 'a) list" where
  "enum_from n [] = []"
| "enum_from n (x # xs) = (n, x) # enum_from (n + 1) xs"

definition lines_of :: "string \<Rightarrow> (int \<times> string) list" where
  "lines_of content = enum_from 1 (py_split (CHR 0x0A) content)"

section \<open>Errors\<close>

datatype py_error = KeyError string | AttributeError string | TypeError string

section \<open>Syntax trees\<close>

text \<open>
  \<open>ast.parse\<close> belongs to the Python library; the checks take it as the parameter
  \<open>parse\<close>, with \<open>None\<close> for a \<open>SyntaxError\<close>. A tree keeps what the checks read: function
  definitions, class definitions and imports; every other node is \<open>OtherNode\<close> with its
  children. Annotations are kept as the text \<open>ast.unparse\<close> gives.
\<close>

record py_arg =
  arg_name :: string
  arg_annotation :: "string option"

record py_fundef =
  fd_name :: string
  fd_lineno :: int
  fd_end_lineno :: "int option"
  fd_args :: "py_arg list"
  fd_defaults :: "string list"
  fd_returns :: "string option"

datatype py_kind =
    FunctionDef py_fundef
  | AsyncFunctionDef py_fundef
  | ClassDef string
  | Import "string list" int
  | ImportFrom "string option" int
  | OtherNode

datatype py_node = Node py_kind "py_node list"

type_synonym parser = "string \<Rightarrow> py_node option"

text \<open>\<open>ast.walk\<close>: breadth first, from a queue.\<close>

function walk_queue :: "py_node list \<Rightarrow> py_node list" where
  "walk_queue [] = []"
| "walk_queue (Node k cs # q) = Node k cs # walk_queue (q @ cs)"
  by pat_completeness auto
termination
  by (relation "measure (\<lambda>q. sum_list (map size q))") (auto simp: size_list_conv_sum_list)

definition ast_walk :: "py_node \<Rightarrow> py_node list" where
  "ast_walk tree = walk_queue [tree]"

definition node_kind :: "py_node \<Rightarrow> py_kind" where
  "node_kind n = (case n of Node k cs \<Rightarrow> k)"

text \<open>\<open>isinstance(node, (ast.FunctionDef, ast.AsyncFunctionDef))\<close>.\<close>

definition fundef_of :: "py_node \<Rightarrow> py_fundef option" where
  "fundef_of n = (case node_kind n of
     FunctionDef fd \<Rightarrow> Some fd
   | AsyncFunctionDef fd \<Rightarrow> Some fd
   | _ \<Rightarrow> None)"

section \<open>Breaking changes checks\<close>

record BreakingChangeFinding =
  bf_check_name :: string
  bf_severity :: string
  bf_file_path :: string
  bf_line_number :: int
  bf_change_type :: string
  bf_element_name :: string
  bf_message :: string
  bf_requires_changelog :: bool
  bf_suggested_changelog_entry :: string

subsection \<open>APISignatureChangeCheck\<close>

record signature_info =
  sig_signature :: string
  sig_line :: int
  sig_params :: "string list"
  sig_return_type :: string

definition param_str :: "py_arg \<Rightarrow> string" where
  "param_str a = arg_name a @ (case arg_annotation a of None \<Rightarrow> [] | Some t \<Rightarrow> '': '' @ t)"

definition signature_of :: "py_fundef \<Rightarrow> signature_info" where
  "signature_of fd =
     (let params = map param_str (fd_args fd);
          return_type = (case fd_returns fd of None \<Rightarrow> [] | Some t \<Rightarrow> '' -> '' @ t)
      in \<lparr>sig_signature = ''('' @ py_join '', '' params @ '')'' @ return_type,
          sig_line = fd_lineno fd,
          sig_params = params,
          sig_return_type = return_type\<rparr>)"

definition extract_signatures :: "parser \<Rightarrow> string \<Rightarrow> (string \<times> signature_info) list" where
  "extract_signatures parse content =
     (case parse content of
        None \<Rightarrow> []
      | Some tree \<Rightarrow>
          foldl (\<lambda>signatures node.
                   case fundef_of node of
                     None \<Rightarrow> signatures
                   | Some fd \<Rightarrow>
                       if startswith (fd_name fd) ''_'' then signatures
                       else dict_set (fd_name fd) (signature_of fd) signatures)
                [] (ast_walk tree))"

definition modified_finding :: "string \<Rightarrow> string \<Rightarrow> signature_info \<Rightarrow> signature_info \<Rightarrow> BreakingChangeFinding" where
  "modified_finding file_path func_name old_sig new_sig =
     \<lparr>bf_check_name = ''api_signature_changes'',
      bf_severity = ''high'',
      bf_file_path = file_path,
      bf_line_number = sig_line new_sig,
      bf_change_type = ''modified'',
      bf_element_name = func_name,
      bf_message = ''API signature changed for '' @ [CHR 0x27] @ func_name @ [CHR 0x27],
      bf_requires_changelog = True,
      bf_suggested_changelog_entry =
        ''- **CHANGED**: `'' @ func_name @ ''` signature modified. Old: '' @ sig_signature old_sig
          @ '', New: '' @ sig_signature new_sig\<rparr>"

definition deleted_finding :: "string \<Rightarrow> string \<Rightarrow> BreakingChangeFinding" where
  "deleted_finding file_path func_name =
     \<lparr>bf_check_name = ''api_signature_changes'',
      bf_severity = ''critical'',
      bf_file_path = file_path,
      bf_line_number = 1,
      bf_change_type = ''deleted'',
      bf_element_name = func_name,
      bf_message = ''Public API function '' @ [CHR 0x27] @ func_name @ [CHR 0x27] @ '' was removed'',
      bf_requires_changelog = True,
      bf_suggested_changelog_entry = ''- **REMOVED**: `'' @ func_name @ ''` (BREAKING CHANGE)''\<rparr>"

text \<open>
  The removed functions are a Python set, iterated in no specified order; the model lists them
  in the order of the old file's dictionary.
\<close>

definition APISignatureChangeCheck_check ::
  "parser \<Rightarrow> string \<Rightarrow> string option \<Rightarrow> string \<Rightarrow> BreakingChangeFinding list" where
  "APISignatureChangeCheck_check parse file_path old_content new_content =
     (if \<not> (''api'' \<in> set (path_parts file_path) \<or> ''controllers'' \<in> set (path_parts file_path))
      then []
      else (case old_content of
              None \<Rightarrow> []
            | Some old \<Rightarrow>
                (let old_signatures = extract_signatures parse old;
                     new_signatures = extract_signatures parse new_content
                 in concat (map (\<lambda>(func_name, old_sig).
                                   case map_of new_signatures func_name of
                                     None \<Rightarrow> []
                                   | Some new_sig \<Rightarrow>
                                       if old_sig \<noteq> new_sig
                                       then [modified_finding file_path func_name old_sig new_sig]
                                       else [])
                                old_signatures)
                    @ map (deleted_finding file_path)
                        (filter (\<lambda>n. map_of new_signatures n = None) (map fst old_signatures)))))"

subsection \<open>RemovedPublicMethodsCheck\<close>

text \<open>The name of a class definition is a non-empty identifier, so \<open>node.name[0]\<close> exists.\<close>

definition is_public_class :: "string \<Rightarrow> bool" where
  "is_public_class name =
     (case name of [] \<Rightarrow> False | c # _ \<Rightarrow> py_isupper_char c \<and> \<not> startswith name ''_'')"

definition extract_public_elements :: "parser \<Rightarrow> string \<Rightarrow> string list \<times> string list" where
  "extract_public_elements parse content =
     (case parse content of
        None \<Rightarrow> ([], [])
      | Some tree \<Rightarrow>
          foldl (\<lambda>(classes, functions) node.
                   case node_kind node of
                     ClassDef name \<Rightarrow>
                       if is_public_class name then (set_add name classes, functions)
                       else (classes, functions)
                   | FunctionDef fd \<Rightarrow>
                       if \<not> startswith (fd_name fd) ''_'' then (classes, set_add (fd_name fd) functions)
                       else (classes, functions)
                   | AsyncFunctionDef fd \<Rightarrow>
                       if \<not> startswith (fd_name fd) ''_'' then (classes, set_add (fd_name fd) functions)
                       else (classes, functions)
                   | _ \<Rightarrow> (classes, functions))
                ([], []) (ast_walk tree))"

definition deleted_file_finding :: "string \<Rightarrow> nat \<Rightarrow> nat \<Rightarrow> BreakingChangeFinding" where
  "deleted_file_finding file_path n_classes n_functions =
     \<lparr>bf_check_name = ''removed_public_methods'',
      bf_severity = ''critical'',
      bf_file_path = file_path,
      bf_line_number = 1,
      bf_change_type = ''deleted_file'',
      bf_element_name = file_path,
      bf_message = ''File with '' @ str_nat n_classes @ '' public classes and ''
                   @ str_nat n_functions @ '' public functions was deleted'',
      bf_requires_changelog = True,
      bf_suggested_changelog_entry =
        ''- **BREAKING CHANGE**: Removed '' @ file_path @ '' with public APIs''\<rparr>"

definition removed_element_finding :: "string \<Rightarrow> string \<Rightarrow> string \<Rightarrow> string \<Rightarrow> BreakingChangeFinding" where
  "removed_element_finding file_path change_type kind name =
     \<lparr>bf_check_name = ''removed_public_methods'',
      bf_severity = ''critical'',
      bf_file_path = file_path,
      bf_line_number = 1,
      bf_change_type = change_type,
      bf_element_name = name,
      bf_message = ''Public '' @ kind @ '' '' @ [CHR 0x27] @ name @ [CHR 0x27] @ '' was removed'',
      bf_requires_changelog = True,
      bf_suggested_changelog_entry =
        ''- **BREAKING CHANGE**: Removed '' @ kind @ '' `'' @ name @ ''`''\<rparr>"

text \<open>
  \<open>old_content and new_content is None\<close> holds for a non-empty old content and no new
  content. The removed names are Python sets; the model lists them in the order of the old file.
\<close>

definition RemovedPublicMethodsCheck_check ::
  "parser \<Rightarrow> string \<Rightarrow> string option \<Rightarrow> string option \<Rightarrow> BreakingChangeFinding list" where
  "RemovedPublicMethodsCheck_check parse file_path old_content new_content =
     (case old_content of
        None \<Rightarrow> []
      | Some old \<Rightarrow>
          if truthy old \<and> new_content = None then
            (let public_elements = extract_public_elements parse old
             in if truthy (fst public_elements) \<or> truthy (snd public_elements)
                then [deleted_file_finding file_path (length (fst public_elements))
                        (length (snd public_elements))]
                else [])
          else (case new_content of
                  None \<Rightarrow> []
                | Some new \<Rightarrow>
                    (let old_elements = extract_public_elements parse old;
                         new_elements = extract_public_elements parse new
                     in map (removed_element_finding file_path ''deleted_class'' ''class'')
                          (filter (\<lambda>c. c \<notin> set (fst new_elements)) (fst old_elements))
                        @ map (removed_element_finding file_path ''deleted_function'' ''function'')
                            (filter (\<lambda>f. f \<notin> set (snd new_elements)) (snd old_elements)))))"

subsection \<open>ChangelogRequirementCheck\<close>

text \<open>The pattern \<^verbatim>\<open>## \[(Unreleased|\d+\.\d+\.\d+)\]\<close>.\<close>

definition version_pattern :: regex where
  "version_pattern =
     seqs [Lit ''## ['',
           Alt (Lit ''Unreleased'')
               (seqs [Plus Digit, Lit ''.'', Plus Digit, Lit ''.'', Plus Digit]),
           Lit '']'']"

definition has_proper_changelog_format :: "string \<Rightarrow> bool" where
  "has_proper_changelog_format content = re_found False version_pattern content"

definition generate_changelog_template :: "BreakingChangeFinding list \<Rightarrow> string" where
  "generate_changelog_template breaking_changes =
     py_join [CHR 0x0A]
       ([''## [Unreleased]'', [], ''### BREAKING CHANGES'', []]
        @ map bf_suggested_changelog_entry
            (filter (\<lambda>c. truthy (bf_suggested_changelog_entry c)) breaking_changes))"

definition missing_changelog_finding :: "BreakingChangeFinding list \<Rightarrow> BreakingChangeFinding" where
  "missing_changelog_finding breaking_changes =
     \<lparr>bf_check_name = ''changelog_required'',
      bf_severity = ''critical'',
      bf_file_path = ''CHANGELOG.md'',
      bf_line_number = 1,
      bf_change_type = ''missing_changelog'',
      bf_element_name = ''CHANGELOG.md'',
      bf_message = ''Breaking changes detected ('' @ str_nat (length breaking_changes)
                   @ '' issues) but CHANGELOG.md not updated'',
      bf_requires_changelog = True,
      bf_suggested_changelog_entry = generate_changelog_template breaking_changes\<rparr>"

definition changelog_format_finding :: BreakingChangeFinding where
  "changelog_format_finding =
     \<lparr>bf_check_name = ''changelog_format'',
      bf_severity = ''medium'',
      bf_file_path = ''CHANGELOG.md'',
      bf_line_number = 1,
      bf_change_type = ''invalid_format'',
      bf_element_name = ''CHANGELOG.md'',
      bf_message = ''CHANGELOG.md does not follow proper format (should have ## [Unreleased] or ## [version] sections)'',
      bf_requires_changelog = True,
      bf_suggested_changelog_entry =
        ''Add section: ## [Unreleased] or ## [X.Y.Z] with ### BREAKING CHANGES subsection''\<rparr>"

definition ChangelogRequirementCheck_check ::
  "(string \<times> string) list \<Rightarrow> BreakingChangeFinding list \<Rightarrow> BreakingChangeFinding list" where
  "ChangelogRequirementCheck_check changed_files breaking_changes =
     (if \<not> truthy breaking_changes then []
      else (case filter (\<lambda>(path, content). basename path = ''CHANGELOG.md'') changed_files of
              [] \<Rightarrow> [missing_changelog_finding breaking_changes]
            | (path, changelog_content) # _ \<Rightarrow>
                if truthy changelog_content \<and> \<not> has_proper_changelog_format changelog_content
                then [changelog_format_finding]
                else []))"

subsection \<open>DatabaseSchemaChangeCheck\<close>

text \<open>
  The table \<open>SCHEMA_CHANGE_PATTERNS\<close>:
  \<^verbatim>\<open>Column\([^)]*nullable=False\<close>, \<^verbatim>\<open>drop_column|remove_column\<close>,
  \<^verbatim>\<open>alter_column.*type\<close>, \<^verbatim>\<open>drop_table|remove_table\<close>.
\<close>

definition SCHEMA_CHANGE_PATTERNS :: "(regex \<times> string \<times> string) list" where
  "SCHEMA_CHANGE_PATTERNS =
     [(seqs [Lit ''Column('', Star (NoneOf '')''), Lit ''nullable=False''],
       ''non_nullable_column'', ''Adding non-nullable column requires default value or migration''),
      (Alt (Lit ''drop_column'') (Lit ''remove_column''),
       ''removed_column'', ''Removing column is a breaking change''),
      (seqs [Lit ''alter_column'', Star Any, Lit ''type''],
       ''changed_column_type'', ''Changing column type may break existing code''),
      (Alt (Lit ''drop_table'') (Lit ''remove_table''),
       ''removed_table'', ''Removing table is a breaking change'')]"

definition schema_finding :: "string \<Rightarrow> int \<Rightarrow> string \<Rightarrow> string \<Rightarrow> BreakingChangeFinding" where
  "schema_finding file_path line_num change_type message =
     \<lparr>bf_check_name = ''database_schema_changes'',
      bf_severity = ''high'',
      bf_file_path = file_path,
      bf_line_number = line_num,
      bf_change_type = change_type,
      bf_element_name = change_type,
      bf_message = message,
      bf_requires_changelog = True,
      bf_suggested_changelog_entry = ''- **BREAKING CHANGE**: '' @ message\<rparr>"

definition DatabaseSchemaChangeCheck_check :: "string \<Rightarrow> string \<Rightarrow> BreakingChangeFinding list" where
  "DatabaseSchemaChangeCheck_check file_path content =
     (if \<not> (''migrations'' \<in> set (path_parts file_path) \<or> ''models'' \<in> set (path_parts file_path))
      then []
      else concat (map (\<lambda>(line_num, line).
                          concat (map (\<lambda>(pattern, change_type, message).
                                         if re_found True pattern line
                                         then [schema_finding file_path line_num change_type message]
                                         else [])
                                      SCHEMA_CHANGE_PATTERNS))
                       (lines_of content)))"

subsection \<open>BreakingChangesValidator\<close>

text \<open>
  \<open>old_files\<close> maps a path to the prior content or to \<open>None\<close>; \<open>old_files.get(path)\<close> is
  \<open>None\<close> for a path without entry too.
\<close>

definition dict_get :: "('k \<rightharpoonup> 'v option) \<Rightarrow> 'k \<Rightarrow> 'v option" where
  "dict_get d k = (case d k of None \<Rightarrow> None | Some v \<Rightarrow> v)"

definition per_file_breaking ::
  "parser \<Rightarrow> (string \<rightharpoonup> string option) \<Rightarrow> string \<times> string \<Rightarrow> BreakingChangeFinding list" where
  "per_file_breaking parse old_files item =
     (case item of (file_path, new_content) \<Rightarrow>
        (let old_content = dict_get old_files file_path
         in APISignatureChangeCheck_check parse file_path old_content new_content
            @ RemovedPublicMethodsCheck_check parse file_path old_content (Some new_content)
            @ DatabaseSchemaChangeCheck_check file_path new_content))"

definition BreakingChangesValidator_validate_pr ::
  "parser \<Rightarrow> (string \<times> string) list \<Rightarrow> (string \<rightharpoonup> string option) \<Rightarrow> BreakingChangeFinding list" where
  "BreakingChangesValidator_validate_pr parse changed_files old_files =
     (let all_findings = concat (map (per_file_breaking parse old_files) changed_files)
      in all_findings @ ChangelogRequirementCheck_check changed_files all_findings)"

section \<open>Security checks\<close>

datatype Severity = CRITICAL | HIGH | MEDIUM | LOW

text \<open>\<open>severity.value\<close>.\<close>

fun severity_value :: "Severity \<Rightarrow> string" where
  "severity_value CRITICAL = ''critical''"
| "severity_value HIGH = ''high''"
| "severity_value MEDIUM = ''medium''"
| "severity_value LOW = ''low''"

record SecurityFinding =
  sf_check_name :: string
  sf_severity :: Severity
  sf_file_path :: string
  sf_line_number :: int
  sf_line_content :: string
  sf_message :: string
  sf_pattern_matched :: string
  sf_suggested_fix :: string

text \<open>
  A pattern table lists each pattern as the text of the source and as the \<open>regex\<close> it
  denotes. The text needs the backslash and the two quotes spelt out.
\<close>

definition bs :: string where
  "bs = [CHR 0x5C]"

definition sq :: string where
  "sq = [CHR 0x27]"

definition dq :: string where
  "dq = [CHR 0x22]"

definition quote :: cclass where
  "quote = OneOf [CHR 0x22, CHR 0x27]"

definition noquote :: cclass where
  "noquote = NoneOf [CHR 0x22, CHR 0x27]"

text \<open>The common tail \<^verbatim>\<open>\s*[=:]\s*["\'][^"\']+["\']\<close> of the key-value patterns.\<close>

definition assign_tail :: regex where
  "assign_tail = seqs [Star Space, Atom (OneOf ''=:''), Star Space, Atom quote, Plus noquote, Atom quote]"

subsection \<open>HardcodedCredentialsCheck\<close>

definition CREDENTIAL_PATTERNS :: "(string \<times> regex \<times> string) list" where
  "CREDENTIAL_PATTERNS =
     [(''api[_-]?key'' @ bs @ ''s*[=:]'' @ bs @ ''s*['' @ dq @ bs @ sq @ ''][^'' @ dq @ bs @ sq @ '']+['' @ dq @ bs @ sq @ '']'',
       Seq (seqs [Lit ''api'', Opt (OneOf ''_-''), Lit ''key'']) assign_tail,
       ''API key''),
      (''apikey'' @ bs @ ''s*[=:]'' @ bs @ ''s*['' @ dq @ bs @ sq @ ''][^'' @ dq @ bs @ sq @ '']+['' @ dq @ bs @ sq @ '']'',
       Seq (Lit ''apikey'') assign_tail,
       ''API key''),
      (''aws[_-]?access[_-]?key[_-]?id'' @ bs @ ''s*[=:]'' @ bs @ ''s*['' @ dq @ bs @ sq @ ''][^'' @ dq @ bs @ sq @ '']+['' @ dq @ bs @ sq @ '']'',
       Seq (seqs [Lit ''aws'', Opt (OneOf ''_-''), Lit ''access'', Opt (OneOf ''_-''), Lit ''key'', Opt (OneOf ''_-''), Lit ''id'']) assign_tail,
       ''AWS access key''),
      (''aws[_-]?secret[_-]?access[_-]?key'' @ bs @ ''s*[=:]'' @ bs @ ''s*['' @ dq @ bs @ sq @ ''][^'' @ dq @ bs @ sq @ '']+['' @ dq @ bs @ sq @ '']'',
       Seq (seqs [Lit ''aws'', Opt (OneOf ''_-''), Lit ''secret'', Opt (OneOf ''_-''), Lit ''access'', Opt (OneOf ''_-''), Lit ''key'']) assign_tail,
       ''AWS secret key''),
      (''password'' @ bs @ ''s*[=:]'' @ bs @ ''s*['' @ dq @ bs @ sq @ ''][^'' @ dq @ bs @ sq @ '']+['' @ dq @ bs @ sq @ '']'',
       Seq (Lit ''password'') assign_tail,
       ''Password''),
      (''passwd'' @ bs @ ''s*[=:]'' @ bs @ ''s*['' @ dq @ bs @ sq @ ''][^'' @ dq @ bs @ sq @ '']+['' @ dq @ bs @ sq @ '']'',
       Seq (Lit ''passwd'') assign_tail,
       ''Password''),
      (''pwd'' @ bs @ ''s*[=:]'' @ bs @ ''s*['' @ dq @ bs @ sq @ ''][^'' @ dq @ bs @ sq @ '']+['' @ dq @ bs @ sq @ '']'',
       Seq (Lit ''pwd'') assign_tail,
       ''Password''),
      (''token'' @ bs @ ''s*[=:]'' @ bs @ ''s*['' @ dq @ bs @ sq @ ''][^'' @ dq @ bs @ sq @ '']+['' @ dq @ bs @ sq @ '']'',
       Seq (Lit ''token'') assign_tail,
       ''Token''),
      (''auth[_-]?token'' @ bs @ ''s*[=:]'' @ bs @ ''s*['' @ dq @ bs @ sq @ ''][^'' @ dq @ bs @ sq @ '']+['' @ dq @ bs @ sq @ '']'',
       Seq (seqs [Lit ''auth'', Opt (OneOf ''_-''), Lit ''token'']) assign_tail,
       ''Auth token''),
      (''bearer'' @ bs @ ''s*[=:]'' @ bs @ ''s*['' @ dq @ bs @ sq @ ''][^'' @ dq @ bs @ sq @ '']+['' @ dq @ bs @ sq @ '']'',
       Seq (Lit ''bearer'') assign_tail,
       ''Bearer token''),
      (''-----BEGIN (RSA|DSA|EC|OPENSSH) PRIVATE KEY-----'',
       seqs [Lit ''-----BEGIN '', alts [Lit ''RSA'', Lit ''DSA'', Lit ''EC'', Lit ''OPENSSH''], Lit '' PRIVATE KEY-----''],
       ''Private key''),
      (''db[_-]?password'' @ bs @ ''s*[=:]'' @ bs @ ''s*['' @ dq @ bs @ sq @ ''][^'' @ dq @ bs @ sq @ '']+['' @ dq @ bs @ sq @ '']'',
       Seq (seqs [Lit ''db'', Opt (OneOf ''_-''), Lit ''password'']) assign_tail,
       ''Database password''),
      (''database[_-]?url'' @ bs @ ''s*[=:]'' @ bs @ ''s*['' @ dq @ bs @ sq @ ''].*:[^@]+@.*['' @ dq @ bs @ sq @ '']'',
       seqs [Lit ''database'', Opt (OneOf ''_-''), Lit ''url'', Star Space, Atom (OneOf ''=:''), Star Space, Atom quote, Star Any, Lit '':'', Plus (NoneOf ''@''), Lit ''@'', Star Any, Atom quote],
       ''Database connection string''),
      (''client[_-]?secret'' @ bs @ ''s*[=:]'' @ bs @ ''s*['' @ dq @ bs @ sq @ ''][^'' @ dq @ bs @ sq @ '']+['' @ dq @ bs @ sq @ '']'',
       Seq (seqs [Lit ''client'', Opt (OneOf ''_-''), Lit ''secret'']) assign_tail,
       ''Client secret''),
      (''jwt[_-]?secret'' @ bs @ ''s*[=:]'' @ bs @ ''s*['' @ dq @ bs @ sq @ ''][^'' @ dq @ bs @ sq @ '']+['' @ dq @ bs @ sq @ '']'',
       Seq (seqs [Lit ''jwt'', Opt (OneOf ''_-''), Lit ''secret'']) assign_tail,
       ''JWT secret'')]"

definition EXCLUDE_PATTERNS :: "regex list" where
  "EXCLUDE_PATTERNS =
     [Seq (Lit ''test'') (Opt (OneOf ''_-'')),
      Lit ''example'',
      Lit ''sample'',
      Lit ''demo'',
      Lit ''fake'',
      Lit ''mock'',
      Lit ''placeholder'',
      Seq (Lit ''xx'') (Plus (Ch CHR ''x'')),
      seqs [Lit ''<'', Plus (NoneOf ''>''), Lit ''>'']]"

definition is_excluded :: "string \<Rightarrow> bool" where
  "is_excluded matched_text = list_ex (\<lambda>exclude_pattern. re_found True exclude_pattern matched_text) EXCLUDE_PATTERNS"

definition credential_finding :: "string \<Rightarrow> int \<Rightarrow> string \<Rightarrow> string \<Rightarrow> string \<Rightarrow> SecurityFinding" where
  "credential_finding file_path line_num line cred_type pattern =
     \<lparr>sf_check_name = ''hardcoded_credentials'',
      sf_severity = CRITICAL,
      sf_file_path = file_path,
      sf_line_number = line_num,
      sf_line_content = py_strip line,
      sf_message = ''Hardcoded '' @ cred_type @ '' detected. Use environment variables or AWS Secrets Manager.'',
      sf_pattern_matched = pattern,
      sf_suggested_fix = ''Use: value = os.getenv('' @ sq @ ''VARIABLE_NAME'' @ sq @ '')''\<rparr>"

definition is_comment_line :: "string \<Rightarrow> bool" where
  "is_comment_line line = (startswith (py_strip line) ''#'' \<or> startswith (py_strip line) ''//'')"

definition credential_line_findings :: "string \<Rightarrow> int \<Rightarrow> string \<Rightarrow> string \<times> regex \<times> string \<Rightarrow> SecurityFinding list" where
  "credential_line_findings file_path line_num line entry =
     (case entry of (pattern, rx, cred_type) \<Rightarrow>
        map (\<lambda>m. credential_finding file_path line_num line cred_type pattern)
            (filter (\<lambda>m. \<not> is_excluded (m_text m)) (re_finditer True rx line)))"

definition credential_per_line :: "string \<Rightarrow> int \<times> string \<Rightarrow> SecurityFinding list" where
  "credential_per_line file_path item =
     (case item of (line_num, line) \<Rightarrow>
        if is_comment_line line then []
        else concat (map (credential_line_findings file_path line_num line) CREDENTIAL_PATTERNS))"

definition HardcodedCredentialsCheck_check :: "string \<Rightarrow> string \<Rightarrow> SecurityFinding list" where
  "HardcodedCredentialsCheck_check file_path content =
     concat (map (credential_per_line file_path) (lines_of content))"

subsection \<open>SQLInjectionCheck\<close>

definition SQL_INJECTION_PATTERNS :: "(string \<times> regex \<times> string) list" where
  "SQL_INJECTION_PATTERNS =
     [(''execute'' @ bs @ ''s*'' @ bs @ ''('' @ bs @ ''s*['' @ dq @ bs @ sq @ ''].*'' @ bs @ ''{'' @ bs @ ''}.*['' @ dq @ bs @ sq @ ''].*'' @ bs @ ''.format'',
       seqs [Lit ''execute'', Star Space, Lit ''('', Star Space, Atom quote, Star Any, Lit ''{}'', Star Any, Atom quote, Star Any, Lit ''.format''],
       ''String formatting in SQL query''),
      (''execute'' @ bs @ ''s*'' @ bs @ ''('' @ bs @ ''s*f['' @ dq @ bs @ sq @ ''].*'' @ bs @ ''{.*'' @ bs @ ''}.*['' @ dq @ bs @ sq @ '']'',
       seqs [Lit ''execute'', Star Space, Lit ''('', Star Space, Lit ''f'', Atom quote, Star Any, Lit ''{'', Star Any, Lit ''}'', Star Any, Atom quote],
       ''F-string in SQL query''),
      (''execute'' @ bs @ ''s*'' @ bs @ ''('' @ bs @ ''s*['' @ dq @ bs @ sq @ ''].*%s.*['' @ dq @ bs @ sq @ ''].*%'' @ bs @ ''s*[^(]'',
       seqs [Lit ''execute'', Star Space, Lit ''('', Star Space, Atom quote, Star Any, Lit ''%s'', Star Any, Atom quote, Star Any, Lit ''%'', Star Space, Atom (NoneOf ''('')],
       ''Old-style string formatting in SQL''),
      (''raw'' @ bs @ ''s*'' @ bs @ ''('' @ bs @ ''s*f['' @ dq @ bs @ sq @ '']'',
       seqs [Lit ''raw'', Star Space, Lit ''('', Star Space, Lit ''f'', Atom quote],
       ''F-string in raw SQL''),
      (''cursor'' @ bs @ ''.execute'' @ bs @ ''s*'' @ bs @ ''('' @ bs @ ''s*f['' @ dq @ bs @ sq @ '']'',
       seqs [Lit ''cursor.execute'', Star Space, Lit ''('', Star Space, Lit ''f'', Atom quote],
       ''F-string in cursor.execute''),
      (''(SELECT|INSERT|UPDATE|DELETE).*'' @ bs @ ''+'' @ bs @ ''s*'' @ bs @ ''w+'',
       seqs [alts [Lit ''SELECT'', Lit ''INSERT'', Lit ''UPDATE'', Lit ''DELETE''], Star Any, Lit ''+'', Star Space, Plus Word],
       ''String concatenation in SQL'')]"

definition sql_finding :: "string \<Rightarrow> int \<Rightarrow> string \<Rightarrow> string \<Rightarrow> string \<Rightarrow> SecurityFinding" where
  "sql_finding file_path line_num line vuln_type pattern =
     \<lparr>sf_check_name = ''sql_injection'',
      sf_severity = CRITICAL,
      sf_file_path = file_path,
      sf_line_number = line_num,
      sf_line_content = py_strip line,
      sf_message = ''Potential SQL injection: '' @ vuln_type @ ''. Use parameterized queries.'',
      sf_pattern_matched = pattern,
      sf_suggested_fix = ''Use: cursor.execute('' @ sq @ ''SELECT * FROM users WHERE id = %s'' @ sq @ '', (user_id,))''\<rparr>"

definition SQLInjectionCheck_check :: "string \<Rightarrow> string \<Rightarrow> SecurityFinding list" where
  "SQLInjectionCheck_check file_path content =
     concat (map (\<lambda>(line_num, line).
                    concat (map (\<lambda>(pattern, rx, vuln_type).
                                   if re_found True rx line
                                   then [sql_finding file_path line_num line vuln_type pattern]
                                   else [])
                                SQL_INJECTION_PATTERNS))
                 (lines_of content))"

subsection \<open>SensitiveDataLoggingCheck\<close>

definition SENSITIVE_PATTERNS :: "(string \<times> regex \<times> string \<times> Severity) list" where
  "SENSITIVE_PATTERNS =
     [(''log.*password'',
       seqs [Lit ''log'', Star Any, Lit ''password''],
       ''password'', HIGH),
      (''log.*token'',
       seqs [Lit ''log'', Star Any, Lit ''token''],
       ''authentication token'', HIGH),
      (''log.*secret'',
       seqs [Lit ''log'', Star Any, Lit ''secret''],
       ''secret'', HIGH),
      (''log.*api[_-]?key'',
       seqs [Lit ''log'', Star Any, Lit ''api'', Opt (OneOf ''_-''), Lit ''key''],
       ''API key'', HIGH),
      (''log.*ssn'',
       seqs [Lit ''log'', Star Any, Lit ''ssn''],
       ''SSN'', CRITICAL),
      (''log.*social[_-]?security'',
       seqs [Lit ''log'', Star Any, Lit ''social'', Opt (OneOf ''_-''), Lit ''security''],
       ''social security number'', CRITICAL),
      (''log.*credit[_-]?card'',
       seqs [Lit ''log'', Star Any, Lit ''credit'', Opt (OneOf ''_-''), Lit ''card''],
       ''credit card'', CRITICAL),
      (''log.*cvv'',
       seqs [Lit ''log'', Star Any, Lit ''cvv''],
       ''CVV'', CRITICAL),
      (''log.*driver[_-]?license'',
       seqs [Lit ''log'', Star Any, Lit ''driver'', Opt (OneOf ''_-''), Lit ''license''],
       ''driver'' @ sq @ ''s license'', HIGH),
      (''log.*auth'',
       seqs [Lit ''log'', Star Any, Lit ''auth''],
       ''authentication data'', MEDIUM),
      (''log.*session'',
       seqs [Lit ''log'', Star Any, Lit ''session''],
       ''session data'', MEDIUM)]"

definition logging_finding :: "string \<Rightarrow> int \<Rightarrow> string \<Rightarrow> string \<Rightarrow> Severity \<Rightarrow> string \<Rightarrow> SecurityFinding" where
  "logging_finding file_path line_num line data_type severity pattern =
     \<lparr>sf_check_name = ''sensitive_data_logging'',
      sf_severity = severity,
      sf_file_path = file_path,
      sf_line_number = line_num,
      sf_line_content = py_strip line,
      sf_message = ''Potential logging of '' @ data_type @ ''. Redact sensitive fields before logging.'',
      sf_pattern_matched = pattern,
      sf_suggested_fix = ''Redact '' @ data_type @ '' or use structured logging with field exclusion''\<rparr>"

definition SensitiveDataLoggingCheck_check :: "string \<Rightarrow> string \<Rightarrow> SecurityFinding list" where
  "SensitiveDataLoggingCheck_check file_path content =
     concat (map (\<lambda>(line_num, line).
                    concat (map (\<lambda>(pattern, rx, data_type, severity).
                                   if re_found True rx line
                                   then [logging_finding file_path line_num line data_type severity pattern]
                                   else [])
                                SENSITIVE_PATTERNS))
                 (lines_of content))"

subsection \<open>UnsafeDeserializationCheck\<close>

definition UNSAFE_PATTERNS :: "(string \<times> regex \<times> string \<times> string) list" where
  "UNSAFE_PATTERNS =
     [(''pickle'' @ bs @ ''.loads?'' @ bs @ ''s*'' @ bs @ ''('',
       seqs [Lit ''pickle.load'', Opt (Ch CHR ''s''), Star Space, Lit ''(''],
       ''pickle.load'', ''Use json.loads or safe serialization''),
      (''yaml'' @ bs @ ''.load'' @ bs @ ''s*'' @ bs @ ''([^,)]*'' @ bs @ '')'',
       seqs [Lit ''yaml.load'', Star Space, Lit ''('', Star (NoneOf '',)''), Lit '')''],
       ''yaml.load without Loader'', ''Use yaml.safe_load''),
      (''eval'' @ bs @ ''s*'' @ bs @ ''('',
       seqs [Lit ''eval'', Star Space, Lit ''(''],
       ''eval()'', ''Avoid eval; use ast.literal_eval for literals''),
      (''exec'' @ bs @ ''s*'' @ bs @ ''('',
       seqs [Lit ''exec'', Star Space, Lit ''(''],
       ''exec()'', ''Redesign to avoid dynamic code execution''),
      (''__import__'' @ bs @ ''s*'' @ bs @ ''('',
       seqs [Lit ''__import__'', Star Space, Lit ''(''],
       ''__import__()'', ''Use importlib.import_module with validation'')]"

definition unsafe_finding :: "string \<Rightarrow> int \<Rightarrow> string \<Rightarrow> string \<Rightarrow> string \<Rightarrow> string \<Rightarrow> SecurityFinding" where
  "unsafe_finding file_path line_num line unsafe_func suggested_fix pattern =
     \<lparr>sf_check_name = ''unsafe_deserialization'',
      sf_severity = CRITICAL,
      sf_file_path = file_path,
      sf_line_number = line_num,
      sf_line_content = py_strip line,
      sf_message = ''Unsafe deserialization: '' @ unsafe_func @ ''. This allows arbitrary code execution.'',
      sf_pattern_matched = pattern,
      sf_suggested_fix = suggested_fix\<rparr>"

definition UnsafeDeserializationCheck_check :: "string \<Rightarrow> string \<Rightarrow> SecurityFinding list" where
  "UnsafeDeserializationCheck_check file_path content =
     concat (map (\<lambda>(line_num, line).
                    concat (map (\<lambda>(pattern, rx, unsafe_func, suggested_fix).
                                   if re_found False rx line
                                   then [unsafe_finding file_path line_num line unsafe_func suggested_fix pattern]
                                   else [])
                                UNSAFE_PATTERNS))
                 (lines_of content))"

subsection \<open>SecurityValidator\<close>

definition SecurityValidator_validate_file :: "string \<Rightarrow> string \<Rightarrow> SecurityFinding list" where
  "SecurityValidator_validate_file file_path content =
     HardcodedCredentialsCheck_check file_path content
     @ SQLInjectionCheck_check file_path content
     @ SensitiveDataLoggingCheck_check file_path content
     @ UnsafeDeserializationCheck_check file_path content"

text \<open>The result dictionary keeps the files that have findings.\<close>

definition SecurityValidator_validate_pr_changes ::
  "(string \<times> string) list \<Rightarrow> (string \<times> SecurityFinding list) list" where
  "SecurityValidator_validate_pr_changes changed_files =
     results_by_file SecurityValidator_validate_file changed_files"

section \<open>Architecture checks\<close>

record ArchitectureFinding =
  af_check_name :: string
  af_severity :: string
  af_file_path :: string
  af_line_number :: int
  af_message :: string
  af_violated_rule :: string
  af_suggested_fix :: string

definition nl :: string where
  "nl = [CHR 0x0A]"

text \<open>The arrow U+2192 of the messages lies outside the range of \<open>char\<close>; it is written as its UTF-8 bytes.\<close>

definition arrow :: string where
  "arrow = [CHR 0xE2, CHR 0x86, CHR 0x92]"

text \<open>
  A loop that extends the findings by what each step returns, where a step may raise: the first
  error ends the loop and is the result.
\<close>

fun collect :: "('a \<Rightarrow> py_error + 'b list) \<Rightarrow> 'a list \<Rightarrow> py_error + 'b list" where
  "collect f [] = Inr []"
| "collect f (x # xs) =
     (case f x of
        Inl e \<Rightarrow> Inl e
      | Inr ys \<Rightarrow> (case collect f xs of Inl e \<Rightarrow> Inl e | Inr zs \<Rightarrow> Inr (ys @ zs)))"

subsection \<open>LayerSeparationCheck\<close>

record layer_config =
  paths :: "string list"
  allowed_dependencies :: "string list"
  prohibited_dependencies :: "string list"

definition LAYERS :: "(string \<times> layer_config) list" where
  "LAYERS =
     [(''controller'',
       \<lparr>paths = [''api/'', ''controllers/''],
        allowed_dependencies = [''service'', ''model''],
        prohibited_dependencies = [''repository'']\<rparr>),
      (''service'',
       \<lparr>paths = [''services/'', ''business/''],
        allowed_dependencies = [''repository'', ''model''],
        prohibited_dependencies = [''controller'', ''api'']\<rparr>),
      (''repository'',
       \<lparr>paths = [''repositories/'', ''data/''],
        allowed_dependencies = [''model''],
        prohibited_dependencies = [''controller'', ''api'', ''service'']\<rparr>),
      (''model'',
       \<lparr>paths = [''models/'', ''entities/''],
        allowed_dependencies = [],
        prohibited_dependencies = [''controller'', ''api'', ''service'', ''repository'']\<rparr>)]"

record import_stmt =
  imp_type :: string
  imp_module :: string
  imp_line :: int

text \<open>The first layer, in the order of the table, one of whose paths occurs in the file path.\<close>

definition identify_layer :: "string \<Rightarrow> string option" where
  "identify_layer file_path =
     (case filter (\<lambda>(layer, config). list_ex (\<lambda>path_pattern. py_in path_pattern file_path) (paths config))
                  LAYERS of
        [] \<Rightarrow> None
      | (layer, config) # _ \<Rightarrow> Some layer)"

text \<open>The fallback pattern \<^verbatim>\<open>(?:from|import)\s+([\w.]+)\<close>.\<close>

definition import_line_pattern :: regex where
  "import_line_pattern =
     seqs [Alt (Lit ''from'') (Lit ''import''), Plus Space, Grp 1 (Plus (Either Word (Ch CHR ''.'')))]"

definition imports_of_node :: "py_node \<Rightarrow> import_stmt list" where
  "imports_of_node node =
     (case node_kind node of
        Import names line \<Rightarrow>
          map (\<lambda>name. \<lparr>imp_type = ''import'', imp_module = name, imp_line = line\<rparr>) names
      | ImportFrom module line \<Rightarrow>
          [\<lparr>imp_type = ''from'',
            imp_module = (case module of None \<Rightarrow> [] | Some m \<Rightarrow> m),
            imp_line = line\<rparr>]
      | _ \<Rightarrow> [])"

definition extract_imports :: "parser \<Rightarrow> string \<Rightarrow> import_stmt list" where
  "extract_imports parse content =
     (case parse content of
        Some tree \<Rightarrow> concat (map imports_of_node (ast_walk tree))
      | None \<Rightarrow>
          concat (map (\<lambda>(line_num, line).
                         case re_search False import_line_pattern line of
                           None \<Rightarrow> []
                         | Some m \<Rightarrow>
                             [\<lparr>imp_type = ''import'',
                               imp_module = (case group m 1 of None \<Rightarrow> [] | Some g \<Rightarrow> g),
                               imp_line = line_num\<rparr>])
                      (lines_of content)))"

text \<open>\<open>indicator.strip('/')\<close>.\<close>

definition strip_slashes :: "string \<Rightarrow> string" where
  "strip_slashes s =
     rev (dropWhile (\<lambda>c. c = CHR ''/'') (rev (dropWhile (\<lambda>c. c = CHR ''/'') s)))"

text \<open>\<open>self.LAYERS[layer]\<close> raises \<open>KeyError\<close> for a name that is no key of the table.\<close>

definition import_references_layer :: "import_stmt \<Rightarrow> string \<Rightarrow> py_error + bool" where
  "import_references_layer stmt layer =
     (case map_of LAYERS layer of
        None \<Rightarrow> Inl (KeyError layer)
      | Some config \<Rightarrow>
          Inr (list_ex (\<lambda>indicator. py_in (strip_slashes indicator) (py_lower (imp_module stmt)))
                       (paths config)))"

definition layer_finding :: "string \<Rightarrow> string \<Rightarrow> layer_config \<Rightarrow> import_stmt \<Rightarrow> string \<Rightarrow> ArchitectureFinding" where
  "layer_finding file_path current_layer config stmt prohibited_layer =
     \<lparr>af_check_name = ''layer_separation'',
      af_severity = ''medium'',
      af_file_path = file_path,
      af_line_number = imp_line stmt,
      af_message = py_title current_layer @ '' layer must not depend on '' @ prohibited_layer @ '' layer'',
      af_violated_rule = current_layer @ '' '' @ arrow @ '' '' @ prohibited_layer @ '' (prohibited)'',
      af_suggested_fix = ''Use dependency injection to invert the dependency or refactor to use ''
                         @ str_list (allowed_dependencies config)\<rparr>"

definition LayerSeparationCheck_check :: "parser \<Rightarrow> string \<Rightarrow> string \<Rightarrow> py_error + ArchitectureFinding list" where
  "LayerSeparationCheck_check parse file_path content =
     (case identify_layer file_path of
        None \<Rightarrow> Inr []
      | Some current_layer \<Rightarrow>
          (case map_of LAYERS current_layer of
             None \<Rightarrow> Inl (KeyError current_layer)
           | Some config \<Rightarrow>
               collect (\<lambda>(stmt, prohibited_layer).
                          case import_references_layer stmt prohibited_layer of
                            Inl e \<Rightarrow> Inl e
                          | Inr True \<Rightarrow> Inr [layer_finding file_path current_layer config stmt prohibited_layer]
                          | Inr False \<Rightarrow> Inr [])
                       (List.product (extract_imports parse content) (prohibited_dependencies config))))"

subsection \<open>DependencyInjectionCheck\<close>

text \<open>
  The patterns \<^verbatim>\<open>from\s+fastapi\s+import.*Depends\<close>, \<^verbatim>\<open>Depends\s*\(\<close>,
  \<^verbatim>\<open>@app\.(get|post|put|delete|patch)\<close>, \<^verbatim>\<open>@router\.(get|post|put|delete|patch)\<close>
  and \<^verbatim>\<open>@(app|router)\.\w+\<close>.
\<close>

definition depends_import_pattern :: regex where
  "depends_import_pattern =
     seqs [Lit ''from'', Plus Space, Lit ''fastapi'', Plus Space, Lit ''import'', Star Any, Lit ''Depends'']"

definition depends_usage_pattern :: regex where
  "depends_usage_pattern = seqs [Lit ''Depends'', Star Space, Lit ''('']"

definition http_verbs :: regex where
  "http_verbs = alts [Lit ''get'', Lit ''post'', Lit ''put'', Lit ''delete'', Lit ''patch'']"

definition route_patterns :: "regex list" where
  "route_patterns = [Seq (Lit ''@app.'') http_verbs, Seq (Lit ''@router.'') http_verbs]"

definition route_line_pattern :: regex where
  "route_line_pattern = seqs [Lit ''@'', Alt (Lit ''app'') (Lit ''router''), Lit ''.'', Plus Word]"

definition injection_finding :: "string \<Rightarrow> int \<Rightarrow> ArchitectureFinding" where
  "injection_finding file_path line_num =
     \<lparr>af_check_name = ''dependency_injection'',
      af_severity = ''medium'',
      af_file_path = file_path,
      af_line_number = line_num,
      af_message = ''Use FastAPI Depends() for dependency injection in API routes'',
      af_violated_rule = ''Missing dependency injection pattern'',
      af_suggested_fix =
        ''from fastapi import Depends'' @ nl @ nl @ ''def get_service() -> MyService:'' @ nl
        @ ''    return MyService()'' @ nl @ nl @ ''@app.get('' @ sq @ ''/endpoint'' @ sq @ '')'' @ nl
        @ ''def endpoint(service: MyService = Depends(get_service)):''\<rparr>"

definition DependencyInjectionCheck_check :: "string \<Rightarrow> string \<Rightarrow> ArchitectureFinding list" where
  "DependencyInjectionCheck_check file_path content =
     (if \<not> (py_in ''api/'' file_path \<or> py_in ''controllers/'' file_path) then []
      else if re_found False depends_import_pattern content
              \<and> re_found False depends_usage_pattern content then []
      else if list_ex (\<lambda>pattern. re_found False pattern content) route_patterns then
        (case filter (\<lambda>(line_num, line). re_found False route_line_pattern line) (lines_of content) of
           [] \<Rightarrow> []
         | (line_num, line) # _ \<Rightarrow> [injection_finding file_path line_num])
      else [])"

subsection \<open>AsyncPatternsCheck\<close>

record sync_library =
  lib_pattern :: regex
  lib_alternative :: string
  lib_message :: string

text \<open>
  The patterns \<^verbatim>\<open>requests\.(get|post|put|delete|patch|head|options)\<close>,
  \<^verbatim>\<open>import\s+psycopg2\<close>, \<^verbatim>\<open>import\s+pymongo\<close> and \<^verbatim>\<open>import\s+redis\b\<close>.
\<close>

definition SYNC_LIBRARIES :: "(string \<times> sync_library) list" where
  "SYNC_LIBRARIES =
     [(''requests'',
       \<lparr>lib_pattern = Seq (Lit ''requests.'')
                        (alts [Lit ''get'', Lit ''post'', Lit ''put'', Lit ''delete'', Lit ''patch'',
                               Lit ''head'', Lit ''options'']),
        lib_alternative = ''httpx.AsyncClient'',
        lib_message = ''Use httpx.AsyncClient instead of requests in async functions''\<rparr>),
      (''psycopg2'',
       \<lparr>lib_pattern = seqs [Lit ''import'', Plus Space, Lit ''psycopg2''],
        lib_alternative = ''asyncpg'',
        lib_message = ''Use asyncpg instead of psycopg2 in async functions''\<rparr>),
      (''pymongo'',
       \<lparr>lib_pattern = seqs [Lit ''import'', Plus Space, Lit ''pymongo''],
        lib_alternative = ''motor'',
        lib_message = ''Use motor (async MongoDB driver) instead of pymongo in async functions''\<rparr>),
      (''redis'',
       \<lparr>lib_pattern = seqs [Lit ''import'', Plus Space, Lit ''redis'', WordB],
        lib_alternative = ''aioredis'',
        lib_message = ''Use aioredis instead of redis in async functions''\<rparr>)]"

text \<open>The fallback pattern \<^verbatim>\<open>async\s+def\s+(\w+)\<close>, matched at the start of a line.\<close>

definition async_def_pattern :: regex where
  "async_def_pattern = seqs [Lit ''async'', Plus Space, Lit ''def'', Plus Space, Grp 1 (Plus Word)]"

text \<open>\<open>node.end_lineno or node.lineno\<close>.\<close>

definition end_line :: "py_fundef \<Rightarrow> int" where
  "end_line fd = (case fd_end_lineno fd of
     None \<Rightarrow> fd_lineno fd
   | Some e \<Rightarrow> if e = 0 then fd_lineno fd else e)"

definition find_async_functions :: "parser \<Rightarrow> string \<Rightarrow> (int \<times> int \<times> string) list" where
  "find_async_functions parse content =
     (case parse content of
        Some tree \<Rightarrow>
          concat (map (\<lambda>node. case node_kind node of
                                 AsyncFunctionDef fd \<Rightarrow> [(fd_lineno fd, end_line fd, fd_name fd)]
                               | _ \<Rightarrow> [])
                      (ast_walk tree))
      | None \<Rightarrow>
          concat (map (\<lambda>(i, line).
                         if re_match_start False async_def_pattern line \<noteq> None
                         then [(i, i + 20, ''unknown'')] else [])
                      (lines_of content)))"

definition is_in_async_function :: "int \<Rightarrow> (int \<times> int \<times> string) list \<Rightarrow> bool" where
  "is_in_async_function line_num async_functions =
     list_ex (\<lambda>(start, end, name). start \<le> line_num \<and> line_num \<le> end) async_functions"

definition async_finding :: "string \<Rightarrow> int \<Rightarrow> string \<Rightarrow> sync_library \<Rightarrow> ArchitectureFinding" where
  "async_finding file_path line_num lib_name lib_config =
     \<lparr>af_check_name = ''async_patterns'',
      af_severity = ''medium'',
      af_file_path = file_path,
      af_line_number = line_num,
      af_message = lib_message lib_config,
      af_violated_rule = ''Sync library '' @ sq @ lib_name @ sq @ '' in async context'',
      af_suggested_fix = ''Use '' @ lib_alternative lib_config @ '' for async I/O operations''\<rparr>"

text \<open>The line of a match: \<open>content[:match.start()].count('\n') + 1\<close>.\<close>

definition line_of_match :: "string \<Rightarrow> re_match \<Rightarrow> int" where
  "line_of_match content m = int (count_nl (take (m_start m) content)) + 1"

definition AsyncPatternsCheck_check :: "parser \<Rightarrow> string \<Rightarrow> string \<Rightarrow> ArchitectureFinding list" where
  "AsyncPatternsCheck_check parse file_path content =
     (let async_functions = find_async_functions parse content
      in if \<not> truthy async_functions then []
         else concat (map (\<lambda>(lib_name, lib_config).
                             concat (map (\<lambda>m. if is_in_async_function (line_of_match content m) async_functions
                                                then [async_finding file_path (line_of_match content m) lib_name lib_config]
                                                else [])
                                         (re_finditer False (lib_pattern lib_config) content)))
                          SYNC_LIBRARIES))"

subsection \<open>CircularDependencyCheck\<close>

definition path_to_module :: "string \<Rightarrow> string" where
  "path_to_module file_path = py_replace ''.py'' [] (py_replace ''/'' ''.'' file_path)"

text \<open>The pattern \<^verbatim>\<open>from\s+([\w.]+)\s+import|import\s+([\w.]+)\<close>.\<close>

definition import_pattern :: regex where
  "import_pattern =
     Alt (seqs [Lit ''from'', Plus Space, Grp 1 (Plus (Either Word (Ch CHR ''.''))), Plus Space, Lit ''import''])
         (seqs [Lit ''import'', Plus Space, Grp 2 (Plus (Either Word (Ch CHR ''.'')))])"

text \<open>\<open>match.group(1) or match.group(2)\<close>.\<close>

definition imported_name :: "re_match \<Rightarrow> string option" where
  "imported_name m =
     (case group m 1 of
        Some g \<Rightarrow> if truthy g then Some g else group m 2
      | None \<Rightarrow> group m 2)"

text \<open>
  The graph maps a module to the set of its import targets, kept as a list without repetition
  (Python iterates a set in no specified order; the model takes the order of insertion).
\<close>

type_synonym graph = "(string \<times> string list) list"

definition add_edge :: "string \<Rightarrow> string \<Rightarrow> graph \<Rightarrow> graph" where
  "add_edge module target g =
     (case map_of g module of
        None \<Rightarrow> g
      | Some targets \<Rightarrow> dict_set module (set_add target targets) g)"

text \<open>\<open>imported.split('.')[0]\<close>: what precedes the first dot.\<close>

definition first_component :: "string \<Rightarrow> string" where
  "first_component imported = takeWhile (\<lambda>c. c \<noteq> CHR ''.'') imported"

definition add_file :: "graph \<Rightarrow> string \<times> string \<Rightarrow> graph" where
  "add_file g item =
     (case item of (file_path, content) \<Rightarrow>
        foldl (\<lambda>g m. case imported_name m of
                        None \<Rightarrow> g
                      | Some imported \<Rightarrow>
                          if truthy imported
                          then add_edge (path_to_module file_path) (first_component imported) g
                          else g)
              (dict_set (path_to_module file_path) [] g)
              (re_finditer False import_pattern content))"

definition build_dependency_graph :: "(string \<times> string) list \<Rightarrow> graph" where
  "build_dependency_graph file_contents = foldl add_file [] file_contents"

text \<open>
  The depth-first search. The recursion of \<open>dfs\<close> is unfolded into a list of pending steps:
  \<open>Visit n\<close> is the loop body for the neighbour (or root) \<open>n\<close>, \<open>Leave\<close> is the
  \<open>rec_stack.pop()\<close> that ends a call. The state holds \<open>visited\<close>, \<open>rec_stack\<close> and
  \<open>cycles\<close>.
\<close>

datatype task = Visit string | Leave

definition neighbours :: "graph \<Rightarrow> string \<Rightarrow> string list" where
  "neighbours g n = (case map_of g n of None \<Rightarrow> [] | Some ns \<Rightarrow> ns)"

definition graph_nodes :: "graph \<Rightarrow> string set" where
  "graph_nodes g = set (map fst g) \<union> (\<Union>(k, ns) \<in> set g. set ns)"

fun task_nodes :: "task list \<Rightarrow> string set" where
  "task_nodes [] = {}"
| "task_nodes (Visit n # ts) = insert n (task_nodes ts)"
| "task_nodes (Leave # ts) = task_nodes ts"

definition unvisited :: "graph \<Rightarrow> task list \<Rightarrow> string list \<Rightarrow> nat" where
  "unvisited g ts visited = card ((graph_nodes g \<union> task_nodes ts) - set visited)"

function run :: "graph \<Rightarrow> task list \<Rightarrow> string list \<Rightarrow> string list \<Rightarrow> string list list \<Rightarrow> string list list" where
  "run g [] visited rec_stack cycles = cycles"
| "run g (Leave # ts) visited rec_stack cycles = run g ts visited (butlast rec_stack) cycles"
| "run g (Visit n # ts) visited rec_stack cycles =
     (if n \<notin> set visited
      then run g (map Visit (neighbours g n) @ Leave # ts) (visited @ [n]) (rec_stack @ [n]) cycles
      else if n \<in> set rec_stack
      then run g ts visited rec_stack (cycles @ [dropWhile (\<lambda>x. x \<noteq> n) rec_stack])
      else run g ts visited rec_stack cycles)"
  by pat_completeness auto
termination
proof -
  let ?R = "measures [\<lambda>(g, ts, visited, rec_stack, cycles). unvisited g ts visited,
                      \<lambda>(g, ts, visited, rec_stack, cycles). length ts]"
  have fin_g: "finite (graph_nodes g)" for g
    by (auto simp: graph_nodes_def)
  have fin_t: "finite (task_nodes ts)" for ts
    by (induction ts rule: task_nodes.induct) auto
  have t_app: "task_nodes (xs @ ys) = task_nodes xs \<union> task_nodes ys" for xs ys
    by (induction xs rule: task_nodes.induct) auto
  have t_visit: "task_nodes (map Visit ns) = set ns" for ns
    by (induction ns) auto
  have nb: "set (neighbours g n) \<subseteq> graph_nodes g" for g n
  proof (cases "map_of g n")
    case None
    then show ?thesis by (simp add: neighbours_def)
  next
    case (Some ns)
    then have "(n, ns) \<in> set g" by (rule map_of_SomeD)
    then show ?thesis using Some by (auto simp: neighbours_def graph_nodes_def)
  qed
  have le: "unvisited g ts visited \<le> unvisited g (Visit n # ts) visited" for g ts visited n
  proof -
    have "(graph_nodes g \<union> task_nodes ts) - set visited
          \<subseteq> (graph_nodes g \<union> task_nodes (Visit n # ts)) - set visited"
      by auto
    moreover have "finite ((graph_nodes g \<union> task_nodes (Visit n # ts)) - set visited)"
      by (simp add: fin_g fin_t)
    ultimately show ?thesis
      unfolding unvisited_def by (rule card_mono[rotated])
  qed
  show ?thesis
  proof (relation ?R)
    show "wf ?R" by simp
  next
    fix g :: graph and ts and visited rec_stack :: "string list" and cycles :: "string list list"
    show "((g, ts, visited, butlast rec_stack, cycles), (g, Leave # ts, visited, rec_stack, cycles)) \<in> ?R"
      by (simp add: unvisited_def)
  next
    fix g :: graph and n ts and visited rec_stack :: "string list" and cycles :: "string list list"
    assume n: "n \<notin> set visited"
    have sub: "(graph_nodes g \<union> task_nodes (map Visit (neighbours g n) @ Leave # ts)) - set (visited @ [n])
               \<subset> (graph_nodes g \<union> task_nodes (Visit n # ts)) - set visited"
      using n nb [of g n] by (auto simp: t_app t_visit)
    have "finite ((graph_nodes g \<union> task_nodes (Visit n # ts)) - set visited)"
      by (simp add: fin_g fin_t)
    with sub have "unvisited g (map Visit (neighbours g n) @ Leave # ts) (visited @ [n])
                   < unvisited g (Visit n # ts) visited"
      unfolding unvisited_def by (rule psubset_card_mono[rotated])
    then show "((g, map Visit (neighbours g n) @ Leave # ts, visited @ [n], rec_stack @ [n], cycles),
           (g, Visit n # ts, visited, rec_stack, cycles)) \<in> ?R"
      by simp
  next
    fix g :: graph and n ts and visited rec_stack :: "string list" and cycles :: "string list list"
    show "((g, ts, visited, rec_stack, cycles @ [dropWhile (\<lambda>x. x \<noteq> n) rec_stack]),
           (g, Visit n # ts, visited, rec_stack, cycles)) \<in> ?R"
      using le [of g ts visited n] by auto
  next
    fix g :: graph and n ts and visited rec_stack :: "string list" and cycles :: "string list list"
    show "((g, ts, visited, rec_stack, cycles), (g, Visit n # ts, visited, rec_stack, cycles)) \<in> ?R"
      using le [of g ts visited n] by auto
  qed
qed

definition find_cycles :: "graph \<Rightarrow> string list list" where
  "find_cycles g = run g (map Visit (map fst g)) [] [] []"

text \<open>A cycle is a non-empty slice of the stack, so \<open>cycle[0]\<close> exists.\<close>

definition cycle_finding :: "string list \<Rightarrow> ArchitectureFinding list" where
  "cycle_finding cycle =
     (case cycle of
        [] \<Rightarrow> []
      | first # _ \<Rightarrow>
          [\<lparr>af_check_name = ''circular_dependency'',
            af_severity = ''high'',
            af_file_path = first,
            af_line_number = 1,
            af_message = ''Circular dependency detected: ''
                         @ py_join ('' '' @ arrow @ '' '') (cycle @ [first]),
            af_violated_rule = ''No circular dependencies allowed'',
            af_suggested_fix = ''Refactor to use dependency inversion or extract shared dependencies to a common module''\<rparr>])"

definition CircularDependencyCheck_check_project :: "(string \<times> string) list \<Rightarrow> ArchitectureFinding list" where
  "CircularDependencyCheck_check_project file_contents =
     concat (map cycle_finding (find_cycles (build_dependency_graph file_contents)))"

subsection \<open>ArchitectureValidator\<close>

definition ArchitectureValidator_validate_file ::
  "parser \<Rightarrow> string \<Rightarrow> string \<Rightarrow> py_error + ArchitectureFinding list" where
  "ArchitectureValidator_validate_file parse file_path content =
     (case LayerSeparationCheck_check parse file_path content of
        Inl e \<Rightarrow> Inl e
      | Inr layer_findings \<Rightarrow>
          Inr (layer_findings
               @ DependencyInjectionCheck_check file_path content
               @ AsyncPatternsCheck_check parse file_path content))"

text \<open>The per-file loop of \<open>validate_project\<close>: an error of a file's checks ends the run.\<close>

fun validate_files ::
  "parser \<Rightarrow> (string \<times> string) list \<Rightarrow> (string \<times> ArchitectureFinding list) list
   \<Rightarrow> py_error + (string \<times> ArchitectureFinding list) list" where
  "validate_files parse [] results = Inr results"
| "validate_files parse ((file_path, content) # rest) results =
     (case ArchitectureValidator_validate_file parse file_path content of
        Inl e \<Rightarrow> Inl e
      | Inr findings \<Rightarrow>
          validate_files parse rest
            (if truthy findings then dict_set file_path findings results else results))"

definition append_finding ::
  "(string \<times> ArchitectureFinding list) list \<Rightarrow> ArchitectureFinding
   \<Rightarrow> (string \<times> ArchitectureFinding list) list" where
  "append_finding results finding =
     (case map_of results (af_file_path finding) of
        None \<Rightarrow> dict_set (af_file_path finding) [finding] results
      | Some fs \<Rightarrow> dict_set (af_file_path finding) (fs @ [finding]) results)"

definition ArchitectureValidator_validate_project ::
  "parser \<Rightarrow> (string \<times> string) list \<Rightarrow> py_error + (string \<times> ArchitectureFinding list) list" where
  "ArchitectureValidator_validate_project parse file_contents =
     (case validate_files parse file_contents [] of
        Inl e \<Rightarrow> Inl e
      | Inr results \<Rightarrow>
          Inr (foldl append_finding results (CircularDependencyCheck_check_project file_contents)))"

section \<open>Test coverage checks\<close>

record TestCoverageFinding =
  tf_check_name :: string
  tf_severity :: string
  tf_file_path :: string
  tf_function_name :: string
  tf_line_number :: int
  tf_message :: string
  tf_suggested_fix :: string

subsection \<open>NewFunctionsHaveTestsCheck\<close>

definition should_skip_file :: "string \<Rightarrow> bool" where
  "should_skip_file file_path =
     list_ex (\<lambda>pattern. py_in pattern file_path)
       [''test_'', ''__init__.py'', ''migrations/'', ''scripts/'', ''config/'', ''.example'']"

text \<open>The fallback pattern \<^verbatim>\<open>^def\s+([a-zA-Z_][a-zA-Z0-9_]*)\s*\(\<close>.\<close>

definition def_line_pattern :: regex where
  "def_line_pattern =
     seqs [Bol, Lit ''def'', Plus Space,
           Grp 1 (Seq (Atom (Either (Range CHR ''a'' CHR ''z'') (Either (Range CHR ''A'' CHR ''Z'') (Ch CHR ''_''))))
                      (Star (Either (Range CHR ''a'' CHR ''z'')
                               (Either (Range CHR ''A'' CHR ''Z'')
                                  (Either (Range CHR ''0'' CHR ''9'') (Ch CHR ''_'')))))),
           Star Space, Lit ''('']"

definition extract_functions :: "parser \<Rightarrow> string \<Rightarrow> (string \<times> int) list" where
  "extract_functions parse content =
     (case parse content of
        Some tree \<Rightarrow>
          concat (map (\<lambda>node. case fundef_of node of
                                 None \<Rightarrow> []
                               | Some fd \<Rightarrow>
                                   if \<not> startswith (fd_name fd) ''_'' then [(fd_name fd, fd_lineno fd)]
                                   else [])
                      (ast_walk tree))
      | None \<Rightarrow>
          concat (map (\<lambda>(line_num, line).
                         case re_match_start False def_line_pattern (py_strip line) of
                           None \<Rightarrow> []
                         | Some m \<Rightarrow>
                             (case group m 1 of
                                None \<Rightarrow> []
                              | Some name \<Rightarrow>
                                  if \<not> startswith name ''_'' then [(name, line_num)] else []))
                      (lines_of content)))"

definition test_patterns :: "string \<Rightarrow> string list" where
  "test_patterns source_path =
     [''tests/test_'' @ path_name source_path,
      ''tests/'' @ path_parent_name source_path @ ''/test_'' @ path_name source_path,
      ''test_'' @ path_name source_path,
      path_parent_str source_path @ ''/test_'' @ path_name source_path]"

text \<open>
  The first test file, pattern by pattern, whose path contains the pattern; it is returned with
  its content, which the source reads as \<open>test_files[test_file_path]\<close>.
\<close>

definition find_test_file :: "string \<Rightarrow> (string \<times> string) list \<Rightarrow> (string \<times> string) option" where
  "find_test_file source_path test_files =
     (case concat (map (\<lambda>pattern. filter (\<lambda>(test_path, content). py_in pattern test_path) test_files)
                       (test_patterns source_path)) of
        [] \<Rightarrow> None
      | item # _ \<Rightarrow> Some item)"

definition suggest_test_file_path :: "string \<Rightarrow> string" where
  "suggest_test_file_path source_path =
     ''tests/'' @ path_parent_name source_path @ ''/test_'' @ path_name source_path"

text \<open>
  The pattern \<^verbatim>\<open>def\s+test_{func_name}\s*\(\<close>; a function name is an identifier, so it stands
  for itself in the pattern.
\<close>

definition has_test_for_function :: "string \<Rightarrow> string \<Rightarrow> bool" where
  "has_test_for_function func_name test_content =
     re_found False (seqs [Lit ''def'', Plus Space, Lit (''test_'' @ func_name), Star Space, Lit ''(''])
       test_content"

definition no_test_file_finding :: "string \<Rightarrow> TestCoverageFinding" where
  "no_test_file_finding file_path =
     \<lparr>tf_check_name = ''new_functions_have_tests'',
      tf_severity = ''medium'',
      tf_file_path = file_path,
      tf_function_name = ''(all functions)'',
      tf_line_number = 1,
      tf_message = ''No test file found for '' @ file_path @ ''. Create tests for new functions.'',
      tf_suggested_fix = ''Create '' @ suggest_test_file_path file_path\<rparr>"

definition untested_function_finding :: "string \<Rightarrow> string \<Rightarrow> string \<times> int \<Rightarrow> TestCoverageFinding" where
  "untested_function_finding file_path test_file_path func =
     \<lparr>tf_check_name = ''new_functions_have_tests'',
      tf_severity = ''medium'',
      tf_file_path = file_path,
      tf_function_name = fst func,
      tf_line_number = snd func,
      tf_message = ''Function '' @ sq @ fst func @ sq @ '' has no corresponding test'',
      tf_suggested_fix = ''Add test_'' @ fst func @ '' in '' @ test_file_path\<rparr>"

definition new_functions_per_file ::
  "parser \<Rightarrow> (string \<times> string) list \<Rightarrow> string \<times> string \<Rightarrow> TestCoverageFinding list" where
  "new_functions_per_file parse test_files item =
     (case item of (file_path, content) \<Rightarrow>
        if should_skip_file file_path then []
        else (let new_functions = extract_functions parse content
              in case find_test_file file_path test_files of
                   None \<Rightarrow> if truthy new_functions then [no_test_file_finding file_path] else []
                 | Some (test_file_path, test_content) \<Rightarrow>
                     if \<not> truthy test_file_path
                     then (if truthy new_functions then [no_test_file_finding file_path] else [])
                     else map (untested_function_finding file_path test_file_path)
                            (filter (\<lambda>func. \<not> has_test_for_function (fst func) test_content)
                                    new_functions)))"

definition NewFunctionsHaveTestsCheck_check ::
  "parser \<Rightarrow> (string \<times> string) list \<Rightarrow> (string \<times> string) list \<Rightarrow> TestCoverageFinding list" where
  "NewFunctionsHaveTestsCheck_check parse changed_files test_files =
     concat (map (new_functions_per_file parse test_files) changed_files)"

subsection \<open>BugFixRegressionTestCheck\<close>

text \<open>
  The table \<open>BUG_FIX_PATTERNS\<close>: \<^verbatim>\<open>^fix\<close>, \<^verbatim>\<open>^bug\<close>, \<^verbatim>\<open>\bfix\b\<close>, \<^verbatim>\<open>\bbug\b\<close>,
  \<^verbatim>\<open>\bregression\b\<close>.
\<close>

definition BUG_FIX_PATTERNS :: "regex list" where
  "BUG_FIX_PATTERNS =
     [Seq Bol (Lit ''fix''),
      Seq Bol (Lit ''bug''),
      seqs [WordB, Lit ''fix'', WordB],
      seqs [WordB, Lit ''bug'', WordB],
      seqs [WordB, Lit ''regression'', WordB]]"

definition is_bug_fix_pr :: "string \<Rightarrow> string \<Rightarrow> bool" where
  "is_bug_fix_pr title description =
     list_ex (\<lambda>pattern. re_found True pattern (py_lower (title @ '' '' @ description)))
       BUG_FIX_PATTERNS"

definition has_new_or_modified_tests :: "(string \<times> string) list \<Rightarrow> bool" where
  "has_new_or_modified_tests changed_files =
     list_ex (\<lambda>(file_path, content).
                list_ex (\<lambda>pattern. py_in pattern file_path) [''test_'', ''/tests/'', ''_test.py''])
       changed_files"

definition regression_test_finding :: TestCoverageFinding where
  "regression_test_finding =
     \<lparr>tf_check_name = ''bug_fix_regression_tests'',
      tf_severity = ''high'',
      tf_file_path = ''(pull request)'',
      tf_function_name = ''N/A'',
      tf_line_number = 0,
      tf_message = ''Bug fix PR should include regression tests to prevent reoccurrence'',
      tf_suggested_fix = ''Add test cases that reproduce the bug and verify the fix''\<rparr>"

definition BugFixRegressionTestCheck_check ::
  "string \<Rightarrow> string \<Rightarrow> (string \<times> string) list \<Rightarrow> TestCoverageFinding list" where
  "BugFixRegressionTestCheck_check pr_title pr_description changed_files =
     (if \<not> is_bug_fix_pr pr_title pr_description then []
      else if \<not> has_new_or_modified_tests changed_files then [regression_test_finding]
      else [])"

subsection \<open>TestQualityCheck\<close>

text \<open>
  The assertion patterns \<^verbatim>\<open>\bassert\s+\<close>, \<^verbatim>\<open>\.assert\<close>, \<^verbatim>\<open>self\.assertEqual\<close>,
  \<^verbatim>\<open>self\.assertTrue\<close>; the fixture patterns \<^verbatim>\<open>@pytest\.fixture\<close>, \<^verbatim>\<open>def\s+setUp\s*\(\<close>,
  \<^verbatim>\<open>def\s+tearDown\s*\(\<close>, \<^verbatim>\<open>@conftest\<close>; the test counter \<^verbatim>\<open>def\s+test_\<close>.
\<close>

definition assertion_patterns :: "regex list" where
  "assertion_patterns =
     [seqs [WordB, Lit ''assert'', Plus Space],
      Lit ''.assert'',
      Lit ''self.assertEqual'',
      Lit ''self.assertTrue'']"

definition fixture_patterns :: "regex list" where
  "fixture_patterns =
     [Lit ''@pytest.fixture'',
      seqs [Lit ''def'', Plus Space, Lit ''setUp'', Star Space, Lit ''(''],
      seqs [Lit ''def'', Plus Space, Lit ''tearDown'', Star Space, Lit ''(''],
      Lit ''@conftest'']"

definition has_assertions :: "string \<Rightarrow> bool" where
  "has_assertions content = list_ex (\<lambda>pattern. re_found False pattern content) assertion_patterns"

definition has_fixtures_or_setup :: "string \<Rightarrow> bool" where
  "has_fixtures_or_setup content = list_ex (\<lambda>pattern. re_found False pattern content) fixture_patterns"

definition test_count :: "string \<Rightarrow> nat" where
  "test_count content = length (re_finditer False (seqs [Lit ''def'', Plus Space, Lit ''test_'']) content)"

definition no_assertions_finding :: "string \<Rightarrow> TestCoverageFinding" where
  "no_assertions_finding file_path =
     \<lparr>tf_check_name = ''test_quality'',
      tf_severity = ''high'',
      tf_file_path = file_path,
      tf_function_name = ''N/A'',
      tf_line_number = 1,
      tf_message = ''Test file has no assertions. Tests should include assert statements.'',
      tf_suggested_fix = ''Add assert statements to verify expected behavior''\<rparr>"

definition many_tests_finding :: "string \<Rightarrow> nat \<Rightarrow> TestCoverageFinding" where
  "many_tests_finding file_path n =
     \<lparr>tf_check_name = ''test_quality'',
      tf_severity = ''low'',
      tf_file_path = file_path,
      tf_function_name = ''N/A'',
      tf_line_number = 1,
      tf_message = ''Test file with '' @ str_nat n @ '' tests should use fixtures/setup for shared test data'',
      tf_suggested_fix = ''Use pytest fixtures or setUp/tearDown methods for test initialization''\<rparr>"

definition test_quality_per_file :: "string \<times> string \<Rightarrow> TestCoverageFinding list" where
  "test_quality_per_file item =
     (case item of (file_path, content) \<Rightarrow>
        (if \<not> has_assertions content then [no_assertions_finding file_path] else [])
        @ (if \<not> has_fixtures_or_setup content \<and> 5 < test_count content
           then [many_tests_finding file_path (test_count content)] else []))"

definition TestQualityCheck_check :: "(string \<times> string) list \<Rightarrow> TestCoverageFinding list" where
  "TestQualityCheck_check test_files = concat (map test_quality_per_file test_files)"

subsection \<open>TestCoverageValidator\<close>

definition is_test_path :: "string \<Rightarrow> bool" where
  "is_test_path file_path = (py_in ''test_'' file_path \<or> py_in ''/tests/'' file_path)"

definition TestCoverageValidator_validate_pr ::
  "parser \<Rightarrow> string \<Rightarrow> string \<Rightarrow> (string \<times> string) list \<Rightarrow> TestCoverageFinding list" where
  "TestCoverageValidator_validate_pr parse pr_title pr_description changed_files =
     (let test_files = filter (\<lambda>(file_path, content). is_test_path file_path) changed_files;
          source_files = filter (\<lambda>(file_path, content).
                                   \<not> is_test_path file_path \<and> endswith file_path ''.py'')
                                changed_files
      in NewFunctionsHaveTestsCheck_check parse source_files test_files
         @ BugFixRegressionTestCheck_check pr_title pr_description changed_files
         @ TestQualityCheck_check test_files)"

section \<open>Performance checks\<close>

record PerformanceFinding =
  pf_check_name :: string
  pf_severity :: string
  pf_file_path :: string
  pf_line_number :: int
  pf_line_content :: string
  pf_message :: string
  pf_impact :: string
  pf_suggested_fix :: string

subsection \<open>NPlusOneQueryCheck\<close>

text \<open>
  \<open>QUERY_PATTERNS\<close>: \<^verbatim>\<open>\.(get|filter|query|select|find)\s*\(\<close>, \<^verbatim>\<open>\.get_object_or_404\s*\(\<close>,
  \<^verbatim>\<open>\.objects\.\<close>. \<open>LOOP_PATTERNS\<close>: \<^verbatim>\<open>for\s+\w+\s+in\s+\<close>, \<^verbatim>\<open>\[.*for\s+.*in\s+.*\]\<close>.
\<close>

definition QUERY_PATTERNS :: "regex list" where
  "QUERY_PATTERNS =
     [seqs [Lit ''.'', alts [Lit ''get'', Lit ''filter'', Lit ''query'', Lit ''select'', Lit ''find''],
            Star Space, Lit ''(''],
      seqs [Lit ''.get_object_or_404'', Star Space, Lit ''(''],
      Lit ''.objects.'']"

definition for_loop_pattern :: regex where
  "for_loop_pattern = seqs [Lit ''for'', Plus Space, Plus Word, Plus Space, Lit ''in'', Plus Space]"

definition LOOP_PATTERNS :: "regex list" where
  "LOOP_PATTERNS =
     [for_loop_pattern,
      seqs [Lit ''['', Star Any, Lit ''for'', Plus Space, Star Any, Lit ''in'', Plus Space, Star Any, Lit '']'']]"

definition has_query :: "string \<Rightarrow> bool" where
  "has_query line = list_ex (\<lambda>pattern. re_found False pattern line) QUERY_PATTERNS"

definition is_loop :: "string \<Rightarrow> bool" where
  "is_loop line = list_ex (\<lambda>pattern. re_found False pattern line) LOOP_PATTERNS"

definition n_plus_one_finding :: "string \<Rightarrow> int \<Rightarrow> string \<Rightarrow> PerformanceFinding" where
  "n_plus_one_finding file_path line_num line =
     \<lparr>pf_check_name = ''n_plus_one_queries'',
      pf_severity = ''high'',
      pf_file_path = file_path,
      pf_line_number = line_num,
      pf_line_content = py_strip line,
      pf_message = ''Potential N+1 query detected: database query inside loop'',
      pf_impact = ''O(n) database queries - severe performance degradation with large datasets'',
      pf_suggested_fix = ''Use eager loading: SQLAlchemy joinedload()/selectinload(), Django select_related()/prefetch_related()''\<rparr>"

text \<open>
  For the line at index \<open>i\<close> the inner loop reads the lines \<open>i + 1\<close> to
  \<open>i + min(20, len(lines) - i) - 1\<close>: the next nineteen lines at most. It reports once per loop.
\<close>

fun n_plus_one_scan :: "string \<Rightarrow> int \<Rightarrow> string list \<Rightarrow> PerformanceFinding list" where
  "n_plus_one_scan file_path line_num [] = []"
| "n_plus_one_scan file_path line_num (line # rest) =
     (if is_loop line \<and> list_ex has_query (take 19 rest)
      then [n_plus_one_finding file_path line_num line] else [])
     @ n_plus_one_scan file_path (line_num + 1) rest"

definition NPlusOneQueryCheck_check :: "string \<Rightarrow> string \<Rightarrow> PerformanceFinding list" where
  "NPlusOneQueryCheck_check file_path content =
     (if \<not> list_ex (\<lambda>pattern. py_in pattern content) [''sqlalchemy'', ''django.db'', ''peewee'', ''tortoise'']
      then []
      else n_plus_one_scan file_path 1 (py_split (CHR 0x0A) content))"

subsection \<open>DatabaseIndexCheck\<close>

text \<open>
  \<open>FOREIGN_KEY_PATTERNS\<close>: \<^verbatim>\<open>ForeignKey\s*\([^)]*\)\<close> with \<^verbatim>\<open>index=True|db_index=True\<close>, and
  \<^verbatim>\<open>relationship\s*\([^)]*\)\<close> with \<^verbatim>\<open>index=True\<close>.
\<close>

definition FOREIGN_KEY_PATTERNS :: "(regex \<times> regex \<times> string) list" where
  "FOREIGN_KEY_PATTERNS =
     [(seqs [Lit ''ForeignKey'', Star Space, Lit ''('', Star (NoneOf '')''), Lit '')''],
       Alt (Lit ''index=True'') (Lit ''db_index=True''),
       ''ForeignKey''),
      (seqs [Lit ''relationship'', Star Space, Lit ''('', Star (NoneOf '')''), Lit '')''],
       Lit ''index=True'',
       ''Relationship'')]"

definition index_finding :: "string \<Rightarrow> int \<Rightarrow> string \<Rightarrow> string \<Rightarrow> PerformanceFinding" where
  "index_finding file_path line_num line fk_type =
     \<lparr>pf_check_name = ''missing_database_indexes'',
      pf_severity = ''medium'',
      pf_file_path = file_path,
      pf_line_number = line_num,
      pf_line_content = py_strip line,
      pf_message = fk_type @ '' without database index'',
      pf_impact = ''Slow query performance on joins and lookups'',
      pf_suggested_fix = ''Add index=True or db_index=True to the '' @ fk_type @ '' definition''\<rparr>"

text \<open>
  The context of the line at index \<open>i\<close> (line number \<open>i + 1\<close>) is
  \<open>lines[max(0, i - 1) : min(len(lines), i + 3)]\<close>, joined by newlines.
\<close>

definition index_context :: "string list \<Rightarrow> nat \<Rightarrow> string" where
  "index_context lines i =
     py_join nl (take (min (length lines) (i + 3) - (i - 1)) (drop (i - 1) lines))"

definition DatabaseIndexCheck_check :: "string \<Rightarrow> string \<Rightarrow> PerformanceFinding list" where
  "DatabaseIndexCheck_check file_path content =
     (if \<not> (py_in ''models/'' file_path \<or> py_in ''model.py'' file_path) then []
      else (let lines = py_split (CHR 0x0A) content
            in concat (map (\<lambda>(i, line).
                              concat (map (\<lambda>(fk_pattern, index_pattern, fk_type).
                                             if re_found False fk_pattern line
                                                \<and> \<not> re_found False index_pattern (index_context lines i)
                                             then [index_finding file_path (int i + 1) line fk_type]
                                             else [])
                                          FOREIGN_KEY_PATTERNS))
                           (List.enumerate 0 lines))))"

subsection \<open>AlgorithmComplexityCheck\<close>

text \<open>The loop head \<^verbatim>\<open>\s*for\s+\w+\s+in\s+\<close>, matched at the start of a line.\<close>

definition for_head_pattern :: regex where
  "for_head_pattern = Seq (Star Space) for_loop_pattern"

definition is_for_head :: "string \<Rightarrow> bool" where
  "is_for_head line = (re_match_start False for_head_pattern line \<noteq> None)"

definition nested_loop_finding :: "string \<Rightarrow> int \<Rightarrow> string \<Rightarrow> PerformanceFinding" where
  "nested_loop_finding file_path line_num line =
     \<lparr>pf_check_name = ''algorithm_complexity'',
      pf_severity = ''medium'',
      pf_file_path = file_path,
      pf_line_number = line_num,
      pf_line_content = py_strip line,
      pf_message = ''Nested loops detected - potential O(n'' @ [CHR 0xC2, CHR 0xB2] @ '') complexity'',
      pf_impact = ''Performance degrades quadratically with input size'',
      pf_suggested_fix = ''Consider using more efficient algorithms or data structures (dict, set for lookups)''\<rparr>"

text \<open>
  The indentation stack, top first: entries of an indentation not below the new loop's are
  popped, and a loop that finds the stack non-empty is nested.
\<close>

fun nested_loops_scan ::
  "string \<Rightarrow> (int \<times> nat) list \<Rightarrow> (int \<times> string) list \<Rightarrow> PerformanceFinding list" where
  "nested_loops_scan file_path indent_stack [] = []"
| "nested_loops_scan file_path indent_stack ((line_num, line) # rest) =
     (if is_for_head line then
        (let indent = length line - length (py_lstrip line);
             stack = dropWhile (\<lambda>(n, d). indent \<le> d) indent_stack
         in (if truthy stack then [nested_loop_finding file_path line_num line] else [])
            @ nested_loops_scan file_path ((line_num, indent) # stack) rest)
      else nested_loops_scan file_path indent_stack rest)"

definition check_nested_loops :: "string \<Rightarrow> string list \<Rightarrow> PerformanceFinding list" where
  "check_nested_loops file_path lines = nested_loops_scan file_path [] (enum_from 1 lines)"

text \<open>
  The patterns \<^verbatim>\<open>(\w+)\s*in\s*range\(len\((\w+)\)\)\<close> and
  \<^verbatim>\<open>(\w+)\.append\(.*\)\s*#.*loop\<close>.
\<close>

definition inefficient_patterns :: "(regex \<times> string) list" where
  "inefficient_patterns =
     [(seqs [Plus Word, Star Space, Lit ''in'', Star Space, Lit ''range(len('', Plus Word, Lit ''))''],
       ''Use enumerate() instead of range(len())''),
      (seqs [Plus Word, Lit ''.append('', Star Any, Lit '')'', Star Space, Lit ''#'', Star Any, Lit ''loop''],
       ''Consider list comprehension for better performance'')]"

definition inefficient_finding :: "string \<Rightarrow> int \<Rightarrow> string \<Rightarrow> string \<Rightarrow> PerformanceFinding" where
  "inefficient_finding file_path line_num line suggestion =
     \<lparr>pf_check_name = ''algorithm_complexity'',
      pf_severity = ''low'',
      pf_file_path = file_path,
      pf_line_number = line_num,
      pf_line_content = py_strip line,
      pf_message = ''Inefficient list operation'',
      pf_impact = ''Minor performance overhead'',
      pf_suggested_fix = suggestion\<rparr>"

definition check_inefficient_list_ops :: "string \<Rightarrow> string list \<Rightarrow> PerformanceFinding list" where
  "check_inefficient_list_ops file_path lines =
     concat (map (\<lambda>(line_num, line).
                    concat (map (\<lambda>(pattern, suggestion).
                                   if re_found False pattern line
                                   then [inefficient_finding file_path line_num line suggestion]
                                   else [])
                                inefficient_patterns))
                 (enum_from 1 lines))"

text \<open>The pattern \<^verbatim>\<open>len\(\w+\)\<close>.\<close>

definition len_call_pattern :: regex where
  "len_call_pattern = seqs [Lit ''len('', Plus Word, Lit '')'']"

definition loop_invariant_finding :: "string \<Rightarrow> int \<Rightarrow> string \<Rightarrow> PerformanceFinding" where
  "loop_invariant_finding file_path line_num line =
     \<lparr>pf_check_name = ''algorithm_complexity'',
      pf_severity = ''low'',
      pf_file_path = file_path,
      pf_line_number = line_num,
      pf_line_content = py_strip line,
      pf_message = ''len() called inside loop - consider moving outside if list doesn'' @ sq
                   @ ''t change'',
      pf_impact = ''Repeated function calls add overhead'',
      pf_suggested_fix = ''Store len() result before loop if the collection size is invariant''\<rparr>"

text \<open>\<open>line.strip() and line[0].isspace()\<close>: the line is indented and not blank.\<close>

definition indented_line :: "string \<Rightarrow> bool" where
  "indented_line line =
     (truthy (py_strip line) \<and> (case line of [] \<Rightarrow> False | c # _ \<Rightarrow> py_isspace c))"

fun loop_invariants_scan :: "string \<Rightarrow> bool \<Rightarrow> (int \<times> string) list \<Rightarrow> PerformanceFinding list" where
  "loop_invariants_scan file_path in_loop [] = []"
| "loop_invariants_scan file_path in_loop ((line_num, line) # rest) =
     (let in_loop' = (if is_for_head line then True
                      else if in_loop \<and> \<not> indented_line line then False
                      else in_loop)
      in (if in_loop' \<and> re_found False len_call_pattern line
          then [loop_invariant_finding file_path line_num line] else [])
         @ loop_invariants_scan file_path in_loop' rest)"

definition check_loop_invariants :: "string \<Rightarrow> string list \<Rightarrow> PerformanceFinding list" where
  "check_loop_invariants file_path lines = loop_invariants_scan file_path False (enum_from 1 lines)"

definition AlgorithmComplexityCheck_check :: "string \<Rightarrow> string \<Rightarrow> PerformanceFinding list" where
  "AlgorithmComplexityCheck_check file_path content =
     (if py_in ''test_'' file_path \<or> py_in ''/tests/'' file_path then []
      else (let lines = py_split (CHR 0x0A) content
            in check_nested_loops file_path lines
               @ check_inefficient_list_ops file_path lines
               @ check_loop_invariants file_path lines))"

subsection \<open>MemoryLeakCheck\<close>

text \<open>
  \<open>LEAK_PATTERNS\<close>: \<^verbatim>\<open>global\s+\w+\s*=\s*\[\]\<close>, \<^verbatim>\<open>cache\s*=\s*\{\}\<close>,
  \<^verbatim>\<open>\.append\(.*\)\s*#.*never.*clear\<close>.
\<close>

definition LEAK_PATTERNS :: "(regex \<times> string) list" where
  "LEAK_PATTERNS =
     [(seqs [Lit ''global'', Plus Space, Plus Word, Star Space, Lit ''='', Star Space, Lit ''[]''],
       ''Global mutable collection can grow unbounded''),
      (seqs [Lit ''cache'', Star Space, Lit ''='', Star Space, Lit ''{}''],
       ''Unbounded cache can cause memory issues''),
      (seqs [Lit ''.append('', Star Any, Lit '')'', Star Space, Lit ''#'', Star Any, Lit ''never'',
             Star Any, Lit ''clear''],
       ''Append without clear can accumulate memory'')]"

definition leak_finding :: "string \<Rightarrow> int \<Rightarrow> string \<Rightarrow> string \<Rightarrow> PerformanceFinding" where
  "leak_finding file_path line_num line issue =
     \<lparr>pf_check_name = ''memory_leak'',
      pf_severity = ''medium'',
      pf_file_path = file_path,
      pf_line_number = line_num,
      pf_line_content = py_strip line,
      pf_message = ''Potential memory leak: '' @ issue,
      pf_impact = ''Memory usage grows over time, causing OOM errors'',
      pf_suggested_fix = ''Use LRU cache, implement size limits, or periodic cleanup''\<rparr>"

definition MemoryLeakCheck_check :: "string \<Rightarrow> string \<Rightarrow> PerformanceFinding list" where
  "MemoryLeakCheck_check file_path content =
     concat (map (\<lambda>(line_num, line).
                    concat (map (\<lambda>(pattern, issue).
                                   if re_found True pattern line
                                   then [leak_finding file_path line_num line issue]
                                   else [])
                                LEAK_PATTERNS))
                 (lines_of content))"

subsection \<open>PerformanceValidator\<close>

definition PerformanceValidator_validate_file :: "string \<Rightarrow> string \<Rightarrow> PerformanceFinding list" where
  "PerformanceValidator_validate_file file_path content =
     NPlusOneQueryCheck_check file_path content
     @ DatabaseIndexCheck_check file_path content
     @ AlgorithmComplexityCheck_check file_path content
     @ MemoryLeakCheck_check file_path content"

definition PerformanceValidator_validate_pr ::
  "(string \<times> string) list \<Rightarrow> (string \<times> PerformanceFinding list) list" where
  "PerformanceValidator_validate_pr changed_files =
     results_by_file PerformanceValidator_validate_file changed_files"

section \<open>Quality check orchestrator\<close>

record QualityCheckResult =
  passed :: bool
  total_issues :: nat
  critical_issues :: nat
  high_issues :: nat
  medium_issues :: nat
  low_issues :: nat
  security_findings :: "SecurityFinding list"
  architecture_findings :: "ArchitectureFinding list"
  test_coverage_findings :: "TestCoverageFinding list"
  performance_findings :: "PerformanceFinding list"
  breaking_changes_findings :: "BreakingChangeFinding list"
  mode :: string
  override_used :: bool
  override_justification :: "string option"

text \<open>The findings of the five validators, in one list.\<close>

datatype finding =
    Sec SecurityFinding
  | Arch ArchitectureFinding
  | Cov TestCoverageFinding
  | Perf PerformanceFinding
  | Brk BreakingChangeFinding

text \<open>
  The attribute \<open>severity\<close> of a finding: a member of the enumeration \<open>Severity\<close> in a
  security finding, a string in every other finding.
\<close>

datatype severity_attr = EnumSeverity Severity | StrSeverity string

fun severity_of :: "finding \<Rightarrow> severity_attr" where
  "severity_of (Sec f) = EnumSeverity (sf_severity f)"
| "severity_of (Arch f) = StrSeverity (af_severity f)"
| "severity_of (Cov f) = StrSeverity (tf_severity f)"
| "severity_of (Perf f) = StrSeverity (pf_severity f)"
| "severity_of (Brk f) = StrSeverity (bf_severity f)"

text \<open>
  \<open>_count_severities\<close>. The counters are a dictionary with the four keys. \<open>.lower()\<close> exists
  on a string only: on a member of \<open>Severity\<close> it raises \<open>AttributeError\<close>.
\<close>

definition initial_counts :: "string \<rightharpoonup> nat" where
  "initial_counts = [''critical'' \<mapsto> 0, ''high'' \<mapsto> 0, ''medium'' \<mapsto> 0, ''low'' \<mapsto> 0]"

fun count_loop :: "(string \<rightharpoonup> nat) \<Rightarrow> finding list \<Rightarrow> py_error + (string \<rightharpoonup> nat)" where
  "count_loop counts [] = Inr counts"
| "count_loop counts (f # fs) =
     (case severity_of f of
        EnumSeverity s \<Rightarrow> Inl (AttributeError ''lower'')
      | StrSeverity s \<Rightarrow>
          (case counts (py_lower s) of
             Some n \<Rightarrow> count_loop (counts(py_lower s \<mapsto> n + 1)) fs
           | None \<Rightarrow> count_loop counts fs))"

definition count_severities :: "finding list \<Rightarrow> py_error + (string \<rightharpoonup> nat)" where
  "count_severities findings = count_loop initial_counts findings"

text \<open>\<open>d[k]\<close>.\<close>

definition getitem :: "(string \<rightharpoonup> 'v) \<Rightarrow> string \<Rightarrow> py_error + 'v" where
  "getitem d k = (case d k of None \<Rightarrow> Inl (KeyError k) | Some v \<Rightarrow> Inr v)"

definition determine_pass_status :: "string \<Rightarrow> (string \<rightharpoonup> nat) \<Rightarrow> py_error + bool" where
  "determine_pass_status mode_name severity_counts =
     (if mode_name = ''error'' then
        (case getitem severity_counts ''critical'' of
           Inl e \<Rightarrow> Inl e
         | Inr c \<Rightarrow>
             if c = 0 then (case getitem severity_counts ''high'' of Inl e \<Rightarrow> Inl e | Inr h \<Rightarrow> Inr (h = 0))
             else Inr False)
      else Inr True)"

definition make_result ::
  "string \<Rightarrow> bool \<Rightarrow> nat \<Rightarrow> (string \<rightharpoonup> nat) \<Rightarrow> SecurityFinding list \<Rightarrow> ArchitectureFinding list
   \<Rightarrow> TestCoverageFinding list \<Rightarrow> PerformanceFinding list \<Rightarrow> BreakingChangeFinding list
   \<Rightarrow> py_error + QualityCheckResult" where
  "make_result mode_name ok n_total severity_counts sec arch cov perf brk =
     (case getitem severity_counts ''critical'' of
        Inl e \<Rightarrow> Inl e
      | Inr c \<Rightarrow>
     (case getitem severity_counts ''high'' of
        Inl e \<Rightarrow> Inl e
      | Inr h \<Rightarrow>
     (case getitem severity_counts ''medium'' of
        Inl e \<Rightarrow> Inl e
      | Inr m \<Rightarrow>
     (case getitem severity_counts ''low'' of
        Inl e \<Rightarrow> Inl e
      | Inr l \<Rightarrow>
          Inr \<lparr>passed = ok,
               total_issues = n_total,
               critical_issues = c,
               high_issues = h,
               medium_issues = m,
               low_issues = l,
               security_findings = sec,
               architecture_findings = arch,
               test_coverage_findings = cov,
               performance_findings = perf,
               breaking_changes_findings = brk,
               mode = mode_name,
               override_used = False,
               override_justification = None\<rparr>))))"

text \<open>\<open>old_files\<close> is optional; the breaking changes validator reads it with \<open>get\<close>.\<close>

definition old_files_dict :: "(string \<rightharpoonup> string) option \<Rightarrow> (string \<rightharpoonup> string option)" where
  "old_files_dict old_files =
     (case old_files of
        None \<Rightarrow> Map.empty
      | Some d \<Rightarrow> (\<lambda>path. map_option Some (d path)))"

definition all_findings_of ::
  "SecurityFinding list \<Rightarrow> ArchitectureFinding list \<Rightarrow> TestCoverageFinding list
   \<Rightarrow> PerformanceFinding list \<Rightarrow> BreakingChangeFinding list \<Rightarrow> finding list" where
  "all_findings_of sec arch cov perf brk =
     map Sec sec @ map Arch arch @ map Cov cov @ map Perf perf @ map Brk brk"

definition aggregate ::
  "string \<Rightarrow> SecurityFinding list \<Rightarrow> ArchitectureFinding list \<Rightarrow> TestCoverageFinding list
   \<Rightarrow> PerformanceFinding list \<Rightarrow> BreakingChangeFinding list \<Rightarrow> py_error + QualityCheckResult" where
  "aggregate mode_name sec arch cov perf brk =
     (let all_findings = all_findings_of sec arch cov perf brk
      in case count_severities all_findings of
           Inl e \<Rightarrow> Inl e
         | Inr severity_counts \<Rightarrow>
             (case determine_pass_status mode_name severity_counts of
                Inl e \<Rightarrow> Inl e
              | Inr ok \<Rightarrow>
                  make_result mode_name ok (length all_findings) severity_counts sec arch cov perf brk))"

text \<open>
  \<open>QualityCheckOrchestrator(mode).validate_pr\<close>: the validators run in the order security,
  architecture, test coverage, performance, breaking changes; an error raised by one of them, or
  by the aggregation, is the result.
\<close>

definition validate_pr ::
  "parser \<Rightarrow> string \<Rightarrow> string \<Rightarrow> string \<Rightarrow> (string \<times> string) list \<Rightarrow> (string \<rightharpoonup> string) option
   \<Rightarrow> py_error + QualityCheckResult" where
  "validate_pr parse mode_name pr_title pr_description changed_files old_files =
     (let sec = concat (map snd (SecurityValidator_validate_pr_changes changed_files))
      in case ArchitectureValidator_validate_project parse changed_files of
           Inl e \<Rightarrow> Inl e
         | Inr architecture_results \<Rightarrow>
             aggregate mode_name sec
               (concat (map snd architecture_results))
               (TestCoverageValidator_validate_pr parse pr_title pr_description changed_files)
               (concat (map snd (PerformanceValidator_validate_pr changed_files)))
               (BreakingChangesValidator_validate_pr parse changed_files (old_files_dict old_files)))"

subsection \<open>JSON export\<close>

text \<open>
  The values handed to \<open>json.dumps\<close>: \<open>asdict\<close> turns a finding into a dictionary of its
  fields and leaves a member of \<open>Severity\<close> as it is.
\<close>

datatype py_value =
    PNone
  | PBool bool
  | PInt int
  | PStr string
  | PList "py_value list"
  | PDict "(string \<times> py_value) list"
  | PEnum Severity

text \<open>
  The JSON document that \<open>json.dumps\<close> writes and \<open>json.loads\<close> reads back; the layout of
  the text is not modelled. An object that is none of the JSON types raises \<open>TypeError\<close>.
\<close>

datatype json =
    JNull
  | JBool bool
  | JNumber int
  | JString string
  | JArray "json list"
  | JObject "(string \<times> json) list"

fun json_dumps :: "py_value \<Rightarrow> py_error + json"
  and dumps_list :: "py_value list \<Rightarrow> py_error + json list"
  and dumps_items :: "(string \<times> py_value) list \<Rightarrow> py_error + (string \<times> json) list" where
  "json_dumps PNone = Inr JNull"
| "json_dumps (PBool b) = Inr (JBool b)"
| "json_dumps (PInt i) = Inr (JNumber i)"
| "json_dumps (PStr s) = Inr (JString s)"
| "json_dumps (PList vs) = (case dumps_list vs of Inl e \<Rightarrow> Inl e | Inr js \<Rightarrow> Inr (JArray js))"
| "json_dumps (PDict items) = (case dumps_items items of Inl e \<Rightarrow> Inl e | Inr js \<Rightarrow> Inr (JObject js))"
| "json_dumps (PEnum s) = Inl (TypeError ''Object of type Severity is not JSON serializable'')"
| "dumps_list [] = Inr []"
| "dumps_list (v # vs) =
     (case json_dumps v of
        Inl e \<Rightarrow> Inl e
      | Inr j \<Rightarrow> (case dumps_list vs of Inl e \<Rightarrow> Inl e | Inr js \<Rightarrow> Inr (j # js)))"
| "dumps_items [] = Inr []"
| "dumps_items ((k, v) # items) =
     (case json_dumps v of
        Inl e \<Rightarrow> Inl e
      | Inr j \<Rightarrow> (case dumps_items items of Inl e \<Rightarrow> Inl e | Inr js \<Rightarrow> Inr ((k, j) # js)))"

definition asdict_security :: "SecurityFinding \<Rightarrow> py_value" where
  "asdict_security f =
     PDict [(''check_name'', PStr (sf_check_name f)),
            (''severity'', PEnum (sf_severity f)),
            (''file_path'', PStr (sf_file_path f)),
            (''line_number'', PInt (sf_line_number f)),
            (''line_content'', PStr (sf_line_content f)),
            (''message'', PStr (sf_message f)),
            (''pattern_matched'', PStr (sf_pattern_matched f)),
            (''suggested_fix'', PStr (sf_suggested_fix f))]"

definition asdict_architecture :: "ArchitectureFinding \<Rightarrow> py_value" where
  "asdict_architecture f =
     PDict [(''check_name'', PStr (af_check_name f)),
            (''severity'', PStr (af_severity f)),
            (''file_path'', PStr (af_file_path f)),
            (''line_number'', PInt (af_line_number f)),
            (''message'', PStr (af_message f)),
            (''violated_rule'', PStr (af_violated_rule f)),
            (''suggested_fix'', PStr (af_suggested_fix f))]"

definition asdict_test_coverage :: "TestCoverageFinding \<Rightarrow> py_value" where
  "asdict_test_coverage f =
     PDict [(''check_name'', PStr (tf_check_name f)),
            (''severity'', PStr (tf_severity f)),
            (''file_path'', PStr (tf_file_path f)),
            (''function_name'', PStr (tf_function_name f)),
            (''line_number'', PInt (tf_line_number f)),
            (''message'', PStr (tf_message f)),
            (''suggested_fix'', PStr (tf_suggested_fix f))]"

definition asdict_performance :: "PerformanceFinding \<Rightarrow> py_value" where
  "asdict_performance f =
     PDict [(''check_name'', PStr (pf_check_name f)),
            (''severity'', PStr (pf_severity f)),
            (''file_path'', PStr (pf_file_path f)),
            (''line_number'', PInt (pf_line_number f)),
            (''line_content'', PStr (pf_line_content f)),
            (''message'', PStr (pf_message f)),
            (''impact'', PStr (pf_impact f)),
            (''suggested_fix'', PStr (pf_suggested_fix f))]"

definition asdict_breaking :: "BreakingChangeFinding \<Rightarrow> py_value" where
  "asdict_breaking f =
     PDict [(''check_name'', PStr (bf_check_name f)),
            (''severity'', PStr (bf_severity f)),
            (''file_path'', PStr (bf_file_path f)),
            (''line_number'', PInt (bf_line_number f)),
            (''change_type'', PStr (bf_change_type f)),
            (''element_name'', PStr (bf_element_name f)),
            (''message'', PStr (bf_message f)),
            (''requires_changelog'', PBool (bf_requires_changelog f)),
            (''suggested_changelog_entry'', PStr (bf_suggested_changelog_entry f))]"

definition result_dict :: "QualityCheckResult \<Rightarrow> py_value" where
  "result_dict result =
     PDict [(''passed'', PBool (passed result)),
            (''total_issues'', PInt (int (total_issues result))),
            (''severity_counts'',
             PDict [(''critical'', PInt (int (critical_issues result))),
                    (''high'', PInt (int (high_issues result))),
                    (''medium'', PInt (int (medium_issues result))),
                    (''low'', PInt (int (low_issues result)))]),
            (''mode'', PStr (mode result)),
            (''override_used'', PBool (override_used result)),
            (''override_justification'',
             (case override_justification result of None \<Rightarrow> PNone | Some j \<Rightarrow> PStr j)),
            (''findings'',
             PDict [(''security'', PList (map asdict_security (security_findings result))),
                    (''architecture'', PList (map asdict_architecture (architecture_findings result))),
                    (''test_coverage'', PList (map asdict_test_coverage (test_coverage_findings result))),
                    (''performance'', PList (map asdict_performance (performance_findings result))),
                    (''breaking_changes'', PList (map asdict_breaking (breaking_changes_findings result)))])]"

definition export_results_json :: "QualityCheckResult \<Rightarrow> py_error + json" where
  "export_results_json result = json_dumps (result_dict result)"

section \<open>Notions of the stated properties\<close>

text \<open>The four severity levels, as the strings the findings carry.\<close>

definition known_severities :: "string set" where
  "known_severities = {''critical'', ''high'', ''medium'', ''low''}"

text \<open>
  The severity of each finding of a result, by name, over the five lists; and the number of
  findings of a result that have a given severity.
\<close>

definition severity_names :: "QualityCheckResult \<Rightarrow> string list" where
  "severity_names r =
     map (\<lambda>f. severity_value (sf_severity f)) (security_findings r)
     @ map af_severity (architecture_findings r)
     @ map tf_severity (test_coverage_findings r)
     @ map pf_severity (performance_findings r)
     @ map bf_severity (breaking_changes_findings r)"

definition findings_with_severity :: "string \<Rightarrow> QualityCheckResult \<Rightarrow> nat" where
  "findings_with_severity name r = length (filter (\<lambda>s. s = name) (severity_names r))"

text \<open>
  What \<open>ast.parse\<close> guarantees of the line numbers: the nodes of a tree carry line numbers
  from 1.
\<close>

definition node_lines_ok :: "py_node \<Rightarrow> bool" where
  "node_lines_ok n =
     (case node_kind n of
        FunctionDef fd \<Rightarrow> 1 \<le> fd_lineno fd
      | AsyncFunctionDef fd \<Rightarrow> 1 \<le> fd_lineno fd
      | Import names line \<Rightarrow> 1 \<le> line
      | ImportFrom module line \<Rightarrow> 1 \<le> line
      | _ \<Rightarrow> True)"

definition parser_lines_ok :: "parser \<Rightarrow> bool" where
  "parser_lines_ok parse =
     (\<forall>content tree. parse content = Some tree \<longrightarrow> list_all node_lines_ok (ast_walk tree))"

text \<open>A finding that the counting loop counts under the key \<open>k\<close>.\<close>

definition counted :: "string \<Rightarrow> finding \<Rightarrow> bool" where
  "counted k f = (case severity_of f of EnumSeverity e \<Rightarrow> False | StrSeverity s \<Rightarrow> py_lower s = k)"


text \<open>
  The number of the first line of a file that holds a route decorator (\<^verbatim>\<open>@app.\<close> or
  \<^verbatim>\<open>@router.\<close> followed by a name), if there is such a line.
\<close>

definition first_route_line :: "string \<Rightarrow> int option" where
  "first_route_line content =
     (case filter (\<lambda>(line_num, line). re_found False route_line_pattern line) (lines_of content) of
        [] \<Rightarrow> None
      | (line_num, line) # _ \<Rightarrow> Some line_num)"

text \<open>
  The findings that concern a file or the project as a whole and not a line of a file, told by their check name and, where one check emits both kinds, by the change type or the
  message: the circular dependency finding; the finding of a source file without test file and the
  test quality findings; the findings of a removed class, function or file, of a function deleted
  from the interface, and of the changelog.
\<close>

definition whole_file_architecture :: "ArchitectureFinding \<Rightarrow> bool" where
  "whole_file_architecture f = (af_check_name f = ''circular_dependency'')"

definition whole_file_coverage :: "TestCoverageFinding \<Rightarrow> bool" where
  "whole_file_coverage f =
     (tf_check_name f = ''test_quality''
      \<or> (tf_check_name f = ''new_functions_have_tests''
          \<and> startswith (tf_message f) ''No test file found for ''))"

definition whole_file_breaking :: "BreakingChangeFinding \<Rightarrow> bool" where
  "whole_file_breaking f =
     (bf_check_name f = ''removed_public_methods''
      \<or> bf_check_name f = ''changelog_required''
      \<or> bf_check_name f = ''changelog_format''
      \<or> (bf_check_name f = ''api_signature_changes'' \<and> bf_change_type f = ''deleted''))"
section \<open>Example inputs\<close>

text \<open>
  A parser given by a table: the listed sources parse to the listed trees, every other text
  is a syntax error.
\<close>

definition fun_node :: "string \<Rightarrow> int \<Rightarrow> py_arg list \<Rightarrow> string list \<Rightarrow> py_node" where
  "fun_node name line args defaults =
     Node (FunctionDef \<lparr>fd_name = name, fd_lineno = line, fd_end_lineno = Some (line + 1),
                        fd_args = args, fd_defaults = defaults, fd_returns = None\<rparr>)
          [Node OtherNode []]"

definition plain_arg :: "string \<Rightarrow> py_arg" where
  "plain_arg n = \<lparr>arg_name = n, arg_annotation = None\<rparr>"

text \<open>The sources \<^verbatim>\<open>def f(a): pass\<close> and \<^verbatim>\<open>def f(a, b=False): pass\<close>, on two lines each.\<close>

definition src_f_a :: string where
  "src_f_a = ''def f(a):'' @ [CHR 0x0A] @ ''    pass''"

definition src_f_a_b_default :: string where
  "src_f_a_b_default = ''def f(a, b=False):'' @ [CHR 0x0A] @ ''    pass''"

definition parse_f :: parser where
  "parse_f = map_of
     [(src_f_a, Node OtherNode [fun_node ''f'' 1 [plain_arg ''a''] []]),
      (src_f_a_b_default,
       Node OtherNode [fun_node ''f'' 1 [plain_arg ''a'', plain_arg ''b''] [''False'']])]"

text \<open>A parser that rejects every text.\<close>

definition parse_none :: parser where
  "parse_none = (\<lambda>content. None)"

definition changeset_migration :: "(string \<times> string) list" where
  "changeset_migration = [(''migrations/m1.py'', ''op.drop_table(x)'')]"

text \<open>The lines \<^verbatim>\<open>apikey = "abc123"\<close>, \<^verbatim>\<open>API_KEY = "sk_live_12"\<close> and \<^verbatim>\<open>password = "test123"\<close>.\<close>

definition apikey_line :: string where
  "apikey_line = ''apikey = '' @ dq @ ''abc123'' @ dq"

definition key_line :: string where
  "key_line = ''API_KEY = '' @ dq @ ''sk_live_12'' @ dq"

definition test_password_line :: string where
  "test_password_line = ''password = '' @ dq @ ''test123'' @ dq"

definition key_file :: string where
  "key_file = ''# settings'' @ [CHR 0x0A] @ key_line @ [CHR 0x0A] @ test_password_line"

definition api_key_pattern :: string where
  "api_key_pattern = fst (CREDENTIAL_PATTERNS ! 0)"

definition api_key_regex :: regex where
  "api_key_regex = fst (snd (CREDENTIAL_PATTERNS ! 0))"

definition password_pattern :: string where
  "password_pattern = fst (CREDENTIAL_PATTERNS ! 4)"

definition password_regex :: regex where
  "password_regex = fst (snd (CREDENTIAL_PATTERNS ! 4))"

text \<open>
  Two modules of one package that import each other, as in the repository's test
  \<open>test_circular_dependency_detected\<close>.
\<close>

definition mutual_imports :: "(string \<times> string) list" where
  "mutual_imports =
     [(''services/user_service.py'', ''from services.order_service import OrderService''),
      (''services/order_service.py'', ''from services.user_service import UserService'')]"

text \<open>
  A service module with one import, a module holding a password, and a migration that drops a
  table; each source with its tree.
\<close>

definition src_import_os :: string where
  "src_import_os = ''import os''"

definition src_pwd :: string where
  "src_pwd = ''pwd='' @ dq @ ''x'' @ dq"

definition src_drop_table :: string where
  "src_drop_table = ''drop_table''"

definition parse_examples :: parser where
  "parse_examples = map_of
     [(src_import_os, Node OtherNode [Node (Import [''os''] 1) []]),
      (src_pwd, Node OtherNode [Node OtherNode []]),
      (src_drop_table, Node OtherNode [Node OtherNode []])]"

definition service_changeset :: "(string \<times> string) list" where
  "service_changeset = [(''services/user_service.py'', src_import_os)]"

definition password_changeset :: "(string \<times> string) list" where
  "password_changeset = [(''src/bad.py'', src_pwd)]"

definition drop_table_changeset :: "(string \<times> string) list" where
  "drop_table_changeset = [(''migrations/m1.py'', src_drop_table)]"

definition drop_table_findings :: "BreakingChangeFinding list" where
  "drop_table_findings =
     [schema_finding ''migrations/m1.py'' 1 ''removed_table'' ''Removing table is a breaking change'',
      missing_changelog_finding
        [schema_finding ''migrations/m1.py'' 1 ''removed_table'' ''Removing table is a breaking change'']]"

definition drop_table_result :: "string \<Rightarrow> bool \<Rightarrow> QualityCheckResult" where
  "drop_table_result mode_name ok =
     \<lparr>passed = ok,
      total_issues = 2,
      critical_issues = 1,
      high_issues = 1,
      medium_issues = 0,
      low_issues = 0,
      security_findings = [],
      architecture_findings = [],
      test_coverage_findings = [],
      performance_findings = [],
      breaking_changes_findings = drop_table_findings,
      mode = mode_name,
      override_used = False,
      override_justification = None\<rparr>"

text \<open>A result that holds one security finding.\<close>

definition result_with_security_finding :: QualityCheckResult where
  "result_with_security_finding =
     \<lparr>passed = True,
      total_issues = 1,
      critical_issues = 1,
      high_issues = 0,
      medium_issues = 0,
      low_issues = 0,
      security_findings = [credential_finding ''src/bad.py'' 1 src_pwd ''Password'' (fst (CREDENTIAL_PATTERNS ! 6))],
      architecture_findings = [],
      test_coverage_findings = [],
      performance_findings = [],
      breaking_changes_findings = [],
      mode = ''warning'',
      override_used = False,
      override_justification = None\<rparr>"


text \<open>
  A routes file of four lines, \<^verbatim>\<open>pass\<close>, an empty line, \<^verbatim>\<open>@app.get("/")\<close> and
  \<^verbatim>\<open>def u(): pass\<close>, with its tree: the route decorator is on line 3, the function on
  line 4.
\<close>

definition src_route :: string where
  "src_route = ''pass'' @ nl @ nl @ ''@app.get('' @ dq @ ''/'' @ dq @ '')'' @ nl @ ''def u(): pass''"

definition parse_route :: parser where
  "parse_route = map_of
     [(src_route,
       Node OtherNode
         [Node OtherNode [],
          Node (FunctionDef \<lparr>fd_name = ''u'', fd_lineno = 4, fd_end_lineno = Some 4,
                             fd_args = [], fd_defaults = [], fd_returns = None\<rparr>)
               [Node OtherNode [], Node OtherNode [], Node OtherNode []]])]"

definition route_changeset :: "(string \<times> string) list" where
  "route_changeset = [(''api/u.py'', src_route)]"

text \<open>
  Two modules at the top of the project that import each other, \<^verbatim>\<open>a.py\<close> holding
  \<^verbatim>\<open>import b\<close> and \<^verbatim>\<open>b.py\<close> holding \<^verbatim>\<open>import a\<close>, with their trees.
\<close>

definition cycle_changeset :: "(string \<times> string) list" where
  "cycle_changeset = [(''a.py'', ''import b''), (''b.py'', ''import a'')]"

definition parse_cycle :: parser where
  "parse_cycle = map_of
     [(''import b'', Node OtherNode [Node (Import [''b''] 1) []]),
      (''import a'', Node OtherNode [Node (Import [''a''] 1) []])]"
section \<open>Breaking changes: new files, deleted files, optional parameters\<close>

lemma new_file_api:
  "old_files p = None \<Longrightarrow> APISignatureChangeCheck_check parse p (dict_get old_files p) c = []"
  by (simp add: APISignatureChangeCheck_check_def dict_get_def)

lemma new_file_removed:
  "old_files p = None \<Longrightarrow> RemovedPublicMethodsCheck_check parse p (dict_get old_files p) n = []"
  by (simp add: RemovedPublicMethodsCheck_check_def dict_get_def)

lemma per_file_new:
  "old_files (fst item) = None \<Longrightarrow>
   per_file_breaking parse old_files item = DatabaseSchemaChangeCheck_check (fst item) (snd item)"
  by (cases item) (simp add: per_file_breaking_def new_file_api new_file_removed)

text \<open>
  C10. A file without entry in the prior-content mapping gets no finding from the API signature
  check and none from the removed-public-methods check; when no file of the changeset has such an
  entry, the validator's findings are those of the database schema check, file by file, followed by
  those of the changelog check on them.
\<close>

theorem new_files_only_schema_and_changelog:
  "(old_files p = None \<longrightarrow>
      APISignatureChangeCheck_check parse p (dict_get old_files p) c = [] \<and>
      RemovedPublicMethodsCheck_check parse p (dict_get old_files p) (Some c) = []) \<and>
   ((\<forall>item \<in> set changed_files. old_files (fst item) = None) \<longrightarrow>
      BreakingChangesValidator_validate_pr parse changed_files old_files =
        (let schema = concat (map (\<lambda>item. DatabaseSchemaChangeCheck_check (fst item) (snd item))
                                  changed_files)
         in schema @ ChangelogRequirementCheck_check changed_files schema))"
proof (intro conjI impI)
  assume "old_files p = None"
  then show "APISignatureChangeCheck_check parse p (dict_get old_files p) c = []"
    by (rule new_file_api)
next
  assume "old_files p = None"
  then show "RemovedPublicMethodsCheck_check parse p (dict_get old_files p) (Some c) = []"
    by (rule new_file_removed)
next
  assume new: "\<forall>item \<in> set changed_files. old_files (fst item) = None"
  have eq: "map (per_file_breaking parse old_files) changed_files =
        map (\<lambda>item. DatabaseSchemaChangeCheck_check (fst item) (snd item)) changed_files"
    by (rule map_cong [OF refl]) (simp add: new per_file_new)
  show "BreakingChangesValidator_validate_pr parse changed_files old_files =
        (let schema = concat (map (\<lambda>item. DatabaseSchemaChangeCheck_check (fst item) (snd item))
                                  changed_files)
         in schema @ ChangelogRequirementCheck_check changed_files schema)"
    by (simp only: BreakingChangesValidator_validate_pr_def eq)
qed

theorem new_files_only_schema_and_changelog_witness:
  "Map.empty ''migrations/m1.py'' = (None :: string option option) \<and>
   APISignatureChangeCheck_check parse_none ''migrations/m1.py''
     (dict_get Map.empty ''migrations/m1.py'') ''op.drop_table(x)'' = [] \<and>
   map bf_check_name (BreakingChangesValidator_validate_pr parse_none changeset_migration Map.empty)
     = [''database_schema_changes'', ''changelog_required'']"
proof -
  have h1: "Map.empty ''migrations/m1.py'' = (None :: string option option)"
    by simp
  have h2: "\<forall>item \<in> set changeset_migration. Map.empty (fst item) = (None :: string option option)"
    by simp
  note inst = new_files_only_schema_and_changelog
    [of Map.empty "''migrations/m1.py''" parse_none "''op.drop_table(x)''" changeset_migration]
  have c1: "APISignatureChangeCheck_check parse_none ''migrations/m1.py''
     (dict_get Map.empty ''migrations/m1.py'') ''op.drop_table(x)'' = []"
    using inst h1 by blast
  have c2: "BreakingChangesValidator_validate_pr parse_none changeset_migration Map.empty =
        (let schema = concat (map (\<lambda>item. DatabaseSchemaChangeCheck_check (fst item) (snd item))
                                  changeset_migration)
         in schema @ ChangelogRequirementCheck_check changeset_migration schema)"
    using inst h2 by blast
  have ev: "map bf_check_name
        (let schema = concat (map (\<lambda>item. DatabaseSchemaChangeCheck_check (fst item) (snd item))
                                  changeset_migration)
         in schema @ ChangelogRequirementCheck_check changeset_migration schema)
      = [''database_schema_changes'', ''changelog_required'']"
    by code_simp
  show ?thesis
    unfolding c2 using h1 c1 ev by blast
qed

text \<open>
  C9. A file that is in the prior-content mapping and not in the changeset is never visited by the
  validator: for the deleted file \<open>api/views.py\<close>, whose prior content declares the public function
  \<open>f\<close>, the validator returns no finding, while the check it would call returns the file-level
  finding.
\<close>

theorem deleted_file_not_reported:
  "BreakingChangesValidator_validate_pr parse_f [] [''api/views.py'' \<mapsto> Some src_f_a] = [] \<and>
   map (\<lambda>f. (bf_severity f, bf_change_type f, bf_line_number f))
     (RemovedPublicMethodsCheck_check parse_f ''api/views.py'' (Some src_f_a) None)
     = [(''critical'', ''deleted_file'', 1)]"
  by code_simp

text \<open>
  C4. In an API file, going from \<open>f(a)\<close> to \<open>f(a, b=False)\<close> yields one high-severity
  \<open>modified\<close> finding for \<open>f\<close>: the signature is built from the parameter names alone, so
  a default does not tell the optional parameter from a required one.
\<close>

theorem optional_parameter_reported_as_modified:
  "map (\<lambda>f. (bf_severity f, bf_change_type f, bf_element_name f))
     (APISignatureChangeCheck_check parse_f ''api/views.py'' (Some src_f_a) src_f_a_b_default)
     = [(''high'', ''modified'', ''f'')]"
  by code_simp

section \<open>Hardcoded credentials: one finding per pattern and match\<close>

lemma concat_map_single:
  "distinct (map key xs) \<Longrightarrow> x \<in> set xs \<Longrightarrow>
   (\<And>y. y \<in> set xs \<Longrightarrow> key y \<noteq> key x \<Longrightarrow> G y = []) \<Longrightarrow>
   concat (map G xs) = G x"
proof (induction xs)
  case Nil
  then show ?case by simp
next
  case (Cons a xs)
  show ?case
  proof (cases "a = x")
    case True
    have "\<And>y. y \<in> set xs \<Longrightarrow> G y = []"
    proof -
      fix y assume y: "y \<in> set xs"
      with Cons.prems(1) True have "key y \<noteq> key x" by (auto simp: image_iff)
      with Cons.prems(3) y show "G y = []" by simp
    qed
    then have "concat (map G xs) = []" by simp
    with True show ?thesis by simp
  next
    case False
    with Cons.prems have xin: "x \<in> set xs" by simp
    with Cons.prems(1) have "key a \<noteq> key x" by (auto simp: image_iff)
    with Cons.prems(3) have "G a = []" by simp
    moreover have "concat (map G xs) = G x"
      using Cons.IH Cons.prems xin by simp
    ultimately show ?thesis by simp
  qed
qed

lemma fst_enum_from: "map fst (enum_from n xs) = map (\<lambda>i. n + int i) [0..<length xs]"
proof (induction xs arbitrary: n)
  case Nil
  then show ?case by simp
next
  case (Cons x xs)
  have "map (\<lambda>i. n + int i) [0..<Suc (length xs)]
        = n # map (\<lambda>i. n + int (Suc i)) [0..<length xs]"
    by (simp add: upt_conv_Cons map_Suc_upt[symmetric] del: upt_Suc)
  with Cons show ?case by (simp add: algebra_simps)
qed

lemma distinct_enum_from: "distinct (map fst (enum_from n xs))"
  by (simp add: fst_enum_from distinct_map inj_on_def)

lemma distinct_credential_patterns: "distinct (map fst CREDENTIAL_PATTERNS)"
  by code_simp

lemma line_findings_line_number:
  "f \<in> set (credential_line_findings file_path ln l entry) \<Longrightarrow> sf_line_number f = ln"
  by (cases entry) (auto simp: credential_line_findings_def credential_finding_def)

lemma line_findings_pattern:
  "f \<in> set (credential_line_findings file_path ln l entry) \<Longrightarrow> sf_pattern_matched f = fst entry"
  by (cases entry) (auto simp: credential_line_findings_def credential_finding_def)

lemma credential_per_line_line_number:
  "f \<in> set (credential_per_line file_path item) \<Longrightarrow> sf_line_number f = fst item"
  by (cases item)
     (auto simp: credential_per_line_def dest: line_findings_line_number split: if_splits)

text \<open>
  C7, as amended. For an entry of the credential table and a line of the content that is not a
  comment and that the entry's pattern matches exactly once: the findings of the check that carry
  this pattern and this line number are exactly one finding, critical and naming the entry's
  credential type, when no exclusion pattern occurs in the matched text, and none when one does.
  Other entries of the table that match the line add findings of their own.
\<close>

theorem credentials_one_finding_per_pattern:
  assumes entry: "(pattern, rx, cred_type) \<in> set CREDENTIAL_PATTERNS"
      and line: "(line_num, line) \<in> set (lines_of content)"
      and nocomment: "\<not> is_comment_line line"
      and once: "re_finditer True rx line = [m]"
  shows "filter (\<lambda>f. sf_pattern_matched f = pattern \<and> sf_line_number f = line_num)
           (HardcodedCredentialsCheck_check file_path content)
         = (if is_excluded (m_text m) then []
            else [credential_finding file_path line_num line cred_type pattern])
         \<and> sf_severity (credential_finding file_path line_num line cred_type pattern) = CRITICAL
         \<and> sf_message (credential_finding file_path line_num line cred_type pattern)
           = ''Hardcoded '' @ cred_type @ '' detected. Use environment variables or AWS Secrets Manager.''"
proof -
  let ?P = "\<lambda>f. sf_pattern_matched f = pattern \<and> sf_line_number f = line_num"
  have "filter ?P (HardcodedCredentialsCheck_check file_path content)
        = concat (map (\<lambda>item. filter ?P (credential_per_line file_path item)) (lines_of content))"
    by (simp add: HardcodedCredentialsCheck_check_def filter_concat comp_def)
  also have "\<dots> = filter ?P (credential_per_line file_path (line_num, line))"
  proof (rule concat_map_single [where key = fst])
    show "distinct (map fst (lines_of content))"
      by (simp add: lines_of_def distinct_enum_from)
    show "(line_num, line) \<in> set (lines_of content)" by (rule line)
  next
    fix y assume "y \<in> set (lines_of content)" and ne: "fst y \<noteq> fst (line_num, line)"
    show "filter ?P (credential_per_line file_path y) = []"
      using ne by (auto simp: filter_empty_conv dest: credential_per_line_line_number)
  qed
  also have "\<dots> = concat (map (\<lambda>e. filter ?P (credential_line_findings file_path line_num line e))
                              CREDENTIAL_PATTERNS)"
    using nocomment by (simp add: credential_per_line_def filter_concat comp_def)
  also have "\<dots> = filter ?P (credential_line_findings file_path line_num line (pattern, rx, cred_type))"
  proof (rule concat_map_single [where key = fst])
    show "distinct (map fst CREDENTIAL_PATTERNS)" by (rule distinct_credential_patterns)
    show "(pattern, rx, cred_type) \<in> set CREDENTIAL_PATTERNS" by (rule entry)
  next
    fix y assume "y \<in> set CREDENTIAL_PATTERNS" and ne: "fst y \<noteq> fst (pattern, rx, cred_type)"
    show "filter ?P (credential_line_findings file_path line_num line y) = []"
      using ne by (auto simp: filter_empty_conv dest: line_findings_pattern)
  qed
  also have "\<dots> = (if is_excluded (m_text m) then []
            else [credential_finding file_path line_num line cred_type pattern])"
    by (simp add: credential_line_findings_def once credential_finding_def)
  finally show ?thesis
    by (simp add: credential_finding_def)
qed

theorem credentials_one_finding_per_pattern_witness:
  "filter (\<lambda>f. sf_pattern_matched f = api_key_pattern \<and> sf_line_number f = 2)
     (HardcodedCredentialsCheck_check ''src/settings.py'' key_file)
     = [credential_finding ''src/settings.py'' 2 key_line ''API key'' api_key_pattern]
   \<and> filter (\<lambda>f. sf_pattern_matched f = password_pattern \<and> sf_line_number f = 3)
     (HardcodedCredentialsCheck_check ''src/settings.py'' key_file) = []"
proof -
  have e1: "(api_key_pattern, api_key_regex, ''API key'') \<in> set CREDENTIAL_PATTERNS"
    by code_simp
  have e2: "(password_pattern, password_regex, ''Password'') \<in> set CREDENTIAL_PATTERNS"
    by code_simp
  have l1: "(2, key_line) \<in> set (lines_of key_file)"
    by code_simp
  have l2: "(3, test_password_line) \<in> set (lines_of key_file)"
    by code_simp
  have n1: "\<not> is_comment_line key_line"
    by code_simp
  have n2: "\<not> is_comment_line test_password_line"
    by code_simp
  have m1: "re_finditer True api_key_regex key_line
            = [\<lparr>m_start = 0, m_text = key_line, m_groups = []\<rparr>]"
    by code_simp
  have m2: "re_finditer True password_regex test_password_line
            = [\<lparr>m_start = 0, m_text = test_password_line, m_groups = []\<rparr>]"
    by code_simp
  have x1: "\<not> is_excluded key_line"
    by code_simp
  have x2: "is_excluded test_password_line"
    by code_simp
  from credentials_one_finding_per_pattern [OF e1 l1 n1 m1, of "''src/settings.py''"] x1
  have r1: "filter (\<lambda>f. sf_pattern_matched f = api_key_pattern \<and> sf_line_number f = 2)
     (HardcodedCredentialsCheck_check ''src/settings.py'' key_file)
     = [credential_finding ''src/settings.py'' 2 key_line ''API key'' api_key_pattern]"
    by simp
  from credentials_one_finding_per_pattern [OF e2 l2 n2 m2, of "''src/settings.py''"] x2
  have r2: "filter (\<lambda>f. sf_pattern_matched f = password_pattern \<and> sf_line_number f = 3)
     (HardcodedCredentialsCheck_check ''src/settings.py'' key_file) = []"
    by simp
  from r1 r2 show ?thesis by (rule conjI)
qed

text \<open>
  The claim as stated fails on the line \<^verbatim>\<open>apikey = "abc123"\<close>: the second entry of the table
  matches it exactly once, no exclusion pattern occurs in the match, and the check returns two
  critical findings that name the credential type \<open>API key\<close>, since the first entry matches the
  line too.
\<close>

theorem apikey_line_two_findings:
  "map m_text (re_finditer True (fst (snd (CREDENTIAL_PATTERNS ! 1))) apikey_line) = [apikey_line]
   \<and> snd (snd (CREDENTIAL_PATTERNS ! 1)) = ''API key''
   \<and> \<not> is_comment_line apikey_line
   \<and> \<not> is_excluded apikey_line
   \<and> map sf_severity (HardcodedCredentialsCheck_check ''config.py'' apikey_line)
     = [CRITICAL, CRITICAL]
   \<and> map sf_message (HardcodedCredentialsCheck_check ''config.py'' apikey_line)
     = [''Hardcoded API key detected. Use environment variables or AWS Secrets Manager.'',
        ''Hardcoded API key detected. Use environment variables or AWS Secrets Manager.'']"
  by code_simp

section \<open>Circular dependencies between modules of a package\<close>

text \<open>
  C5. For the two files \<open>services/user_service.py\<close> and \<open>services/order_service.py\<close>, each
  importing the other, the graph has the edges \<open>services.user_service \<rightarrow> services\<close> and
  \<open>services.order_service \<rightarrow> services\<close>, since an import target is cut at its first dot while
  a node keeps the whole dotted path; no cycle is found and the check returns no finding.
\<close>

theorem package_modules_cycle_missed:
  "build_dependency_graph mutual_imports
     = [(''services.user_service'', [''services'']), (''services.order_service'', [''services''])]
   \<and> CircularDependencyCheck_check_project mutual_imports = []"
  by code_simp

section \<open>What the validators emit: severities and line numbers\<close>

lemma enum_from_ge: "(n, x) \<in> set (enum_from k xs) \<Longrightarrow> k \<le> n"
  by (induction xs arbitrary: k) (auto, fastforce)

lemma lines_of_ge: "(n, l) \<in> set (lines_of content) \<Longrightarrow> 1 \<le> n"
  unfolding lines_of_def by (rule enum_from_ge)

lemma n_plus_one_ok:
  "1 \<le> k \<Longrightarrow> f \<in> set (n_plus_one_scan fp k ls) \<Longrightarrow> pf_severity f \<in> known_severities \<and> 1 \<le> pf_line_number f"
proof (induction ls arbitrary: k)
  case Nil
  then show ?case by simp
next
  case (Cons a ls)
  from Cons.prems(2) have "f = n_plus_one_finding fp k a \<or> f \<in> set (n_plus_one_scan fp (k + 1) ls)"
    by (auto split: if_splits)
  then show ?case
  proof
    assume "f = n_plus_one_finding fp k a"
    with Cons.prems(1) show ?thesis by (simp add: n_plus_one_finding_def known_severities_def)
  next
    assume "f \<in> set (n_plus_one_scan fp (k + 1) ls)"
    moreover from Cons.prems(1) have "1 \<le> k + 1" by simp
    ultimately show ?thesis by (rule Cons.IH[rotated])
  qed
qed

lemma n_plus_one_check_ok:
  assumes "f \<in> set (NPlusOneQueryCheck_check fp c)"
  shows "pf_severity f \<in> known_severities \<and> 1 \<le> pf_line_number f"
proof -
  from assms have "f \<in> set (n_plus_one_scan fp 1 (py_split (CHR 0x0A) c))"
    unfolding NPlusOneQueryCheck_check_def by (simp split: if_splits)
  then show ?thesis by (rule n_plus_one_ok[rotated]) simp
qed

lemma index_check_ok:
  "f \<in> set (DatabaseIndexCheck_check fp c) \<Longrightarrow> pf_severity f \<in> known_severities \<and> 1 \<le> pf_line_number f"
  unfolding DatabaseIndexCheck_check_def Let_def
  by (cases "py_in ''models/'' fp \<or> py_in ''model.py'' fp")
     (auto simp: index_finding_def known_severities_def split: if_splits)

lemma nested_ok:
  "\<forall>x \<in> set ls. 1 \<le> fst x \<Longrightarrow> f \<in> set (nested_loops_scan fp st ls)
   \<Longrightarrow> pf_severity f \<in> known_severities \<and> 1 \<le> pf_line_number f"
proof (induction ls arbitrary: st)
  case Nil
  then show ?case by simp
next
  case (Cons a ls)
  obtain n l where a: "a = (n, l)" by (cases a)
  from Cons.prems(1) a have n: "1 \<le> n" and rest: "\<forall>x \<in> set ls. 1 \<le> fst x" by auto
  from Cons.prems(2) a have
    "f = nested_loop_finding fp n l \<or> (\<exists>st'. f \<in> set (nested_loops_scan fp st' ls))"
    by (auto simp: Let_def split: if_splits)
  then show ?case
  proof
    assume "f = nested_loop_finding fp n l"
    with n show ?thesis by (simp add: nested_loop_finding_def known_severities_def)
  next
    assume "\<exists>st'. f \<in> set (nested_loops_scan fp st' ls)"
    then obtain st' where "f \<in> set (nested_loops_scan fp st' ls)" ..
    with rest show ?thesis by (rule Cons.IH)
  qed
qed

lemma invariant_ok:
  "\<forall>x \<in> set ls. 1 \<le> fst x \<Longrightarrow> f \<in> set (loop_invariants_scan fp b ls)
   \<Longrightarrow> pf_severity f \<in> known_severities \<and> 1 \<le> pf_line_number f"
proof (induction ls arbitrary: b)
  case Nil
  then show ?case by simp
next
  case (Cons a ls)
  obtain n l where a: "a = (n, l)" by (cases a)
  from Cons.prems(1) a have n: "1 \<le> n" and rest: "\<forall>x \<in> set ls. 1 \<le> fst x" by auto
  from Cons.prems(2) a have
    "f = loop_invariant_finding fp n l \<or> (\<exists>b'. f \<in> set (loop_invariants_scan fp b' ls))"
    by (auto simp: Let_def split: if_splits)
  then show ?case
  proof
    assume "f = loop_invariant_finding fp n l"
    with n show ?thesis by (simp add: loop_invariant_finding_def known_severities_def)
  next
    assume "\<exists>b'. f \<in> set (loop_invariants_scan fp b' ls)"
    then obtain b' where "f \<in> set (loop_invariants_scan fp b' ls)" ..
    with rest show ?thesis by (rule Cons.IH)
  qed
qed

lemma enum_lines_ge: "\<forall>x \<in> set (enum_from 1 ls). 1 \<le> fst x"
  by (auto dest: enum_from_ge)

lemma inefficient_ok:
  "f \<in> set (check_inefficient_list_ops fp ls) \<Longrightarrow> pf_severity f \<in> known_severities \<and> 1 \<le> pf_line_number f"
  by (auto simp: check_inefficient_list_ops_def inefficient_finding_def known_severities_def
      dest: enum_from_ge split: if_splits)

lemma leak_ok:
  "f \<in> set (MemoryLeakCheck_check fp c) \<Longrightarrow> pf_severity f \<in> known_severities \<and> 1 \<le> pf_line_number f"
  by (auto simp: MemoryLeakCheck_check_def leak_finding_def known_severities_def
      dest: lines_of_ge split: if_splits)

lemma complexity_ok:
  "f \<in> set (AlgorithmComplexityCheck_check fp c) \<Longrightarrow> pf_severity f \<in> known_severities \<and> 1 \<le> pf_line_number f"
  unfolding AlgorithmComplexityCheck_check_def Let_def check_nested_loops_def check_loop_invariants_def
  by (cases "py_in ''test_'' fp \<or> py_in ''/tests/'' fp")
     (auto dest: nested_ok[OF enum_lines_ge] invariant_ok[OF enum_lines_ge] inefficient_ok)

lemma perf_file_ok:
  "f \<in> set (PerformanceValidator_validate_file fp c) \<Longrightarrow> pf_severity f \<in> known_severities \<and> 1 \<le> pf_line_number f"
  unfolding PerformanceValidator_validate_file_def
  by (auto dest: n_plus_one_check_ok index_check_ok complexity_ok leak_ok)


lemma dict_set_items:
  "(k', v') \<in> set (dict_set k v d) \<Longrightarrow> v' = v \<or> (k', v') \<in> set d"
  by (induction d) (auto split: if_splits)

lemma dict_set_values:
  "set (concat (map snd (dict_set k v d))) \<subseteq> set v \<union> set (concat (map snd d))"
  by (auto dest!: dict_set_items)

lemma foldl_invariant:
  "P acc \<Longrightarrow> (\<And>a x. P a \<Longrightarrow> x \<in> set xs \<Longrightarrow> P (step a x)) \<Longrightarrow> P (foldl step acc xs)"
  by (induction xs arbitrary: acc) auto

lemma results_by_file_values:
  assumes "\<And>fp c f. f \<in> set (validate_file fp c) \<Longrightarrow> P f"
      and "f \<in> set (concat (map snd (results_by_file validate_file changed_files)))"
  shows "P f"
proof -
  let ?I = "\<lambda>results. \<forall>f \<in> set (concat (map snd results)). P f"
  have "?I (results_by_file validate_file changed_files)"
    unfolding results_by_file_def
  proof (rule foldl_invariant)
    show "?I []" by simp
  next
    fix a :: "(string \<times> 'a list) list" and x :: "string \<times> string"
    assume a: "?I a"
    obtain fp c where x: "x = (fp, c)" by (cases x)
    have "?I (dict_set fp (validate_file fp c) a)"
      using a assms(1) dict_set_values [of fp "validate_file fp c" a] by blast
    with a x show "?I (case x of (file_path, content) \<Rightarrow>
              let findings = validate_file file_path content
              in if truthy findings then dict_set file_path findings a else a)"
      by (simp add: Let_def)
  qed
  with assms(2) show ?thesis by blast
qed

lemma perf_pr_ok:
  "f \<in> set (concat (map snd (PerformanceValidator_validate_pr cf)))
   \<Longrightarrow> pf_severity f \<in> known_severities \<and> 1 \<le> pf_line_number f"
  unfolding PerformanceValidator_validate_pr_def
  by (rule results_by_file_values [where P = "\<lambda>f. pf_severity f \<in> known_severities \<and> 1 \<le> pf_line_number f"])
     (rule perf_file_ok)

lemma security_file_lines:
  "f \<in> set (SecurityValidator_validate_file fp c) \<Longrightarrow> 1 \<le> sf_line_number f"
  by (auto simp: SecurityValidator_validate_file_def HardcodedCredentialsCheck_check_def
        credential_per_line_def credential_line_findings_def credential_finding_def
        SQLInjectionCheck_check_def sql_finding_def SensitiveDataLoggingCheck_check_def
        logging_finding_def UnsafeDeserializationCheck_check_def unsafe_finding_def
      dest: lines_of_ge split: if_splits)

lemma security_pr_lines:
  "f \<in> set (concat (map snd (SecurityValidator_validate_pr_changes cf))) \<Longrightarrow> 1 \<le> sf_line_number f"
  unfolding SecurityValidator_validate_pr_changes_def
  by (rule results_by_file_values [where P = "\<lambda>f. 1 \<le> sf_line_number f"])
     (rule security_file_lines)

lemma api_severity:
  "f \<in> set (APISignatureChangeCheck_check parse fp old new) \<Longrightarrow> bf_severity f \<in> known_severities"
  by (auto simp: APISignatureChangeCheck_check_def modified_finding_def deleted_finding_def
        known_severities_def Let_def split: if_splits option.splits)

lemma removed_severity:
  "f \<in> set (RemovedPublicMethodsCheck_check parse fp old new)
   \<Longrightarrow> bf_severity f \<in> known_severities \<and> 1 \<le> bf_line_number f"
  by (auto simp: RemovedPublicMethodsCheck_check_def deleted_file_finding_def
        removed_element_finding_def known_severities_def Let_def split: if_splits option.splits)

lemma schema_ok:
  "f \<in> set (DatabaseSchemaChangeCheck_check fp c)
   \<Longrightarrow> bf_severity f \<in> known_severities \<and> 1 \<le> bf_line_number f"
  by (auto simp: DatabaseSchemaChangeCheck_check_def schema_finding_def known_severities_def
      dest: lines_of_ge split: if_splits)

lemma changelog_ok:
  "f \<in> set (ChangelogRequirementCheck_check cf found)
   \<Longrightarrow> bf_severity f \<in> known_severities \<and> 1 \<le> bf_line_number f"
  by (auto simp: ChangelogRequirementCheck_check_def missing_changelog_finding_def
        changelog_format_finding_def known_severities_def split: if_splits list.splits)

lemma breaking_severity:
  "f \<in> set (BreakingChangesValidator_validate_pr parse cf old) \<Longrightarrow> bf_severity f \<in> known_severities"
  by (auto simp: BreakingChangesValidator_validate_pr_def per_file_breaking_def Let_def
      dest: api_severity removed_severity schema_ok changelog_ok)

lemma ast_walk_ok: "parser_lines_ok parse \<Longrightarrow> parse c = Some tree \<Longrightarrow> n \<in> set (ast_walk tree) \<Longrightarrow> node_lines_ok n"
  by (auto simp: parser_lines_ok_def list_all_iff)

lemma fundef_line: "node_lines_ok n \<Longrightarrow> fundef_of n = Some fd \<Longrightarrow> 1 \<le> fd_lineno fd"
  by (auto simp: node_lines_ok_def fundef_of_def split: py_kind.splits)

lemma extract_signatures_lines:
  assumes ok: "parser_lines_ok parse"
  shows "\<forall>item \<in> set (extract_signatures parse c). 1 \<le> sig_line (snd item)"
proof (cases "parse c")
  case None
  then show ?thesis by (simp add: extract_signatures_def)
next
  case (Some tree)
  let ?I = "\<lambda>sigs :: (string \<times> signature_info) list. \<forall>item \<in> set sigs. 1 \<le> sig_line (snd item)"
  have "?I (foldl (\<lambda>signatures node.
                   case fundef_of node of
                     None \<Rightarrow> signatures
                   | Some fd \<Rightarrow>
                       if startswith (fd_name fd) ''_'' then signatures
                       else dict_set (fd_name fd) (signature_of fd) signatures)
                [] (ast_walk tree))"
  proof (rule foldl_invariant)
    show "?I []" by simp
  next
    fix a :: "(string \<times> signature_info) list" and x
    assume a: "?I a" and x: "x \<in> set (ast_walk tree)"
    show "?I (case fundef_of x of
                     None \<Rightarrow> a
                   | Some fd \<Rightarrow>
                       if startswith (fd_name fd) ''_'' then a
                       else dict_set (fd_name fd) (signature_of fd) a)"
    proof (cases "fundef_of x")
      case None
      with a show ?thesis by simp
    next
      case (Some fd)
      from ok \<open>parse c = Some tree\<close> x have "node_lines_ok x" by (rule ast_walk_ok)
      then have "1 \<le> fd_lineno fd" using Some by (rule fundef_line)
      then have "1 \<le> sig_line (signature_of fd)" by (simp add: signature_of_def Let_def)
      with a Some show ?thesis by (auto dest!: dict_set_items)
    qed
  qed
  with Some show ?thesis by (simp add: extract_signatures_def)
qed

lemma api_lines:
  assumes ok: "parser_lines_ok parse" and f: "f \<in> set (APISignatureChangeCheck_check parse fp old new)"
  shows "1 \<le> bf_line_number f"
proof -
  have sig: "1 \<le> sig_line s" if "map_of (extract_signatures parse new) n = Some s" for n s
    using extract_signatures_lines [OF ok, of new] map_of_SomeD [OF that] by fastforce
  from f show ?thesis
    by (auto simp: APISignatureChangeCheck_check_def modified_finding_def deleted_finding_def
        Let_def sig split: if_splits option.splits)
qed

lemma breaking_lines:
  "parser_lines_ok parse \<Longrightarrow> f \<in> set (BreakingChangesValidator_validate_pr parse cf old) \<Longrightarrow> 1 \<le> bf_line_number f"
  by (auto simp: BreakingChangesValidator_validate_pr_def per_file_breaking_def Let_def
      dest: api_lines removed_severity schema_ok changelog_ok)

lemma extract_functions_lines:
  assumes ok: "parser_lines_ok parse" and m: "func \<in> set (extract_functions parse c)"
  shows "1 \<le> snd func"
proof (cases "parse c")
  case None
  with m show ?thesis
    by (auto simp: extract_functions_def dest: lines_of_ge split: option.splits if_splits)
next
  case (Some tree)
  with m obtain n where n: "n \<in> set (ast_walk tree)"
    and func: "func \<in> set (case fundef_of n of
                                 None \<Rightarrow> []
                               | Some fd \<Rightarrow>
                                   if \<not> startswith (fd_name fd) ''_'' then [(fd_name fd, fd_lineno fd)]
                                   else [])"
    by (auto simp: extract_functions_def)
  from ok Some n have nok: "node_lines_ok n" by (rule ast_walk_ok)
  show ?thesis
  proof (cases "fundef_of n")
    case None
    with func show ?thesis by simp
  next
    case (Some fd)
    with nok have "1 \<le> fd_lineno fd" by (rule fundef_line)
    with func Some show ?thesis by (simp split: if_splits)
  qed
qed

lemma new_functions_per_file_ok:
  assumes f: "f \<in> set (new_functions_per_file parse tf (fp, c))"
  shows "tf_severity f = ''medium''
         \<and> (tf_line_number f = 1 \<or> (\<exists>func \<in> set (extract_functions parse c). tf_line_number f = snd func))"
proof (cases "should_skip_file fp")
  case True
  with f show ?thesis by (simp add: new_functions_per_file_def)
next
  case False
  show ?thesis
  proof (cases "find_test_file fp tf")
    case None
    with f False show ?thesis
      by (simp add: new_functions_per_file_def Let_def no_test_file_finding_def split: if_splits)
  next
    case (Some item)
    obtain p tc where item: "item = (p, tc)" by (cases item)
    show ?thesis
    proof (cases "truthy p")
      case True
      with f False Some item show ?thesis
        by (fastforce simp: new_functions_per_file_def Let_def untested_function_finding_def)
    next
      case no: False
      with f False Some item show ?thesis
        by (simp add: new_functions_per_file_def Let_def no_test_file_finding_def split: if_splits)
    qed
  qed
qed

lemma new_functions_severity:
  "f \<in> set (NewFunctionsHaveTestsCheck_check parse sf tf) \<Longrightarrow> tf_severity f \<in> known_severities"
  by (auto simp: NewFunctionsHaveTestsCheck_check_def known_severities_def
      dest!: new_functions_per_file_ok)

lemma new_functions_lines:
  "parser_lines_ok parse \<Longrightarrow> f \<in> set (NewFunctionsHaveTestsCheck_check parse sf tf) \<Longrightarrow> 1 \<le> tf_line_number f"
  by (auto simp: NewFunctionsHaveTestsCheck_check_def
      dest!: new_functions_per_file_ok dest: extract_functions_lines)

lemma bug_fix_elems:
  "f \<in> set (BugFixRegressionTestCheck_check t d cf) \<Longrightarrow> f = regression_test_finding"
  by (auto simp: BugFixRegressionTestCheck_check_def split: if_splits)

lemma quality_ok:
  "f \<in> set (TestQualityCheck_check tf) \<Longrightarrow> tf_severity f \<in> known_severities \<and> 1 \<le> tf_line_number f"
  by (auto simp: TestQualityCheck_check_def test_quality_per_file_def no_assertions_finding_def
        many_tests_finding_def known_severities_def split: if_splits)

lemma coverage_severity:
  "f \<in> set (TestCoverageValidator_validate_pr parse t d cf) \<Longrightarrow> tf_severity f \<in> known_severities"
  by (auto simp: TestCoverageValidator_validate_pr_def Let_def
      dest: new_functions_severity quality_ok
      dest!: bug_fix_elems simp: regression_test_finding_def known_severities_def)

lemma coverage_lines:
  "parser_lines_ok parse \<Longrightarrow> f \<in> set (TestCoverageValidator_validate_pr parse t d cf)
   \<Longrightarrow> 1 \<le> tf_line_number f \<or> f = regression_test_finding"
  by (auto simp: TestCoverageValidator_validate_pr_def Let_def
      dest: new_functions_lines quality_ok bug_fix_elems)

lemma collect_elems:
  "collect F xs = Inr ys \<Longrightarrow> f \<in> set ys \<Longrightarrow> \<exists>x \<in> set xs. \<exists>zs. F x = Inr zs \<and> f \<in> set zs"
proof (induction xs arbitrary: ys)
  case Nil
  then show ?case by simp
next
  case (Cons a xs)
  from Cons.prems(1) obtain zs ws where a: "F a = Inr zs" and rest: "collect F xs = Inr ws"
    and ys: "ys = zs @ ws"
    by (auto split: sum.splits)
  from Cons.prems(2) ys have "f \<in> set zs \<or> f \<in> set ws" by simp
  then show ?case
  proof
    assume "f \<in> set zs"
    with a show ?thesis by auto
  next
    assume "f \<in> set ws"
    with rest have "\<exists>x \<in> set xs. \<exists>zs. F x = Inr zs \<and> f \<in> set zs" by (rule Cons.IH)
    then show ?thesis by auto
  qed
qed

lemma layer_elems:
  assumes "LayerSeparationCheck_check parse fp c = Inr fs" and "f \<in> set fs"
  shows "af_severity f = ''medium''
         \<and> (\<exists>stmt \<in> set (extract_imports parse c). af_line_number f = imp_line stmt)"
proof (cases "identify_layer fp")
  case None
  with assms show ?thesis by (simp add: LayerSeparationCheck_check_def)
next
  case (Some layer)
  show ?thesis
  proof (cases "map_of LAYERS layer")
    case None
    with assms Some show ?thesis by (simp add: LayerSeparationCheck_check_def)
  next
    case config: (Some config)
    let ?F = "\<lambda>(stmt, prohibited_layer).
                          case import_references_layer stmt prohibited_layer of
                            Inl e \<Rightarrow> Inl e
                          | Inr True \<Rightarrow> Inr [layer_finding fp layer config stmt prohibited_layer]
                          | Inr False \<Rightarrow> Inr []"
    from assms(1) Some config
    have "collect ?F (List.product (extract_imports parse c) (prohibited_dependencies config)) = Inr fs"
      by (simp add: LayerSeparationCheck_check_def)
    from collect_elems [OF this assms(2)]
    obtain x zs where x: "x \<in> set (List.product (extract_imports parse c) (prohibited_dependencies config))"
      and zs: "?F x = Inr zs" and f: "f \<in> set zs"
      by blast
    obtain stmt pl where xp: "x = (stmt, pl)" by (cases x)
    from zs f xp have "f = layer_finding fp layer config stmt pl"
      by (auto split: sum.splits bool.splits)
    moreover from x xp have "stmt \<in> set (extract_imports parse c)" by simp
    ultimately show ?thesis by (auto simp: layer_finding_def)
  qed
qed

lemma extract_imports_lines:
  assumes ok: "parser_lines_ok parse" and m: "stmt \<in> set (extract_imports parse c)"
  shows "1 \<le> imp_line stmt"
proof (cases "parse c")
  case None
  with m show ?thesis
    by (auto simp: extract_imports_def dest: lines_of_ge split: option.splits)
next
  case (Some tree)
  with m obtain n where n: "n \<in> set (ast_walk tree)" and s: "stmt \<in> set (imports_of_node n)"
    by (auto simp: extract_imports_def)
  from ok Some n have "node_lines_ok n" by (rule ast_walk_ok)
  with s show ?thesis
    by (auto simp: imports_of_node_def node_lines_ok_def split: py_kind.splits)
qed

lemma di_shape:
  "DependencyInjectionCheck_check fp c = []
   \<or> DependencyInjectionCheck_check fp c
     = (case filter (\<lambda>(line_num, line). re_found False route_line_pattern line) (lines_of c) of
           [] \<Rightarrow> []
         | (line_num, line) # _ \<Rightarrow> [injection_finding fp line_num])"
  unfolding DependencyInjectionCheck_check_def by presburger

lemma injection_ok:
  assumes f: "f \<in> set (DependencyInjectionCheck_check fp c)"
  shows "af_severity f \<in> known_severities \<and> 1 \<le> af_line_number f"
proof (cases "filter (\<lambda>(line_num, line). re_found False route_line_pattern line) (lines_of c)")
  case Nil
  have "DependencyInjectionCheck_check fp c = []"
    using di_shape [of fp c] unfolding Nil by simp
  with f show ?thesis by simp
next
  case (Cons a rest)
  obtain n l where a: "a = (n, l)" by (cases a)
  have "DependencyInjectionCheck_check fp c = [] \<or> DependencyInjectionCheck_check fp c = [injection_finding fp n]"
    using di_shape [of fp c] unfolding Cons a by simp
  with f have fd: "f = injection_finding fp n" by auto
  have "(n, l) \<in> set (filter (\<lambda>(line_num, line). re_found False route_line_pattern line) (lines_of c))"
    unfolding Cons a by simp
  then have "(n, l) \<in> set (lines_of c)" by simp
  then have "1 \<le> n" by (rule lines_of_ge)
  with fd show ?thesis by (simp add: injection_finding_def known_severities_def)
qed

lemma async_ok:
  "f \<in> set (AsyncPatternsCheck_check parse fp c)
   \<Longrightarrow> af_severity f \<in> known_severities \<and> 1 \<le> af_line_number f"
  by (auto simp: AsyncPatternsCheck_check_def Let_def async_finding_def line_of_match_def
        known_severities_def split: if_splits)

lemma arch_file_severity:
  assumes "ArchitectureValidator_validate_file parse fp c = Inr fs" and "f \<in> set fs"
  shows "af_severity f \<in> known_severities"
proof -
  from assms(1) obtain ls where ls: "LayerSeparationCheck_check parse fp c = Inr ls"
    and fs: "fs = ls @ DependencyInjectionCheck_check fp c @ AsyncPatternsCheck_check parse fp c"
    by (auto simp: ArchitectureValidator_validate_file_def split: sum.splits)
  from assms(2) fs consider "f \<in> set ls" | "f \<in> set (DependencyInjectionCheck_check fp c)"
    | "f \<in> set (AsyncPatternsCheck_check parse fp c)"
    by auto
  then show ?thesis
  proof cases
    case 1
    with layer_elems [OF ls] show ?thesis by (simp add: known_severities_def)
  next
    case 2
    then show ?thesis by (simp add: injection_ok)
  next
    case 3
    then show ?thesis by (simp add: async_ok)
  qed
qed

lemma arch_file_lines:
  assumes ok: "parser_lines_ok parse"
      and "ArchitectureValidator_validate_file parse fp c = Inr fs" and "f \<in> set fs"
  shows "1 \<le> af_line_number f"
proof -
  from assms(2) obtain ls where ls: "LayerSeparationCheck_check parse fp c = Inr ls"
    and fs: "fs = ls @ DependencyInjectionCheck_check fp c @ AsyncPatternsCheck_check parse fp c"
    by (auto simp: ArchitectureValidator_validate_file_def split: sum.splits)
  from assms(3) fs consider "f \<in> set ls" | "f \<in> set (DependencyInjectionCheck_check fp c)"
    | "f \<in> set (AsyncPatternsCheck_check parse fp c)"
    by auto
  then show ?thesis
  proof cases
    case 1
    with layer_elems [OF ls] obtain stmt where "stmt \<in> set (extract_imports parse c)"
      and "af_line_number f = imp_line stmt"
      by blast
    with extract_imports_lines [OF ok] show ?thesis by simp
  next
    case 2
    then show ?thesis by (simp add: injection_ok)
  next
    case 3
    then show ?thesis by (simp add: async_ok)
  qed
qed

lemma validate_files_values:
  assumes step: "\<And>fp c fs f. ArchitectureValidator_validate_file parse fp c = Inr fs \<Longrightarrow> f \<in> set fs \<Longrightarrow> P f"
  shows "validate_files parse cf results = Inr res \<Longrightarrow> \<forall>f \<in> set (concat (map snd results)). P f
         \<Longrightarrow> \<forall>f \<in> set (concat (map snd res)). P f"
proof (induction cf arbitrary: results)
  case Nil
  then show ?case by simp
next
  case (Cons a cf)
  obtain fp c where a: "a = (fp, c)" by (cases a)
  from Cons.prems(1) a obtain fs where fs: "ArchitectureValidator_validate_file parse fp c = Inr fs"
    and rest: "validate_files parse cf (if truthy fs then dict_set fp fs results else results) = Inr res"
    by (auto split: sum.splits)
  have "\<forall>f \<in> set (concat (map snd (if truthy fs then dict_set fp fs results else results))). P f"
    using Cons.prems(2) step [OF fs] dict_set_values [of fp fs results] by auto
  with rest show ?case by (rule Cons.IH)
qed

lemma cycle_finding_ok:
  "f \<in> set (CircularDependencyCheck_check_project cf)
   \<Longrightarrow> af_severity f \<in> known_severities \<and> 1 \<le> af_line_number f"
  by (auto simp: CircularDependencyCheck_check_project_def cycle_finding_def known_severities_def
      split: list.splits)

lemma append_finding_values:
  "set (concat (map snd (append_finding results f))) \<subseteq> insert f (set (concat (map snd results)))"
proof (cases "map_of results (af_file_path f)")
  case None
  then show ?thesis
    using dict_set_values [of "af_file_path f" "[f]" results] by (auto simp: append_finding_def)
next
  case (Some fs)
  then have "(af_file_path f, fs) \<in> set results" by (rule map_of_SomeD)
  then have "set fs \<subseteq> set (concat (map snd results))" by force
  with Some show ?thesis
    using dict_set_values [of "af_file_path f" "fs @ [f]" results] by (auto simp: append_finding_def)
qed

lemma validate_project_values:
  assumes step: "\<And>fp c fs f. ArchitectureValidator_validate_file parse fp c = Inr fs \<Longrightarrow> f \<in> set fs \<Longrightarrow> P f"
      and circ: "\<And>f. f \<in> set (CircularDependencyCheck_check_project cf) \<Longrightarrow> P f"
      and res: "ArchitectureValidator_validate_project parse cf = Inr res"
      and f: "f \<in> set (concat (map snd res))"
  shows "P f"
proof -
  from res obtain r0 where r0: "validate_files parse cf [] = Inr r0"
    and r: "res = foldl append_finding r0 (CircularDependencyCheck_check_project cf)"
    by (auto simp: ArchitectureValidator_validate_project_def split: sum.splits)
  have i0: "\<forall>f \<in> set (concat (map snd r0)). P f"
    by (rule validate_files_values [OF step r0]) simp_all
  have "\<forall>f \<in> set (concat (map snd (foldl append_finding r0 (CircularDependencyCheck_check_project cf)))). P f"
  proof (rule foldl_invariant [where P = "\<lambda>r. \<forall>f \<in> set (concat (map snd r)). P f"])
    show "\<forall>f \<in> set (concat (map snd r0)). P f" by (rule i0)
  next
    fix a :: "(string \<times> ArchitectureFinding list) list" and x
    assume a: "\<forall>f \<in> set (concat (map snd a)). P f" and x: "x \<in> set (CircularDependencyCheck_check_project cf)"
    from circ [OF x] a append_finding_values [of a x]
    show "\<forall>f \<in> set (concat (map snd (append_finding a x))). P f" by blast
  qed
  with r f show ?thesis by blast
qed

lemma arch_project_severity:
  "ArchitectureValidator_validate_project parse cf = Inr res \<Longrightarrow> f \<in> set (concat (map snd res))
   \<Longrightarrow> af_severity f \<in> known_severities"
  by (rule validate_project_values [where P = "\<lambda>f. af_severity f \<in> known_severities"])
     (auto dest: arch_file_severity cycle_finding_ok)

lemma arch_project_lines:
  "parser_lines_ok parse \<Longrightarrow> ArchitectureValidator_validate_project parse cf = Inr res
   \<Longrightarrow> f \<in> set (concat (map snd res)) \<Longrightarrow> 1 \<le> af_line_number f"
  by (rule validate_project_values [where P = "\<lambda>f. 1 \<le> af_line_number f"])
     (auto dest: arch_file_lines cycle_finding_ok)

text \<open>The line numbers of the findings that concern a whole file, and of the dependency injection finding.\<close>

lemma layer_names:
  assumes "LayerSeparationCheck_check parse fp c = Inr fs" and "f \<in> set fs"
  shows "af_check_name f = ''layer_separation''"
proof (cases "identify_layer fp")
  case None
  with assms show ?thesis by (simp add: LayerSeparationCheck_check_def)
next
  case (Some layer)
  show ?thesis
  proof (cases "map_of LAYERS layer")
    case None
    with assms Some show ?thesis by (simp add: LayerSeparationCheck_check_def)
  next
    case config: (Some config)
    let ?F = "\<lambda>(stmt, prohibited_layer).
                          case import_references_layer stmt prohibited_layer of
                            Inl e \<Rightarrow> Inl e
                          | Inr True \<Rightarrow> Inr [layer_finding fp layer config stmt prohibited_layer]
                          | Inr False \<Rightarrow> Inr []"
    from assms(1) Some config
    have "collect ?F (List.product (extract_imports parse c) (prohibited_dependencies config)) = Inr fs"
      by (simp add: LayerSeparationCheck_check_def)
    from collect_elems [OF this assms(2)]
    obtain x zs where zs: "?F x = Inr zs" and f: "f \<in> set zs"
      by blast
    obtain stmt pl where xp: "x = (stmt, pl)" by (cases x)
    from zs f xp have "f = layer_finding fp layer config stmt pl"
      by (auto split: sum.splits bool.splits)
    then show ?thesis by (simp add: layer_finding_def)
  qed
qed

lemma injection_line:
  assumes f: "f \<in> set (DependencyInjectionCheck_check fp c)"
  shows "af_check_name f = ''dependency_injection'' \<and> af_file_path f = fp
         \<and> first_route_line c = Some (af_line_number f)"
proof (cases "filter (\<lambda>(line_num, line). re_found False route_line_pattern line) (lines_of c)")
  case Nil
  have "DependencyInjectionCheck_check fp c = []"
    using di_shape [of fp c] unfolding Nil by simp
  with f show ?thesis by simp
next
  case (Cons a rest)
  obtain n l where a: "a = (n, l)" by (cases a)
  have "DependencyInjectionCheck_check fp c = [] \<or> DependencyInjectionCheck_check fp c = [injection_finding fp n]"
    using di_shape [of fp c] unfolding Cons a by simp
  with f have fd: "f = injection_finding fp n" by auto
  have "first_route_line c = Some n"
    unfolding first_route_line_def Cons a by simp
  with fd show ?thesis by (simp add: injection_finding_def)
qed

lemma async_names:
  "f \<in> set (AsyncPatternsCheck_check parse fp c) \<Longrightarrow> af_check_name f = ''async_patterns''"
  by (auto simp: AsyncPatternsCheck_check_def Let_def async_finding_def split: if_splits)

lemma cycle_finding_line:
  "f \<in> set (CircularDependencyCheck_check_project cf) \<Longrightarrow> af_line_number f = 1"
  by (auto simp: CircularDependencyCheck_check_project_def cycle_finding_def split: list.splits)

lemma cycle_finding_name:
  "f \<in> set (CircularDependencyCheck_check_project cf) \<Longrightarrow> af_check_name f = ''circular_dependency''"
  by (auto simp: CircularDependencyCheck_check_project_def cycle_finding_def split: list.splits)

lemma arch_file_whole:
  assumes "ArchitectureValidator_validate_file parse fp c = Inr fs" and "f \<in> set fs"
  shows "\<not> whole_file_architecture f
         \<and> (af_check_name f = ''dependency_injection''
              \<longrightarrow> af_file_path f = fp \<and> first_route_line c = Some (af_line_number f))"
proof -
  from assms(1) obtain ls where ls: "LayerSeparationCheck_check parse fp c = Inr ls"
    and fs: "fs = ls @ DependencyInjectionCheck_check fp c @ AsyncPatternsCheck_check parse fp c"
    by (auto simp: ArchitectureValidator_validate_file_def split: sum.splits)
  from assms(2) fs consider "f \<in> set ls" | "f \<in> set (DependencyInjectionCheck_check fp c)"
    | "f \<in> set (AsyncPatternsCheck_check parse fp c)"
    by auto
  then show ?thesis
  proof cases
    case 1
    with layer_names [OF ls] show ?thesis by (simp add: whole_file_architecture_def)
  next
    case 2
    from injection_line [OF 2] show ?thesis
      by (simp add: whole_file_architecture_def)
  next
    case 3
    from async_names [OF 3] show ?thesis by (simp add: whole_file_architecture_def)
  qed
qed

lemma validate_files_members:
  assumes step: "\<And>fp c fs f. (fp, c) \<in> set files
                   \<Longrightarrow> ArchitectureValidator_validate_file parse fp c = Inr fs \<Longrightarrow> f \<in> set fs \<Longrightarrow> P f"
  shows "set cf \<subseteq> set files \<Longrightarrow> validate_files parse cf results = Inr res
         \<Longrightarrow> \<forall>f \<in> set (concat (map snd results)). P f
         \<Longrightarrow> \<forall>f \<in> set (concat (map snd res)). P f"
proof (induction cf arbitrary: results)
  case Nil
  then show ?case by simp
next
  case (Cons a cf)
  obtain fp c where a: "a = (fp, c)" by (cases a)
  from Cons.prems(1) a have m: "(fp, c) \<in> set files" and sub: "set cf \<subseteq> set files" by auto
  from Cons.prems(2) a obtain fs where fs: "ArchitectureValidator_validate_file parse fp c = Inr fs"
    and rest: "validate_files parse cf (if truthy fs then dict_set fp fs results else results) = Inr res"
    by (auto split: sum.splits)
  have "\<forall>f \<in> set (concat (map snd (if truthy fs then dict_set fp fs results else results))). P f"
    using Cons.prems(3) step [OF m fs] dict_set_values [of fp fs results] by auto
  with sub rest show ?case by (rule Cons.IH)
qed

lemma validate_project_members:
  assumes step: "\<And>fp c fs f. (fp, c) \<in> set cf
                   \<Longrightarrow> ArchitectureValidator_validate_file parse fp c = Inr fs \<Longrightarrow> f \<in> set fs \<Longrightarrow> P f"
      and circ: "\<And>f. f \<in> set (CircularDependencyCheck_check_project cf) \<Longrightarrow> P f"
      and res: "ArchitectureValidator_validate_project parse cf = Inr res"
      and f: "f \<in> set (concat (map snd res))"
  shows "P f"
proof -
  from res obtain r0 where r0: "validate_files parse cf [] = Inr r0"
    and r: "res = foldl append_finding r0 (CircularDependencyCheck_check_project cf)"
    by (auto simp: ArchitectureValidator_validate_project_def split: sum.splits)
  have i0: "\<forall>f \<in> set (concat (map snd r0)). P f"
    by (rule validate_files_members [where files = cf and cf = cf, OF step _ r0]) simp_all
  have "\<forall>f \<in> set (concat (map snd (foldl append_finding r0 (CircularDependencyCheck_check_project cf)))). P f"
  proof (rule foldl_invariant [where P = "\<lambda>r. \<forall>f \<in> set (concat (map snd r)). P f"])
    show "\<forall>f \<in> set (concat (map snd r0)). P f" by (rule i0)
  next
    fix a :: "(string \<times> ArchitectureFinding list) list" and x
    assume a: "\<forall>f \<in> set (concat (map snd a)). P f" and x: "x \<in> set (CircularDependencyCheck_check_project cf)"
    from circ [OF x] a append_finding_values [of a x]
    show "\<forall>f \<in> set (concat (map snd (append_finding a x))). P f" by blast
  qed
  with r f show ?thesis by blast
qed

lemma arch_project_whole:
  assumes res: "ArchitectureValidator_validate_project parse cf = Inr res"
      and f: "f \<in> set (concat (map snd res))"
  shows "(whole_file_architecture f \<longrightarrow> af_line_number f = 1)
         \<and> (af_check_name f = ''dependency_injection''
              \<longrightarrow> (\<exists>c. (af_file_path f, c) \<in> set cf \<and> first_route_line c = Some (af_line_number f)))"
proof (rule validate_project_members [where P = "\<lambda>f. (whole_file_architecture f \<longrightarrow> af_line_number f = 1)
         \<and> (af_check_name f = ''dependency_injection''
              \<longrightarrow> (\<exists>c. (af_file_path f, c) \<in> set cf \<and> first_route_line c = Some (af_line_number f)))",
      OF _ _ res f])
  fix fp c fs f
  assume "(fp, c) \<in> set cf" "ArchitectureValidator_validate_file parse fp c = Inr fs" "f \<in> set fs"
  with arch_file_whole [of parse fp c fs f]
  show "(whole_file_architecture f \<longrightarrow> af_line_number f = 1)
         \<and> (af_check_name f = ''dependency_injection''
              \<longrightarrow> (\<exists>c. (af_file_path f, c) \<in> set cf \<and> first_route_line c = Some (af_line_number f)))"
    by auto
next
  fix f
  assume c: "f \<in> set (CircularDependencyCheck_check_project cf)"
  from cycle_finding_line [OF c] cycle_finding_name [OF c]
  show "(whole_file_architecture f \<longrightarrow> af_line_number f = 1)
         \<and> (af_check_name f = ''dependency_injection''
              \<longrightarrow> (\<exists>c. (af_file_path f, c) \<in> set cf \<and> first_route_line c = Some (af_line_number f)))"
    by simp
qed

lemma new_functions_per_file_whole:
  assumes f: "f \<in> set (new_functions_per_file parse tf (fp, c))"
  shows "whole_file_coverage f \<longrightarrow> tf_line_number f = 1"
proof (cases "should_skip_file fp")
  case True
  with f show ?thesis by (simp add: new_functions_per_file_def)
next
  case False
  show ?thesis
  proof (cases "find_test_file fp tf")
    case None
    with f False show ?thesis
      by (simp add: new_functions_per_file_def Let_def no_test_file_finding_def split: if_splits)
  next
    case (Some item)
    obtain p tc where item: "item = (p, tc)" by (cases item)
    show ?thesis
    proof (cases "truthy p")
      case True
      with f False Some item show ?thesis
        by (auto simp: new_functions_per_file_def Let_def untested_function_finding_def
            whole_file_coverage_def)
    next
      case no: False
      with f False Some item show ?thesis
        by (simp add: new_functions_per_file_def Let_def no_test_file_finding_def split: if_splits)
    qed
  qed
qed

lemma new_functions_whole:
  "f \<in> set (NewFunctionsHaveTestsCheck_check parse sf tf) \<Longrightarrow> whole_file_coverage f
   \<Longrightarrow> tf_line_number f = 1"
  by (auto simp: NewFunctionsHaveTestsCheck_check_def dest!: new_functions_per_file_whole)

lemma quality_line:
  "f \<in> set (TestQualityCheck_check tf) \<Longrightarrow> tf_line_number f = 1"
  by (auto simp: TestQualityCheck_check_def test_quality_per_file_def no_assertions_finding_def
        many_tests_finding_def split: if_splits)

lemma coverage_whole:
  "f \<in> set (TestCoverageValidator_validate_pr parse t d cf) \<Longrightarrow> whole_file_coverage f
   \<Longrightarrow> tf_line_number f = 1"
  by (auto simp: TestCoverageValidator_validate_pr_def Let_def
      dest: new_functions_whole quality_line
      dest!: bug_fix_elems simp: regression_test_finding_def whole_file_coverage_def)

lemma api_whole:
  "f \<in> set (APISignatureChangeCheck_check parse fp old new) \<Longrightarrow> whole_file_breaking f
   \<Longrightarrow> bf_line_number f = 1"
  by (auto simp: APISignatureChangeCheck_check_def modified_finding_def deleted_finding_def
        whole_file_breaking_def Let_def split: if_splits option.splits)

lemma removed_line:
  "f \<in> set (RemovedPublicMethodsCheck_check parse fp old new) \<Longrightarrow> bf_line_number f = 1"
  by (auto simp: RemovedPublicMethodsCheck_check_def deleted_file_finding_def
        removed_element_finding_def Let_def split: if_splits option.splits)

lemma schema_not_whole:
  "f \<in> set (DatabaseSchemaChangeCheck_check fp c) \<Longrightarrow> \<not> whole_file_breaking f"
  by (auto simp: DatabaseSchemaChangeCheck_check_def schema_finding_def whole_file_breaking_def
      split: if_splits)

lemma changelog_line:
  "f \<in> set (ChangelogRequirementCheck_check cf found) \<Longrightarrow> bf_line_number f = 1"
  by (auto simp: ChangelogRequirementCheck_check_def missing_changelog_finding_def
        changelog_format_finding_def split: if_splits list.splits)

lemma breaking_whole:
  "f \<in> set (BreakingChangesValidator_validate_pr parse cf old) \<Longrightarrow> whole_file_breaking f
   \<Longrightarrow> bf_line_number f = 1"
  by (auto simp: BreakingChangesValidator_validate_pr_def per_file_breaking_def Let_def
      dest: api_whole removed_line schema_not_whole changelog_line)

lemma injection_once: "length (DependencyInjectionCheck_check fp c) \<le> 1"
  using di_shape [of fp c] by (auto split: list.splits)
section \<open>The orchestrator: histogram, gating, faults, export\<close>

lemma lower_known: "s \<in> known_severities \<Longrightarrow> py_lower s = s"
proof -
  have "py_lower ''critical'' = ''critical''" "py_lower ''high'' = ''high''"
       "py_lower ''medium'' = ''medium''" "py_lower ''low'' = ''low''"
    by code_simp+
  then show "s \<in> known_severities \<Longrightarrow> py_lower s = s"
    by (auto simp: known_severities_def)
qed

lemma counted_str: "severity_of f = StrSeverity s \<Longrightarrow> counted k f = (py_lower s = k)"
  by (simp add: counted_def)

lemma count_loop_value:
  "count_loop counts fs = Inr c \<Longrightarrow>
   c k = (case counts k of None \<Rightarrow> None | Some n \<Rightarrow> Some (n + length (filter (counted k) fs)))"
proof (induction fs arbitrary: counts)
  case Nil
  then show ?case by (auto split: option.splits)
next
  case (Cons f fs)
  show ?case
  proof (cases "severity_of f")
    case (EnumSeverity e)
    with Cons.prems show ?thesis by simp
  next
    case (StrSeverity s)
    show ?thesis
    proof (cases "counts (py_lower s)")
      case None
      with Cons.prems StrSeverity have "count_loop counts fs = Inr c" by simp
      from Cons.IH [OF this] None StrSeverity show ?thesis
        by (auto simp: counted_str split: option.splits)
    next
      case (Some n)
      with Cons.prems StrSeverity have "count_loop (counts(py_lower s \<mapsto> n + 1)) fs = Inr c" by simp
      from Cons.IH [OF this] Some StrSeverity show ?thesis
        by (auto simp: counted_str split: option.splits)
    qed
  qed
qed

lemma count_loop_no_enum:
  "count_loop counts fs = Inr c \<Longrightarrow> f \<in> set fs \<Longrightarrow> \<exists>s. severity_of f = StrSeverity s"
proof (induction fs arbitrary: counts)
  case Nil
  then show ?case by simp
next
  case (Cons a fs)
  from Cons.prems(1) obtain s where s: "severity_of a = StrSeverity s"
    by (cases "severity_of a") auto
  from Cons.prems(1) s obtain counts' where rest: "count_loop counts' fs = Inr c"
    by (cases "counts (py_lower s)") auto
  from Cons.prems(2) have "f = a \<or> f \<in> set fs" by simp
  then show ?case
  proof
    assume "f = a" with s show ?thesis by simp
  next
    assume "f \<in> set fs" with rest show ?thesis by (rule Cons.IH)
  qed
qed

lemma count_known:
  assumes "\<forall>x \<in> set xs. sev x \<in> known_severities" and "k \<in> known_severities"
      and "\<And>x. severity_of (emb x) = StrSeverity (sev x)"
  shows "length (filter (counted k) (map emb xs)) = length (filter (\<lambda>s. s = k) (map sev xs))"
proof -
  have "filter (counted k) (map emb xs) = map emb (filter (\<lambda>x. sev x = k) xs)"
    unfolding filter_map comp_def
    by (rule arg_cong [where f = "map emb"], rule filter_cong [OF refl])
       (simp add: counted_def assms(3) lower_known assms(1))
  moreover have "filter (\<lambda>s. s = k) (map sev xs) = map sev (filter (\<lambda>x. sev x = k) xs)"
    by (simp add: filter_map comp_def)
  ultimately show ?thesis by simp
qed

lemma aggregate_counts:
  assumes agg: "aggregate m sec arch cov perf brk = Inr r"
      and a: "\<forall>f \<in> set arch. af_severity f \<in> known_severities"
      and c: "\<forall>f \<in> set cov. tf_severity f \<in> known_severities"
      and p: "\<forall>f \<in> set perf. pf_severity f \<in> known_severities"
      and b: "\<forall>f \<in> set brk. bf_severity f \<in> known_severities"
  shows "critical_issues r = findings_with_severity ''critical'' r
       \<and> high_issues r = findings_with_severity ''high'' r
       \<and> medium_issues r = findings_with_severity ''medium'' r
       \<and> low_issues r = findings_with_severity ''low'' r"
proof -
  let ?all = "all_findings_of sec arch cov perf brk"
  from agg obtain counts ok where counts: "count_severities ?all = Inr counts"
    and res: "make_result m ok (length ?all) counts sec arch cov perf brk = Inr r"
    by (auto simp: aggregate_def Let_def split: sum.splits)
  have sec: "sec = []"
  proof (cases sec)
    case Nil then show ?thesis .
  next
    case (Cons x xs)
    then have "Sec x \<in> set ?all" by (simp add: all_findings_of_def)
    from count_loop_no_enum [OF counts [unfolded count_severities_def] this]
    show ?thesis by simp
  qed
  have val: "counts k = Some (length (filter (\<lambda>s. s = k) (severity_names r)))"
    if k: "k \<in> known_severities" for k
  proof -
    have lists: "security_findings r = sec" "architecture_findings r = arch"
      "test_coverage_findings r = cov" "performance_findings r = perf"
      "breaking_changes_findings r = brk"
      using res by (auto simp: make_result_def split: sum.splits)
    have init: "initial_counts k = Some 0"
      using k by (auto simp: initial_counts_def known_severities_def)
    from count_loop_value [OF counts [unfolded count_severities_def], of k] init
    have "counts k = Some (length (filter (counted k) ?all))" by simp
    also have "length (filter (counted k) ?all)
        = length (filter (counted k) (map Arch arch))
        + length (filter (counted k) (map Cov cov))
        + length (filter (counted k) (map Perf perf))
        + length (filter (counted k) (map Brk brk))"
      unfolding all_findings_of_def sec
      by (simp only: list.map append_Nil filter_append length_append add.assoc)
    also have "length (filter (counted k) (map Arch arch))
        = length (filter (\<lambda>s. s = k) (map af_severity arch))"
      by (rule count_known [OF a k]) simp
    also have "length (filter (counted k) (map Cov cov))
        = length (filter (\<lambda>s. s = k) (map tf_severity cov))"
      by (rule count_known [OF c k]) simp
    also have "length (filter (counted k) (map Perf perf))
        = length (filter (\<lambda>s. s = k) (map pf_severity perf))"
      by (rule count_known [OF p k]) simp
    also have "length (filter (counted k) (map Brk brk))
        = length (filter (\<lambda>s. s = k) (map bf_severity brk))"
      by (rule count_known [OF b k]) simp
    also have "length (filter (\<lambda>s. s = k) (map af_severity arch))
        + length (filter (\<lambda>s. s = k) (map tf_severity cov))
        + length (filter (\<lambda>s. s = k) (map pf_severity perf))
        + length (filter (\<lambda>s. s = k) (map bf_severity brk))
        = length (filter (\<lambda>s. s = k) (severity_names r))"
      unfolding severity_names_def lists sec
      by (simp only: list.map append_Nil filter_append length_append add.assoc)
    finally show ?thesis .
  qed
  have mem: "''critical'' \<in> known_severities" "''high'' \<in> known_severities"
    "''medium'' \<in> known_severities" "''low'' \<in> known_severities"
    by (simp_all add: known_severities_def)
  have fields: "counts ''critical'' = Some (critical_issues r)" "counts ''high'' = Some (high_issues r)"
    "counts ''medium'' = Some (medium_issues r)" "counts ''low'' = Some (low_issues r)"
    using res by (auto simp: make_result_def getitem_def split: sum.splits option.splits)
  have "critical_issues r = findings_with_severity ''critical'' r"
    using fields(1) val [OF mem(1)] by (simp add: findings_with_severity_def)
  moreover have "high_issues r = findings_with_severity ''high'' r"
    using fields(2) val [OF mem(2)] by (simp add: findings_with_severity_def)
  moreover have "medium_issues r = findings_with_severity ''medium'' r"
    using fields(3) val [OF mem(3)] by (simp add: findings_with_severity_def)
  moreover have "low_issues r = findings_with_severity ''low'' r"
    using fields(4) val [OF mem(4)] by (simp add: findings_with_severity_def)
  ultimately show ?thesis by simp
qed

lemma validate_pr_error_mode:
  "validate_pr parse_examples ''error'' ''Drop table'' ''Old one'' drop_table_changeset None
   = Inr (drop_table_result ''error'' False)"
  by code_simp

lemma validate_pr_warning_mode:
  "validate_pr parse_examples ''warning'' ''Drop table'' ''Old one'' drop_table_changeset None
   = Inr (drop_table_result ''warning'' True)"
  by code_simp

text \<open>
  C1. In every result that \<open>validate_pr\<close> returns, each field of the severity histogram is
  the number of findings with that severity over the five finding lists.
\<close>

theorem severity_histogram_counts_findings:
  assumes "validate_pr parse m t d cf old = Inr r"
  shows "critical_issues r = findings_with_severity ''critical'' r
       \<and> high_issues r = findings_with_severity ''high'' r
       \<and> medium_issues r = findings_with_severity ''medium'' r
       \<and> low_issues r = findings_with_severity ''low'' r"
proof -
  from assms obtain res where res: "ArchitectureValidator_validate_project parse cf = Inr res"
    and agg: "aggregate m (concat (map snd (SecurityValidator_validate_pr_changes cf)))
               (concat (map snd res))
               (TestCoverageValidator_validate_pr parse t d cf)
               (concat (map snd (PerformanceValidator_validate_pr cf)))
               (BreakingChangesValidator_validate_pr parse cf (old_files_dict old)) = Inr r"
    by (auto simp: validate_pr_def Let_def split: sum.splits)
  show ?thesis
  proof (rule aggregate_counts [OF agg])
    show "\<forall>f \<in> set (concat (map snd res)). af_severity f \<in> known_severities"
      using arch_project_severity [OF res] by blast
    show "\<forall>f \<in> set (TestCoverageValidator_validate_pr parse t d cf). tf_severity f \<in> known_severities"
      using coverage_severity by blast
    show "\<forall>f \<in> set (concat (map snd (PerformanceValidator_validate_pr cf))). pf_severity f \<in> known_severities"
      using perf_pr_ok by blast
    show "\<forall>f \<in> set (BreakingChangesValidator_validate_pr parse cf (old_files_dict old)).
            bf_severity f \<in> known_severities"
      using breaking_severity by blast
  qed
qed

theorem severity_histogram_counts_findings_witness:
  "validate_pr parse_examples ''error'' ''Drop table'' ''Old one'' drop_table_changeset None
     = Inr (drop_table_result ''error'' False)
   \<and> critical_issues (drop_table_result ''error'' False)
     = findings_with_severity ''critical'' (drop_table_result ''error'' False)
   \<and> high_issues (drop_table_result ''error'' False)
     = findings_with_severity ''high'' (drop_table_result ''error'' False)
   \<and> medium_issues (drop_table_result ''error'' False)
     = findings_with_severity ''medium'' (drop_table_result ''error'' False)
   \<and> low_issues (drop_table_result ''error'' False)
     = findings_with_severity ''low'' (drop_table_result ''error'' False)
   \<and> findings_with_severity ''critical'' (drop_table_result ''error'' False) = 1
   \<and> findings_with_severity ''high'' (drop_table_result ''error'' False) = 1"
proof -
  have ev: "findings_with_severity ''critical'' (drop_table_result ''error'' False) = 1"
    "findings_with_severity ''high'' (drop_table_result ''error'' False) = 1"
    by code_simp+
  from severity_histogram_counts_findings [OF validate_pr_error_mode] validate_pr_error_mode ev
  show ?thesis by blast
qed

text \<open>
  C3. When the run returns a result: in \<open>error\<close> mode \<open>passed\<close> holds exactly when the
  critical and the high count are both zero, in \<open>warning\<close> mode \<open>passed\<close> holds, and the two
  modes give the same \<open>total_issues\<close> for the same changeset. A run returns in one mode exactly
  when it returns in the other.
\<close>

theorem gating_by_mode:
  "(validate_pr parse ''error'' t d cf old = Inr r
      \<longrightarrow> (passed r \<longleftrightarrow> critical_issues r = 0 \<and> high_issues r = 0))
   \<and> (validate_pr parse ''warning'' t d cf old = Inr r' \<longrightarrow> passed r')
   \<and> (validate_pr parse ''error'' t d cf old = Inr r \<and> validate_pr parse ''warning'' t d cf old = Inr r'
      \<longrightarrow> total_issues r = total_issues r')
   \<and> ((\<exists>r. validate_pr parse ''error'' t d cf old = Inr r)
      \<longleftrightarrow> (\<exists>r'. validate_pr parse ''warning'' t d cf old = Inr r'))"
  by (auto simp: validate_pr_def aggregate_def make_result_def determine_pass_status_def Let_def
      split: sum.splits if_splits)

theorem gating_by_mode_witness:
  "validate_pr parse_examples ''error'' ''Drop table'' ''Old one'' drop_table_changeset None
     = Inr (drop_table_result ''error'' False)
   \<and> validate_pr parse_examples ''warning'' ''Drop table'' ''Old one'' drop_table_changeset None
     = Inr (drop_table_result ''warning'' True)
   \<and> \<not> passed (drop_table_result ''error'' False)
   \<and> critical_issues (drop_table_result ''error'' False) = 1
   \<and> passed (drop_table_result ''warning'' True)
   \<and> total_issues (drop_table_result ''error'' False)
     = total_issues (drop_table_result ''warning'' True)"
proof -
  note inst = gating_by_mode [of parse_examples "''Drop table''" "''Old one''" drop_table_changeset None
      "drop_table_result ''error'' False" "drop_table_result ''warning'' True"]
  from inst validate_pr_error_mode
  have a: "passed (drop_table_result ''error'' False)
           \<longleftrightarrow> critical_issues (drop_table_result ''error'' False) = 0
             \<and> high_issues (drop_table_result ''error'' False) = 0"
    by blast
  from inst validate_pr_warning_mode have b: "passed (drop_table_result ''warning'' True)"
    by blast
  from inst validate_pr_error_mode validate_pr_warning_mode
  have c: "total_issues (drop_table_result ''error'' False)
           = total_issues (drop_table_result ''warning'' True)"
    by blast
  have d: "critical_issues (drop_table_result ''error'' False) = 1"
    by (simp add: drop_table_result_def)
  from a d have e: "\<not> passed (drop_table_result ''error'' False)" by simp
  from validate_pr_error_mode validate_pr_warning_mode e d b c show ?thesis by blast
qed

text \<open>
  C2. \<open>validate_pr\<close> raises on well-formed changesets. A service module with one import makes
  the layer separation check look up the layer name \<open>api\<close>, which is no key of \<open>LAYERS\<close>:
  the \<open>KeyError\<close> leaves the check, the architecture validator and the orchestrator. A file
  with a security finding makes the severity count call \<open>lower()\<close> on a member of
  \<open>Severity\<close>: the \<open>AttributeError\<close> leaves the orchestrator.
\<close>

theorem validate_pr_raises:
  "validate_pr parse_examples ''warning'' ''Add user service'' ''Adds the service''
     service_changeset None = Inl (KeyError ''api'')
   \<and> LayerSeparationCheck_check parse_examples ''services/user_service.py'' src_import_os
     = Inl (KeyError ''api'')
   \<and> validate_pr parse_examples ''warning'' ''Add settings'' ''Adds them'' password_changeset None
     = Inl (AttributeError ''lower'')"
  by code_simp

text \<open>
  C6. The export of a result that holds a security finding raises: the finding's severity is a
  member of \<open>Severity\<close>, which \<open>json.dumps\<close> cannot serialize.
\<close>

theorem export_with_security_finding_raises:
  "export_results_json result_with_security_finding
   = Inl (TypeError ''Object of type Severity is not JSON serializable'')"
  by code_simp

lemma parse_examples_lines_ok: "parser_lines_ok parse_examples"
proof -
  have "list_all node_lines_ok (ast_walk (Node OtherNode [Node (Import [''os''] 1) []]))"
    "list_all node_lines_ok (ast_walk (Node OtherNode [Node OtherNode []]))"
    by code_simp+
  then show ?thesis
    by (auto simp: parser_lines_ok_def parse_examples_def split: if_splits)
qed

lemma parse_route_lines_ok: "parser_lines_ok parse_route"
proof -
  have "list_all node_lines_ok (ast_walk (Node OtherNode
         [Node OtherNode [],
          Node (FunctionDef \<lparr>fd_name = ''u'', fd_lineno = 4, fd_end_lineno = Some 4,
                             fd_args = [], fd_defaults = [], fd_returns = None\<rparr>)
               [Node OtherNode [], Node OtherNode [], Node OtherNode []]]))"
    by code_simp
  then show ?thesis
    by (auto simp: parser_lines_ok_def parse_route_def split: if_splits)
qed

lemma parse_cycle_lines_ok: "parser_lines_ok parse_cycle"
proof -
  have "list_all node_lines_ok (ast_walk (Node OtherNode [Node (Import [''b''] 1) []]))"
    "list_all node_lines_ok (ast_walk (Node OtherNode [Node (Import [''a''] 1) []]))"
    by code_simp+
  then show ?thesis
    by (auto simp: parser_lines_ok_def parse_cycle_def split: if_splits)
qed

text \<open>
  C8, as amended. With a parser whose trees carry line numbers from 1, every finding of the
  security, architecture, performance and breaking changes validators carries a line number of at
  least 1, and so does every finding of the test coverage validator except the bug-fix regression
  finding, which belongs to the pull request and carries the line number 0. The findings that
  concern a whole file or the project carry the line number 1: the circular dependency finding,
  the finding of a source file without test file, the test quality findings, the findings of a
  removed class, function or file, of a function deleted from the interface, and of the
  changelog. The dependency injection check returns at most one finding for a file, and that
  finding is not among them: its line number is that of the first line of its file that holds a
  route decorator.
\<close>

theorem findings_line_numbers:
  assumes ok: "parser_lines_ok parse"
  shows "list_all (\<lambda>f. 1 \<le> sf_line_number f)
           (concat (map snd (SecurityValidator_validate_pr_changes cf)))
       \<and> (ArchitectureValidator_validate_project parse cf = Inr res
            \<longrightarrow> list_all (\<lambda>f. 1 \<le> af_line_number f
                              \<and> (whole_file_architecture f \<longrightarrow> af_line_number f = 1)
                              \<and> (af_check_name f = ''dependency_injection''
                                   \<longrightarrow> (\<exists>c. (af_file_path f, c) \<in> set cf
                                            \<and> first_route_line c = Some (af_line_number f))))
                   (concat (map snd res)))
       \<and> list_all (\<lambda>f. (1 \<le> tf_line_number f \<or> f = regression_test_finding)
                        \<and> (whole_file_coverage f \<longrightarrow> tf_line_number f = 1))
           (TestCoverageValidator_validate_pr parse t d cf)
       \<and> list_all (\<lambda>f. 1 \<le> pf_line_number f)
           (concat (map snd (PerformanceValidator_validate_pr cf)))
       \<and> list_all (\<lambda>f. 1 \<le> bf_line_number f \<and> (whole_file_breaking f \<longrightarrow> bf_line_number f = 1))
           (BreakingChangesValidator_validate_pr parse cf old)
       \<and> tf_line_number regression_test_finding = 0
       \<and> tf_file_path regression_test_finding = ''(pull request)''
       \<and> length (DependencyInjectionCheck_check fp c) \<le> 1"
proof (intro conjI impI)
  show "list_all (\<lambda>f. 1 \<le> sf_line_number f)
           (concat (map snd (SecurityValidator_validate_pr_changes cf)))"
    unfolding list_all_iff using security_pr_lines by blast
next
  assume res: "ArchitectureValidator_validate_project parse cf = Inr res"
  show "list_all (\<lambda>f. 1 \<le> af_line_number f
                              \<and> (whole_file_architecture f \<longrightarrow> af_line_number f = 1)
                              \<and> (af_check_name f = ''dependency_injection''
                                   \<longrightarrow> (\<exists>c. (af_file_path f, c) \<in> set cf
                                            \<and> first_route_line c = Some (af_line_number f))))
                   (concat (map snd res))"
    unfolding list_all_iff
  proof (intro ballI conjI)
    fix f
    assume f: "f \<in> set (concat (map snd res))"
    from ok res f show "1 \<le> af_line_number f" by (rule arch_project_lines)
    from arch_project_whole [OF res f]
    show "whole_file_architecture f \<longrightarrow> af_line_number f = 1"
      and "af_check_name f = ''dependency_injection''
           \<longrightarrow> (\<exists>c. (af_file_path f, c) \<in> set cf \<and> first_route_line c = Some (af_line_number f))"
      by blast+
  qed
next
  show "list_all (\<lambda>f. (1 \<le> tf_line_number f \<or> f = regression_test_finding)
                        \<and> (whole_file_coverage f \<longrightarrow> tf_line_number f = 1))
           (TestCoverageValidator_validate_pr parse t d cf)"
    unfolding list_all_iff using coverage_lines [OF ok] coverage_whole by blast
next
  show "list_all (\<lambda>f. 1 \<le> pf_line_number f)
           (concat (map snd (PerformanceValidator_validate_pr cf)))"
    unfolding list_all_iff using perf_pr_ok by blast
next
  show "list_all (\<lambda>f. 1 \<le> bf_line_number f \<and> (whole_file_breaking f \<longrightarrow> bf_line_number f = 1))
           (BreakingChangesValidator_validate_pr parse cf old)"
    unfolding list_all_iff using breaking_lines [OF ok] breaking_whole by blast
next
  show "tf_line_number regression_test_finding = 0"
    by (simp add: regression_test_finding_def)
next
  show "tf_file_path regression_test_finding = ''(pull request)''"
    by (simp add: regression_test_finding_def)
next
  show "length (DependencyInjectionCheck_check fp c) \<le> 1"
    by (rule injection_once)
qed

theorem findings_line_numbers_witness:
  "parser_lines_ok parse_route
   \<and> ArchitectureValidator_validate_project parse_route route_changeset
       = Inr [(''api/u.py'', [injection_finding ''api/u.py'' 3])]
   \<and> list_all (\<lambda>f. 1 \<le> af_line_number f
                    \<and> (whole_file_architecture f \<longrightarrow> af_line_number f = 1)
                    \<and> (af_check_name f = ''dependency_injection''
                         \<longrightarrow> (\<exists>c. (af_file_path f, c) \<in> set route_changeset
                                  \<and> first_route_line c = Some (af_line_number f))))
       [injection_finding ''api/u.py'' 3]
   \<and> first_route_line src_route = Some 3
   \<and> list_all (\<lambda>f. (1 \<le> tf_line_number f \<or> f = regression_test_finding)
                    \<and> (whole_file_coverage f \<longrightarrow> tf_line_number f = 1))
       (TestCoverageValidator_validate_pr parse_route ''add route'' ''Short'' route_changeset)
   \<and> map (\<lambda>f. (whole_file_coverage f, tf_line_number f))
       (TestCoverageValidator_validate_pr parse_route ''add route'' ''Short'' route_changeset)
       = [(True, 1)]
   \<and> parser_lines_ok parse_cycle
   \<and> ArchitectureValidator_validate_project parse_cycle cycle_changeset
       = Inr [(''a'', cycle_finding [''a'', ''b''])]
   \<and> list_all (\<lambda>f. 1 \<le> af_line_number f
                    \<and> (whole_file_architecture f \<longrightarrow> af_line_number f = 1)
                    \<and> (af_check_name f = ''dependency_injection''
                         \<longrightarrow> (\<exists>c. (af_file_path f, c) \<in> set cycle_changeset
                                  \<and> first_route_line c = Some (af_line_number f))))
       (cycle_finding [''a'', ''b''])
   \<and> map (\<lambda>f. (whole_file_architecture f, af_line_number f)) (cycle_finding [''a'', ''b''])
       = [(True, 1)]
   \<and> parser_lines_ok parse_examples
   \<and> list_all (\<lambda>f. 1 \<le> bf_line_number f \<and> (whole_file_breaking f \<longrightarrow> bf_line_number f = 1))
       (BreakingChangesValidator_validate_pr parse_examples drop_table_changeset Map.empty)
   \<and> map (\<lambda>f. (whole_file_breaking f, bf_line_number f))
       (BreakingChangesValidator_validate_pr parse_examples drop_table_changeset Map.empty)
       = [(False, 1), (True, 1)]"
proof -
  have route: "ArchitectureValidator_validate_project parse_route route_changeset
       = Inr [(''api/u.py'', [injection_finding ''api/u.py'' 3])]"
    by code_simp
  have cycle: "ArchitectureValidator_validate_project parse_cycle cycle_changeset
       = Inr [(''a'', cycle_finding [''a'', ''b''])]"
    by code_simp
  have first: "first_route_line src_route = Some 3"
    by code_simp
  have cov: "map (\<lambda>f. (whole_file_coverage f, tf_line_number f))
       (TestCoverageValidator_validate_pr parse_route ''add route'' ''Short'' route_changeset)
       = [(True, 1)]"
    by code_simp
  have cyc: "map (\<lambda>f. (whole_file_architecture f, af_line_number f)) (cycle_finding [''a'', ''b''])
       = [(True, 1)]"
    by code_simp
  have brk: "map (\<lambda>f. (whole_file_breaking f, bf_line_number f))
       (BreakingChangesValidator_validate_pr parse_examples drop_table_changeset Map.empty)
       = [(False, 1), (True, 1)]"
    by code_simp
  note inst_route = findings_line_numbers [OF parse_route_lines_ok,
      of route_changeset "[(''api/u.py'', [injection_finding ''api/u.py'' 3])]"
         "''add route''" "''Short''" Map.empty]
  note inst_cycle = findings_line_numbers [OF parse_cycle_lines_ok,
      of cycle_changeset "[(''a'', cycle_finding [''a'', ''b''])]" "''add route''" "''Short''" Map.empty]
  note inst_table = findings_line_numbers [OF parse_examples_lines_ok,
      of drop_table_changeset "[]" "''add route''" "''Short''" Map.empty]
  from inst_route route
  have a1: "list_all (\<lambda>f. 1 \<le> af_line_number f
                    \<and> (whole_file_architecture f \<longrightarrow> af_line_number f = 1)
                    \<and> (af_check_name f = ''dependency_injection''
                         \<longrightarrow> (\<exists>c. (af_file_path f, c) \<in> set route_changeset
                                  \<and> first_route_line c = Some (af_line_number f))))
       [injection_finding ''api/u.py'' 3]"
    by simp
  from inst_cycle cycle
  have a2: "list_all (\<lambda>f. 1 \<le> af_line_number f
                    \<and> (whole_file_architecture f \<longrightarrow> af_line_number f = 1)
                    \<and> (af_check_name f = ''dependency_injection''
                         \<longrightarrow> (\<exists>c. (af_file_path f, c) \<in> set cycle_changeset
                                  \<and> first_route_line c = Some (af_line_number f))))
       (cycle_finding [''a'', ''b''])"
    by simp
  from inst_route
  have a3: "list_all (\<lambda>f. (1 \<le> tf_line_number f \<or> f = regression_test_finding)
                    \<and> (whole_file_coverage f \<longrightarrow> tf_line_number f = 1))
       (TestCoverageValidator_validate_pr parse_route ''add route'' ''Short'' route_changeset)"
    by blast
  from inst_table
  have a4: "list_all (\<lambda>f. 1 \<le> bf_line_number f \<and> (whole_file_breaking f \<longrightarrow> bf_line_number f = 1))
       (BreakingChangesValidator_validate_pr parse_examples drop_table_changeset Map.empty)"
    by blast
  from parse_route_lines_ok route a1 first a3 cov parse_cycle_lines_ok cycle a2 cyc
    parse_examples_lines_ok a4 brk
  show ?thesis by blast
qed

text \<open>
  The claim as stated fails twice. On a bug-fix pull request without test files the test
  coverage validator returns the regression finding, whose line number is 0. On a routes file
  whose first route decorator is on line 3 the dependency injection check, which reports once
  per file, returns a finding with the line number 3 and not 1.
\<close>

theorem bug_fix_line_zero_and_route_line_three:
  "map tf_line_number
     (TestCoverageValidator_validate_pr parse_examples ''fix bug'' ''Short'' password_changeset) = [0]
   \<and> map tf_check_name
     (BugFixRegressionTestCheck_check ''fix bug'' ''Short'' password_changeset)
     = [''bug_fix_regression_tests'']
   \<and> map (\<lambda>f. (af_check_name f, af_line_number f))
       (DependencyInjectionCheck_check ''api/u.py'' src_route)
     = [(''dependency_injection'', 3)]
   \<and> ArchitectureValidator_validate_project parse_route route_changeset
     = Inr [(''api/u.py'', [injection_finding ''api/u.py'' 3])]"
  by code_simp
end
